(* ===== verification/Prelude.thy ===== *)
theory Prelude
  imports Main "HOL-Library.Word"
begin

unbundle bit_operations_syntax

text \<open>
  The part of Go every component of the library relies on: run-time panics, the results of
  fallible functions, signed 64-bit integers, bytes and the big-endian layout of
  \<^verbatim>\<open>encoding/binary\<close>, and the generic list facts the component proofs share.

  A Go function of type \<^verbatim>\<open>T\<close> that may panic is modelled with result type
  \<open>'t exec\<close>; a function that returns a pair \<^verbatim>\<open>(T, error)\<close> has result type
  \<open>err + 't\<close> with \<open>Inl\<close> the error (a Go caller that sees a non-nil error never
  looks at the other component).
\<close>

named_theorems exec_simps \<open>equations that run the panic monad\<close>
named_theorems byte_simps \<open>round trips between words and their big-endian octets\<close>

section \<open>Panics\<close>

text \<open>The run-time panics the modelled code can raise.\<close>

datatype go_panic =
    IndexOutOfRange
  | SliceBoundsOutOfRange
  | IntegerDivideByZero
  | NilDereference
  | TypeAssertionFailed
  | SendOnClosedChannel
  | CloseOfClosedChannel
  | MakeChanSizeOutOfRange
  | InputNotFullBlock
  | RegistrationConflict

datatype 'a exec = Panics go_panic | Returns 'a

definition exec_bind :: "'a exec \<Rightarrow> ('a \<Rightarrow> 'b exec) \<Rightarrow> 'b exec" where
  "exec_bind m f = (case m of Panics p \<Rightarrow> Panics p | Returns x \<Rightarrow> f x)"

lemma exec_bind_simps [simp, exec_simps]:
  "exec_bind (Returns x) f = f x"
  "exec_bind (Panics p) f = Panics p"
  by (simp_all add: exec_bind_def)

lemma exec_bind_Returns_iff [exec_simps]:
  "exec_bind m f = Returns y \<longleftrightarrow> (\<exists>x. m = Returns x \<and> f x = Returns y)"
  by (cases m) auto

text \<open>A result that is not a panic.\<close>

definition returns :: "'a exec \<Rightarrow> bool" where
  "returns m = (case m of Panics p \<Rightarrow> False | Returns x \<Rightarrow> True)"

lemma returns_simps [simp]: "returns (Returns x)" "\<not> returns (Panics p)"
  by (simp_all add: returns_def)

lemma returns_iff: "returns m \<longleftrightarrow> (\<exists>x. m = Returns x)"
  by (cases m) auto

text \<open>Sequencing of functions that return \<^verbatim>\<open>(T, error)\<close>: stop at the first error.\<close>

definition err_bind :: "'e + 'a \<Rightarrow> ('a \<Rightarrow> 'e + 'b) \<Rightarrow> 'e + 'b" where
  "err_bind m f = (case m of Inl e \<Rightarrow> Inl e | Inr x \<Rightarrow> f x)"

lemma err_bind_simps [simp, exec_simps]:
  "err_bind (Inr x) f = f x"
  "err_bind (Inl e) f = Inl e"
  by (simp_all add: err_bind_def)

lemma err_bind_Inr_iff [exec_simps]:
  "err_bind m f = Inr y \<longleftrightarrow> (\<exists>x. m = Inr x \<and> f x = Inr y)"
  by (cases m) auto

section \<open>Signed 64-bit integers\<close>

text \<open>
  Go's \<^verbatim>\<open>int64\<close> (and \<^verbatim>\<open>int\<close> on the 64-bit targets the program is built
  for) is an \<open>int\<close> in the range \<open>- 2^63 .. 2^63 - 1\<close>; \<open>i64\<close> is the two's
  complement wrap-around that every arithmetic result goes through.
\<close>

definition MinInt64 :: int where "MinInt64 = - (2 ^ 63)"
definition MaxInt64 :: int where "MaxInt64 = 2 ^ 63 - 1"

definition i64 :: "int \<Rightarrow> int" where
  "i64 x = (x + 2 ^ 63) mod 2 ^ 64 - 2 ^ 63"

lemma i64_id [simp]: "MinInt64 \<le> x \<Longrightarrow> x \<le> MaxInt64 \<Longrightarrow> i64 x = x"
  by (simp add: i64_def MinInt64_def MaxInt64_def)

lemma i64_range: "MinInt64 \<le> i64 x" "i64 x \<le> MaxInt64"
  using pos_mod_bound [of "2 ^ 64 :: int" "x + 2 ^ 63"]
  by (simp_all add: i64_def MinInt64_def MaxInt64_def)

lemma i64_wraps: "i64 (MaxInt64 + 1) = MinInt64"
  by (simp add: i64_def MinInt64_def MaxInt64_def)

text \<open>Go's \<^verbatim>\<open>%\<close> on signed operands truncates towards zero and panics on zero.\<close>

definition go_rem :: "int \<Rightarrow> int \<Rightarrow> int exec" where
  "go_rem a b = (if b = 0 then Panics IntegerDivideByZero
                 else Returns (sgn a * (\<bar>a\<bar> mod \<bar>b\<bar>)))"

lemma go_rem_pos [simp]: "0 \<le> a \<Longrightarrow> 0 < b \<Longrightarrow> go_rem a b = Returns (a mod b)"
  by (cases "a = 0") (simp_all add: go_rem_def)

lemma go_rem_zero [simp]: "go_rem a 0 = Panics IntegerDivideByZero"
  by (simp add: go_rem_def)

section \<open>Bytes\<close>

type_synonym byte = "8 word"

text \<open>The octets of \<^verbatim>\<open>binary.BigEndian\<close>, most significant first.\<close>

definition be16 :: "byte \<Rightarrow> byte \<Rightarrow> 16 word" where
  "be16 a b = push_bit 8 (ucast a) OR ucast b"

definition be24 :: "byte \<Rightarrow> byte \<Rightarrow> byte \<Rightarrow> 32 word" where
  "be24 a b c = push_bit 16 (ucast a) OR push_bit 8 (ucast b) OR ucast c"

definition be32 :: "byte \<Rightarrow> byte \<Rightarrow> byte \<Rightarrow> byte \<Rightarrow> 32 word" where
  "be32 a b c d =
     push_bit 24 (ucast a) OR push_bit 16 (ucast b) OR push_bit 8 (ucast c) OR ucast d"

definition PutUint16 :: "16 word \<Rightarrow> byte list" where
  "PutUint16 v = [ucast (drop_bit 8 v), ucast v]"

definition PutUint32 :: "32 word \<Rightarrow> byte list" where
  "PutUint32 v = [ucast (drop_bit 24 v), ucast (drop_bit 16 v), ucast (drop_bit 8 v), ucast v]"

text \<open>\<^verbatim>\<open>binary.BigEndian.Uint32\<close> reads the first four octets and panics on a shorter slice.\<close>

definition Uint32 :: "byte list \<Rightarrow> 32 word exec" where
  "Uint32 b = (case b of (b0 # b1 # b2 # b3 # _) \<Rightarrow> Returns (be32 b0 b1 b2 b3)
               | _ \<Rightarrow> Panics IndexOutOfRange)"

lemma be16_PutUint16 [byte_simps]: "be16 (ucast (drop_bit 8 v)) (ucast v) = v"
  unfolding be16_def
proof (rule bit_word_eqI)
  fix n assume "n < LENGTH(16)"
  then show "bit (push_bit 8 (ucast (ucast (drop_bit 8 v) :: byte)) OR ucast (ucast v :: byte) :: 16 word) n
      = bit v n"
    by (cases "n < 8") (auto simp: bit_simps)
qed

lemma be32_PutUint32 [byte_simps]:
  "be32 (ucast (drop_bit 24 v)) (ucast (drop_bit 16 v)) (ucast (drop_bit 8 v)) (ucast v) = v"
  unfolding be32_def
proof (rule bit_word_eqI)
  fix n assume "n < LENGTH(32)"
  then show "bit (push_bit 24 (ucast (ucast (drop_bit 24 v) :: byte)) OR
      push_bit 16 (ucast (ucast (drop_bit 16 v) :: byte)) OR
      push_bit 8 (ucast (ucast (drop_bit 8 v) :: byte)) OR ucast (ucast v :: byte) :: 32 word) n = bit v n"
    by (cases "n < 8"; cases "n < 16"; cases "n < 24") (auto simp: bit_simps)
qed

lemma octets_be16 [byte_simps]:
  "ucast (drop_bit 8 (be16 a b)) = a" "ucast (be16 a b) = b"
  unfolding be16_def by (rule bit_word_eqI; auto simp: bit_simps dest: bit_imp_le_length)+

lemma octets_be32 [byte_simps]:
  "ucast (drop_bit 24 (be32 a b c d)) = a" "ucast (drop_bit 16 (be32 a b c d)) = b"
  "ucast (drop_bit 8 (be32 a b c d)) = c" "ucast (be32 a b c d) = d"
  unfolding be32_def by (rule bit_word_eqI; auto simp: bit_simps dest: bit_imp_le_length)+

lemma PutUint32_be32 [byte_simps]: "PutUint32 (be32 a b c d) = [a, b, c, d]"
  by (simp add: PutUint32_def byte_simps)

lemma Uint32_PutUint32 [byte_simps]: "Uint32 (PutUint32 v @ rest) = Returns v"
  by (simp add: Uint32_def PutUint32_def byte_simps)

lemma length_PutUint [simp]: "length (PutUint16 v) = 2" "length (PutUint32 w) = 4"
  by (simp_all add: PutUint16_def PutUint32_def)

lemma length_ge_4E:
  assumes "4 \<le> length xs"
  obtains a b c d rest where "xs = a # b # c # d # rest"
  using assms by (cases xs rule: remdups_adj.cases; auto simp: Suc_le_length_iff numeral_eq_Suc)

lemma PutUint32_Uint32:
  assumes "length b = 4" shows "\<exists>v. Uint32 b = Returns v \<and> PutUint32 v = b"
proof -
  from assms have "4 \<le> length b" by simp
  then obtain b0 b1 b2 b3 rest where "b = b0 # b1 # b2 # b3 # rest"
    by (rule length_ge_4E)
  with assms show ?thesis by (simp add: Uint32_def byte_simps)
qed

lemma Uint32_returns: "(\<exists>v. Uint32 b = Returns v) \<longleftrightarrow> 4 \<le> length b"
  by (auto simp: Uint32_def split: list.splits)

definition PutUint24 :: "32 word \<Rightarrow> byte list" where
  "PutUint24 v = [ucast (drop_bit 16 v), ucast (drop_bit 8 v), ucast v]"

lemma be24_PutUint24 [byte_simps]:
  assumes "drop_bit 24 v = 0"
  shows "be24 (ucast (drop_bit 16 v)) (ucast (drop_bit 8 v)) (ucast v) = v"
  unfolding be24_def
proof (rule bit_word_eqI)
  fix n assume n: "n < LENGTH(32)"
  have high: "\<not> bit v n" if "24 \<le> n"
  proof -
    have "bit (drop_bit 24 v) (n - 24) = bit v n" using that by (simp add: bit_drop_bit_eq)
    with assms show ?thesis by simp
  qed
  show "bit (push_bit 16 (ucast (ucast (drop_bit 16 v) :: byte)) OR
      push_bit 8 (ucast (ucast (drop_bit 8 v) :: byte)) OR ucast (ucast v :: byte) :: 32 word) n = bit v n"
    using n high by (cases "n < 8"; cases "n < 16"; cases "n < 24") (auto simp: bit_simps)
qed

lemma octets_be24 [byte_simps]:
  "ucast (drop_bit 16 (be24 a b c)) = a"
  "ucast (drop_bit 8 (be24 a b c)) = b" "ucast (be24 a b c) = c"
  "drop_bit 24 (be24 a b c) = 0"
  unfolding be24_def by (rule bit_word_eqI; auto simp: bit_simps dest: bit_imp_le_length)+

lemma length_PutUint24 [simp]: "length (PutUint24 v) = 3"
  by (simp add: PutUint24_def)

lemma take_add_drop: "take (m + n) xs = take m xs @ take n (drop m xs)"
  by (simp add: take_add)

end
