(* ===== verification/Allocator.thy ===== *)
theory Allocator
  imports Prelude
begin

text \<open>
  The contract the identifier and address pools of the program share, as a locale: a pool
  manages a finite universe of values, hands out an available one, and takes back one that
  is handed out. The clients of a pool (session managers that hold what they were given and
  return only that) are a step relation over the pool; the lemmas of the locale say that
  values are never handed out twice, never lost, and that a pool refuses exactly when its
  clients hold everything it had. The address pools have two more kinds of calls, the request of a
  given value and the withdrawal of values from use; their contract extends the first one.
\<close>

section \<open>Clients of a pool\<close>

text \<open>
  A configuration pairs the pool with the set of values its clients hold. One step is one
  call: a successful allocation, or the return of a held value.
\<close>

inductive pool_client ::
    "('s \<Rightarrow> (int \<times> 's) option) \<Rightarrow> (int \<Rightarrow> 's \<Rightarrow> 's) \<Rightarrow> 's \<Rightarrow> 's \<Rightarrow> int set \<Rightarrow> bool"
  for alloc :: "'s \<Rightarrow> (int \<times> 's) option" and release :: "int \<Rightarrow> 's \<Rightarrow> 's" and s0 :: 's where
  client_start: "pool_client alloc release s0 s0 {}"
| client_alloc: "pool_client alloc release s0 s H \<Longrightarrow> alloc s = Some (v, s') \<Longrightarrow>
    pool_client alloc release s0 s' (insert v H)"
| client_free: "pool_client alloc release s0 s H \<Longrightarrow> v \<in> H \<Longrightarrow>
    pool_client alloc release s0 (release v s) (H - {v})"

text \<open>
  The calls of a pool whose clients may also ask for a value of their choice, and whose
  operator withdraws values: \<open>request\<close> answers with the value it grants, if it does,
  and \<open>withdraw\<close> with the set of values it was asked to withdraw. The configuration also
  has the set of withdrawn values; one that is held when it is withdrawn is still its client's.
\<close>

inductive managed_client ::
    "('s \<Rightarrow> (int \<times> 's) option) \<Rightarrow> ('q \<Rightarrow> 's \<Rightarrow> 's \<times> int option) \<Rightarrow>
     ('x \<Rightarrow> 's \<Rightarrow> 's \<times> int set) \<Rightarrow> (int \<Rightarrow> 's \<Rightarrow> 's) \<Rightarrow>
     's \<Rightarrow> 's \<Rightarrow> int set \<Rightarrow> int set \<Rightarrow> bool"
  for alloc :: "'s \<Rightarrow> (int \<times> 's) option" and request :: "'q \<Rightarrow> 's \<Rightarrow> 's \<times> int option"
    and withdraw :: "'x \<Rightarrow> 's \<Rightarrow> 's \<times> int set" and release :: "int \<Rightarrow> 's \<Rightarrow> 's"
    and s0 :: 's where
  managed_start: "managed_client alloc request withdraw release s0 s0 {} {}"
| managed_alloc: "managed_client alloc request withdraw release s0 s H R \<Longrightarrow>
    alloc s = Some (v, s') \<Longrightarrow>
    managed_client alloc request withdraw release s0 s' (insert v H) R"
| managed_request: "managed_client alloc request withdraw release s0 s H R \<Longrightarrow>
    request q s = (s', answer) \<Longrightarrow>
    managed_client alloc request withdraw release s0 s' (set_option answer \<union> H) R"
| managed_withdraw: "managed_client alloc request withdraw release s0 s H R \<Longrightarrow>
    withdraw x s = (s', X) \<Longrightarrow>
    managed_client alloc request withdraw release s0 s' H (R \<union> (X - H))"
| managed_free: "managed_client alloc request withdraw release s0 s H R \<Longrightarrow> v \<in> H \<Longrightarrow>
    managed_client alloc request withdraw release s0 (release v s) (H - {v}) R"

section \<open>The pool contract\<close>

locale value_pool =
  fixes ok :: "'s \<Rightarrow> bool"
    and universe :: "'s \<Rightarrow> int set"
    and avail :: "'s \<Rightarrow> int set"
    and alloc :: "'s \<Rightarrow> (int \<times> 's) option"
    and release :: "int \<Rightarrow> 's \<Rightarrow> 's"
  assumes finite_universe: "ok s \<Longrightarrow> finite (universe s)"
    and avail_universe: "ok s \<Longrightarrow> avail s \<subseteq> universe s"
    and alloc_None: "ok s \<Longrightarrow> alloc s = None \<longleftrightarrow> avail s = {}"
    and alloc_ok: "ok s \<Longrightarrow> alloc s = Some (v, s') \<Longrightarrow> ok s'"
    and alloc_avail: "ok s \<Longrightarrow> alloc s = Some (v, s') \<Longrightarrow> v \<in> avail s \<and> avail s' = avail s - {v}"
    and alloc_universe: "ok s \<Longrightarrow> alloc s = Some (v, s') \<Longrightarrow> universe s' = universe s"
    and release_ok: "ok s \<Longrightarrow> v \<in> universe s \<Longrightarrow> v \<notin> avail s \<Longrightarrow> ok (release v s)"
    and release_avail: "ok s \<Longrightarrow> v \<in> universe s \<Longrightarrow> v \<notin> avail s \<Longrightarrow>
      avail (release v s) = insert v (avail s)"
    and release_universe: "ok s \<Longrightarrow> v \<in> universe s \<Longrightarrow> v \<notin> avail s \<Longrightarrow>
      universe (release v s) = universe s"
begin

lemma client_invariant:
  assumes "ok s0" and "pool_client alloc release s0 s H"
  shows "ok s \<and> universe s = universe s0 \<and> H \<inter> avail s = {} \<and> H \<union> avail s = avail s0"
  using assms(2)
proof (induction rule: pool_client.induct)
  case client_start
  then show ?case using assms(1) by simp
next
  case (client_alloc s H v s')
  then show ?case using alloc_ok alloc_avail alloc_universe by blast
next
  case (client_free s H v)
  then have v: "v \<in> universe s" "v \<notin> avail s" "ok s"
    using avail_universe [OF assms(1)] by auto
  then show ?case using client_free release_ok release_avail release_universe by auto
qed

lemma client_no_double_allocation:
  assumes "ok s0" and "pool_client alloc release s0 s H" and "alloc s = Some (v, s')"
  shows "v \<notin> H" and "v \<in> avail s0"
  using client_invariant [OF assms(1,2)] alloc_avail [OF _ assms(3)] by auto

lemma client_no_leak:
  assumes "ok s0" and "pool_client alloc release s0 s H"
  shows "card H + card (avail s) = card (avail s0)"
proof -
  from assms(1) have "finite (avail s0)"
    by (meson avail_universe finite_universe finite_subset)
  with client_invariant [OF assms] show ?thesis
    by (metis card_Un_disjoint finite_Un)
qed

lemma client_exhausted_iff:
  assumes "ok s0" and "pool_client alloc release s0 s H"
  shows "alloc s = None \<longleftrightarrow> H = avail s0"
  using client_invariant [OF assms] alloc_None by blast

lemma client_can_allocate:
  assumes "ok s0" and "pool_client alloc release s0 s H" and "card H < card (avail s0)"
  shows "\<exists>v s'. alloc s = Some (v, s')"
  using client_exhausted_iff [OF assms(1,2)] assms(3) by (cases "alloc s") auto

end

section \<open>Requests and withdrawals\<close>

locale managed_pool = value_pool +
  fixes request :: "'q \<Rightarrow> 's \<Rightarrow> 's \<times> int option"
    and withdraw :: "'x \<Rightarrow> 's \<Rightarrow> 's \<times> int set"
  assumes request_ok: "ok s \<Longrightarrow> request q s = (s', answer) \<Longrightarrow> ok s' \<and> universe s' = universe s"
    and request_avail: "ok s \<Longrightarrow> request q s = (s', answer) \<Longrightarrow>
      set_option answer \<subseteq> avail s \<and> avail s' = avail s - set_option answer"
    and withdraw_ok: "ok s \<Longrightarrow> withdraw x s = (s', X) \<Longrightarrow> ok s' \<and> universe s' = universe s"
    and withdraw_avail: "ok s \<Longrightarrow> withdraw x s = (s', X) \<Longrightarrow>
      X \<subseteq> universe s \<and> avail s' = avail s - X"
begin

lemma managed_invariant:
  assumes "ok s0" and "managed_client alloc request withdraw release s0 s H R"
  shows "ok s \<and> universe s = universe s0 \<and> H \<subseteq> avail s0 \<and> R \<subseteq> universe s0 \<and> H \<inter> R = {} \<and>
    avail s = avail s0 - (H \<union> R)"
  using assms(2)
proof (induction rule: managed_client.induct)
  case managed_start
  then show ?case using assms(1) by simp
next
  case (managed_alloc s H R v s')
  then show ?case
    using alloc_ok [of s v s'] alloc_avail [of s v s'] alloc_universe [of s v s'] by auto
next
  case (managed_request s H R q s' answer)
  then show ?case using request_ok [of s q s' answer] request_avail [of s q s' answer] by auto
next
  case (managed_withdraw s H R x s' X)
  then show ?case using withdraw_ok [of s x s' X] withdraw_avail [of s x s' X] by auto
next
  case (managed_free s H R v)
  then have v: "v \<in> universe s" "v \<notin> avail s" "ok s"
    using avail_universe [OF assms(1)] by auto
  then show ?case
    using managed_free release_ok [of s v] release_avail [of s v] release_universe [of s v] by auto
qed

lemma managed_alloc_fresh:
  assumes "ok s0" and "managed_client alloc request withdraw release s0 s H R"
    and "alloc s = Some (v, s')"
  shows "v \<in> avail s0 - (H \<union> R)"
  using managed_invariant [OF assms(1,2)] alloc_avail [OF _ assms(3)] by auto

lemma managed_request_fresh:
  assumes "ok s0" and "managed_client alloc request withdraw release s0 s H R"
    and "request q s = (s', Some v)"
  shows "v \<in> avail s0 - (H \<union> R)"
  using managed_invariant [OF assms(1,2)] request_avail [OF _ assms(3)] by auto

lemma managed_exhausted_iff:
  assumes "ok s0" and "managed_client alloc request withdraw release s0 s H R"
  shows "alloc s = None \<longleftrightarrow> avail s0 \<subseteq> H \<union> R"
  using managed_invariant [OF assms] alloc_None by auto

text \<open>In a pool that starts with its whole universe every value is free, held or withdrawn.\<close>

lemma managed_no_leak:
  assumes "ok s0" and "avail s0 = universe s0"
    and "managed_client alloc request withdraw release s0 s H R"
  shows "card (avail s) + card H + card R = card (universe s0)"
proof -
  note inv = managed_invariant [OF assms(1,3)]
  have fin: "finite (universe s0)" using assms(1) by (rule finite_universe)
  then have "finite H" "finite R" using inv assms(2) by (auto intro: finite_subset)
  then have "card (H \<union> R) = card H + card R" using inv by (intro card_Un_disjoint) auto
  moreover have "card (avail s) = card (universe s0) - card (H \<union> R)" "card (H \<union> R) \<le> card (universe s0)"
    using inv assms(2) fin by (auto simp: card_Diff_subset finite_subset intro!: card_mono)
  ultimately show ?thesis by simp
qed

end

end
