(* ===== verification/IdGenerator.thy ===== *)
theory IdGenerator
  imports Allocator
begin

text \<open>
  \<^verbatim>\<open>lib/util/idgenerator/idgenerator.go\<close>: a generator of identifiers in
  \<open>[minValue, maxValue]\<close> that scans the offsets round-robin. Every field is an
  \<^verbatim>\<open>int64\<close>. The methods run under the generator's mutex, so each is one atomic
  operation on the record.
\<close>

section \<open>Data and operations\<close>

record IDGenerator =
  minValue :: int
  maxValue :: int
  valueRange :: int
  offset :: int
  usedMap :: "int \<rightharpoonup> bool"

definition IDGenerator_init :: "int \<Rightarrow> int \<Rightarrow> IDGenerator \<Rightarrow> IDGenerator" where
  "IDGenerator_init mn mx g = g\<lparr>minValue := mn, maxValue := mx,
     valueRange := i64 (i64 (mx - mn) + 1), offset := 0, usedMap := Map.empty\<rparr>"

definition NewGenerator :: "int \<Rightarrow> int \<Rightarrow> IDGenerator" where
  "NewGenerator mn mx = IDGenerator_init mn mx
     \<lparr>minValue = 0, maxValue = 0, valueRange = 0, offset = 0, usedMap = Map.empty\<rparr>"

definition updateOffset :: "IDGenerator \<Rightarrow> IDGenerator exec" where
  "updateOffset g =
     exec_bind (go_rem (i64 (offset g + 1)) (valueRange g)) (\<lambda>r. Returns (g\<lparr>offset := r\<rparr>))"

text \<open>
  The search loop of \<^verbatim>\<open>Allocate\<close>. \<open>None\<close> is a loop that never ends; \<open>False\<close>
  is the exit through the "no available value range" error.
\<close>

partial_function (option) allocate_loop ::
    "int \<Rightarrow> IDGenerator \<Rightarrow> (IDGenerator \<times> bool) exec option" where
  "allocate_loop offsetBegin g =
     (case usedMap g (offset g) of
        None \<Rightarrow> Some (Returns (g, True))
      | Some _ \<Rightarrow>
          (case updateOffset g of
             Panics p \<Rightarrow> Some (Panics p)
           | Returns g' \<Rightarrow>
               if offset g' = offsetBegin then Some (Returns (g', False))
               else allocate_loop offsetBegin g'))"

datatype id_error = NoAvailableValueRange

definition IDGenerator_Allocate ::
    "IDGenerator \<Rightarrow> (IDGenerator \<times> (id_error + int)) exec option" where
  "IDGenerator_Allocate g =
     map_option (\<lambda>r. exec_bind r (\<lambda>(g1, found).
       if \<not> found then Returns (g1, Inl NoAvailableValueRange)
       else let g2 = g1\<lparr>usedMap := (usedMap g1)(offset g1 \<mapsto> True)\<rparr>;
                ident = i64 (offset g2 + minValue g2)
            in exec_bind (updateOffset g2) (\<lambda>g3. Returns (g3, Inr ident))))
     (allocate_loop (offset g) g)"

definition IDGenerator_FreeID :: "int \<Rightarrow> IDGenerator \<Rightarrow> IDGenerator" where
  "IDGenerator_FreeID ident g =
     (if ident < minValue g \<or> maxValue g < ident then g
      else g\<lparr>usedMap := (usedMap g)(i64 (ident - minValue g) := None)\<rparr>)"

section \<open>Invariant\<close>

text \<open>
  The generators built by \<^verbatim>\<open>NewGenerator\<close> from a non-empty range whose size fits an
  \<^verbatim>\<open>int64\<close>.
\<close>

definition idgen_ok :: "IDGenerator \<Rightarrow> bool" where
  "idgen_ok g \<longleftrightarrow> MinInt64 \<le> minValue g \<and> maxValue g \<le> MaxInt64 \<and>
     valueRange g = maxValue g - minValue g + 1 \<and> valueRange g \<le> MaxInt64 \<and>
     0 \<le> offset g \<and> offset g < valueRange g \<and> dom (usedMap g) \<subseteq> {0..<valueRange g}"

text \<open>The identifiers of the range, and those not handed out.\<close>

definition idgen_universe :: "IDGenerator \<Rightarrow> int set" where
  "idgen_universe g = {minValue g..maxValue g}"

definition idgen_avail :: "IDGenerator \<Rightarrow> int set" where
  "idgen_avail g = {i \<in> idgen_universe g. usedMap g (i - minValue g) = None}"

definition valid_range :: "int \<Rightarrow> int \<Rightarrow> bool" where
  "valid_range mn mx \<longleftrightarrow>
     MinInt64 \<le> mn \<and> mn \<le> mx \<and> mx \<le> MaxInt64 \<and> mx - mn + 1 \<le> MaxInt64"

lemma NewGenerator_ok:
  assumes "valid_range mn mx"
  shows "idgen_ok (NewGenerator mn mx)"
proof -
  have "MinInt64 \<le> 0" by (simp add: MinInt64_def)
  with assms show ?thesis
    by (simp add: idgen_ok_def NewGenerator_def IDGenerator_init_def valid_range_def)
qed

lemma NewGenerator_avail: "idgen_avail (NewGenerator mn mx) = {mn..mx}"
  by (auto simp: idgen_avail_def idgen_universe_def NewGenerator_def IDGenerator_init_def)

section \<open>The search loop\<close>

lemma updateOffset_ok:
  assumes "idgen_ok g"
  shows "updateOffset g = Returns (g\<lparr>offset := (offset g + 1) mod valueRange g\<rparr>)"
proof -
  have "MinInt64 \<le> 0" by (simp add: MinInt64_def)
  with assms have "i64 (offset g + 1) = offset g + 1" "0 < valueRange g"
    by (auto simp: idgen_ok_def)
  with assms show ?thesis by (simp add: updateOffset_def idgen_ok_def)
qed

lemma valueRange_mod:
  assumes "idgen_ok g"
  shows "0 \<le> a mod valueRange g" and "a mod valueRange g < valueRange g"
proof -
  from assms have "0 < valueRange g" by (auto simp: idgen_ok_def)
  then show "0 \<le> a mod valueRange g" and "a mod valueRange g < valueRange g" by simp_all
qed

lemma idgen_ok_offset [simp]:
  assumes "idgen_ok g"
  shows "idgen_ok (g\<lparr>offset := a mod valueRange g\<rparr>)"
  using assms valueRange_mod [OF assms, of a] by (auto simp: idgen_ok_def)

text \<open>
  The offset \<open>k\<close> places after \<open>b\<close> in scan order, and whether it is taken.
\<close>

definition scan_offset :: "IDGenerator \<Rightarrow> int \<Rightarrow> nat \<Rightarrow> int" where
  "scan_offset g b k = (b + int k) mod valueRange g"

definition scan_used :: "IDGenerator \<Rightarrow> int \<Rightarrow> nat \<Rightarrow> bool" where
  "scan_used g b k \<longleftrightarrow> usedMap g (scan_offset g b k) \<noteq> None"

lemma scan_offset_Suc:
  "(scan_offset g b k + 1) mod valueRange g = scan_offset g b (Suc k)"
  by (simp add: scan_offset_def mod_simps ac_simps)

lemma scan_offset_cong [simp]:
  "scan_offset (g\<lparr>offset := x\<rparr>) b k = scan_offset g b k"
  "scan_used (g\<lparr>offset := x\<rparr>) b k = scan_used g b k"
  by (simp_all add: scan_offset_def scan_used_def)

lemma scan_offset_wraps:
  assumes "idgen_ok g" and "0 \<le> b" and "b < valueRange g" and "k \<le> nat (valueRange g)"
  shows "scan_offset g b k = b \<longleftrightarrow> k = 0 \<or> k = nat (valueRange g)"
proof -
  have "k = 0 \<or> k = nat (valueRange g)" if "(b + int k) mod valueRange g = b"
  proof -
    from that have "valueRange g dvd int k"
      by (metis add_diff_cancel_left' mod_eq_dvd_iff assms(2,3) mod_pos_pos_trivial)
    with assms(4) show ?thesis
      by (metis int_nat_eq le_antisym nat_le_iff not_gr0 of_nat_0_less_iff
          of_nat_le_iff zdvd_imp_le nat_int)
  qed
  with assms show ?thesis by (auto simp: scan_offset_def)
qed

text \<open>
  The loop, entered at the offset \<open>k\<close> places after \<open>b\<close> with everything before it
  taken, stops at the first offset that is not taken, or comes back to \<open>b\<close>.
\<close>

lemma allocate_loop_step:
  assumes "idgen_ok g" and "0 \<le> b" and "b < valueRange g" and "k < nat (valueRange g)"
    and "offset g = scan_offset g b k" and "scan_used g b k"
  shows "allocate_loop b g =
    (if Suc k = nat (valueRange g) then Some (Returns (g\<lparr>offset := b\<rparr>, False))
     else allocate_loop b (g\<lparr>offset := scan_offset g b (Suc k)\<rparr>))"
proof -
  from assms have "(offset g + 1) mod valueRange g = scan_offset g b (Suc k)"
    by (simp add: scan_offset_Suc)
  moreover from assms have "scan_offset g b (Suc k) = b \<longleftrightarrow> Suc k = nat (valueRange g)"
    using scan_offset_wraps [of g b "Suc k"] by simp
  moreover from assms(5,6) obtain u where "usedMap g (offset g) = Some u"
    by (auto simp: scan_used_def)
  ultimately show ?thesis
    by (subst allocate_loop.simps) (auto simp: updateOffset_ok [OF assms(1)])
qed

lemma allocate_loop_finds:
  assumes "idgen_ok g" and "0 \<le> b" and "b < valueRange g" and "m < nat (valueRange g)"
    and "\<not> scan_used g b m" and "\<forall>j<m. scan_used g b j" and "k \<le> m"
  shows "allocate_loop b (g\<lparr>offset := scan_offset g b k\<rparr>) =
    Some (Returns (g\<lparr>offset := scan_offset g b m\<rparr>, True))"
  using assms(7)
proof (induction rule: inc_induct)
  case base
  with assms(5) show ?case by (subst allocate_loop.simps) (simp add: scan_used_def)
next
  case (step n)
  let ?g = "g\<lparr>offset := scan_offset g b n\<rparr>"
  have "idgen_ok ?g" using assms(1) by (simp add: scan_offset_def)
  with step assms allocate_loop_step [of ?g b n] show ?case by simp
qed

lemma allocate_loop_full:
  assumes "idgen_ok g" and "0 \<le> b" and "b < valueRange g"
    and "\<forall>j<nat (valueRange g). scan_used g b j" and "k < nat (valueRange g)"
  shows "allocate_loop b (g\<lparr>offset := scan_offset g b k\<rparr>) = Some (Returns (g\<lparr>offset := b\<rparr>, False))"
proof -
  have "k \<le> nat (valueRange g) - 1" using assms(5) by simp
  then show ?thesis
  proof (induction rule: inc_induct)
    case base
    let ?g = "g\<lparr>offset := scan_offset g b (nat (valueRange g) - 1)\<rparr>"
    have "idgen_ok ?g" using assms(1) by (simp add: scan_offset_def)
    with assms allocate_loop_step [of ?g b "nat (valueRange g) - 1"] show ?case by simp
  next
    case (step n)
    let ?g = "g\<lparr>offset := scan_offset g b n\<rparr>"
    have "idgen_ok ?g" using assms(1) by (simp add: scan_offset_def)
    with step assms allocate_loop_step [of ?g b n] show ?case by simp
  qed
qed

lemma scan_offset_surj:
  assumes "idgen_ok g" and "0 \<le> x" and "x < valueRange g"
  shows "\<exists>k<nat (valueRange g). scan_offset g (offset g) k = x"
proof -
  let ?k = "nat ((x - offset g) mod valueRange g)"
  from assms have "0 < valueRange g" by linarith
  then have "int ?k = (x - offset g) mod valueRange g" "?k < nat (valueRange g)"
    by (auto simp: nat_mono_iff)
  with assms show ?thesis
    by (intro exI [of _ ?k]) (simp add: scan_offset_def mod_add_right_eq)
qed

section \<open>Allocate and FreeID\<close>

lemma idgen_avail_scan:
  assumes "idgen_ok g"
  shows "idgen_avail g = {} \<longleftrightarrow> (\<forall>k<nat (valueRange g). scan_used g (offset g) k)"
proof
  assume empty: "idgen_avail g = {}"
  show "\<forall>k<nat (valueRange g). scan_used g (offset g) k"
  proof (intro allI impI)
    fix k assume "k < nat (valueRange g)"
    let ?x = "scan_offset g (offset g) k"
    from assms have "0 \<le> ?x" "?x < valueRange g"
      by (simp_all add: scan_offset_def valueRange_mod)
    with assms have "minValue g + ?x \<in> idgen_universe g"
      by (auto simp: idgen_universe_def idgen_ok_def)
    with empty have "usedMap g ?x \<noteq> None" by (auto simp: idgen_avail_def)
    then show "scan_used g (offset g) k" by (simp add: scan_used_def)
  qed
next
  assume full: "\<forall>k<nat (valueRange g). scan_used g (offset g) k"
  have "usedMap g (i - minValue g) \<noteq> None" if "i \<in> idgen_universe g" for i
  proof -
    from that assms have "0 \<le> i - minValue g" "i - minValue g < valueRange g"
      by (auto simp: idgen_universe_def idgen_ok_def)
    with assms full show ?thesis
      by (metis scan_offset_surj scan_used_def)
  qed
  then show "idgen_avail g = {}" by (auto simp: idgen_avail_def)
qed

lemma Allocate_full:
  assumes "idgen_ok g" and "idgen_avail g = {}"
  shows "IDGenerator_Allocate g = Some (Returns (g, Inl NoAvailableValueRange))"
proof -
  from assms have b: "0 \<le> offset g" "offset g < valueRange g" "0 < nat (valueRange g)"
    by (auto simp: idgen_ok_def)
  then have "scan_offset g (offset g) 0 = offset g" by (simp add: scan_offset_def)
  with allocate_loop_full [OF assms(1) b(1,2) _ b(3)] assms idgen_avail_scan
  have "allocate_loop (offset g) g = Some (Returns (g, False))" by simp
  then show ?thesis by (simp add: IDGenerator_Allocate_def)
qed

text \<open>The state after handing out the identifier at offset \<open>x\<close>.\<close>

definition idgen_take :: "int \<Rightarrow> IDGenerator \<Rightarrow> IDGenerator" where
  "idgen_take x g = g\<lparr>usedMap := (usedMap g)(x \<mapsto> True), offset := (x + 1) mod valueRange g\<rparr>"

lemma Allocate_finds:
  assumes "idgen_ok g" and "m < nat (valueRange g)"
    and "\<not> scan_used g (offset g) m" and "\<forall>j<m. scan_used g (offset g) j"
  shows "IDGenerator_Allocate g = Some (Returns (idgen_take (scan_offset g (offset g) m) g,
    Inr (minValue g + scan_offset g (offset g) m)))"
proof -
  let ?x = "scan_offset g (offset g) m"
  let ?g1 = "g\<lparr>offset := ?x\<rparr>" and ?g2 = "g\<lparr>offset := ?x, usedMap := (usedMap g)(?x \<mapsto> True)\<rparr>"
  from assms have b: "0 \<le> offset g" "offset g < valueRange g" by (auto simp: idgen_ok_def)
  then have "scan_offset g (offset g) 0 = offset g" by (simp add: scan_offset_def)
  with allocate_loop_finds [OF assms(1) b assms(2-4), of 0]
  have loop: "allocate_loop (offset g) g = Some (Returns (?g1, True))" by simp
  have x: "0 \<le> ?x" "?x < valueRange g" using assms(1) by (simp_all add: scan_offset_def valueRange_mod)
  with assms(1) have "idgen_ok ?g2" "i64 (?x + minValue g) = minValue g + ?x"
    by (auto simp: idgen_ok_def)
  then show ?thesis
    using updateOffset_ok [of ?g2] by (simp add: IDGenerator_Allocate_def loop Let_def idgen_take_def)
qed

lemma idgen_take_ok:
  assumes "idgen_ok g" and "0 \<le> x" and "x < valueRange g"
  shows "idgen_ok (idgen_take x g)" and "idgen_universe (idgen_take x g) = idgen_universe g"
    and "idgen_avail (idgen_take x g) = idgen_avail g - {minValue g + x}"
proof -
  show "idgen_ok (idgen_take x g)"
    using assms valueRange_mod [OF assms(1), of "x + 1"] by (auto simp: idgen_ok_def idgen_take_def)
  show "idgen_universe (idgen_take x g) = idgen_universe g"
    by (simp add: idgen_universe_def idgen_take_def)
  show "idgen_avail (idgen_take x g) = idgen_avail g - {minValue g + x}"
    by (auto simp: idgen_avail_def idgen_universe_def idgen_take_def)
qed

text \<open>
  \<^verbatim>\<open>Allocate\<close> on a well-formed generator that is not exhausted: it terminates, hands out
  an available identifier and marks exactly that one.
\<close>

lemma Allocate_available:
  assumes ok: "idgen_ok g" and av: "idgen_avail g \<noteq> {}"
  obtains x where "0 \<le> x" "x < valueRange g" "minValue g + x \<in> idgen_avail g"
    "IDGenerator_Allocate g = Some (Returns (idgen_take x g, Inr (minValue g + x)))"
proof -
  let ?P = "\<lambda>k. k < nat (valueRange g) \<and> \<not> scan_used g (offset g) k"
  from assms idgen_avail_scan have "\<exists>k. ?P k" by blast
  then obtain m where m: "?P m" and least: "\<forall>j<m. \<not> ?P j"
    using exists_least_iff [of ?P] by blast
  let ?x = "scan_offset g (offset g) m"
  have x: "0 \<le> ?x" "?x < valueRange g"
    using valueRange_mod [OF ok] by (simp_all add: scan_offset_def)
  moreover from m x ok have "minValue g + ?x \<in> idgen_avail g"
    by (auto simp: idgen_avail_def idgen_universe_def scan_used_def idgen_ok_def)
  moreover from m least have "\<forall>j<m. scan_used g (offset g) j" by auto
  ultimately show ?thesis using that Allocate_finds [OF ok] m by blast
qed

lemma FreeID_ok: "idgen_ok g \<Longrightarrow> idgen_ok (IDGenerator_FreeID i g)"
  by (auto simp: IDGenerator_FreeID_def idgen_ok_def)

lemma FreeID_universe: "idgen_universe (IDGenerator_FreeID i g) = idgen_universe g"
  by (simp add: IDGenerator_FreeID_def idgen_universe_def)

lemma FreeID_avail:
  assumes "idgen_ok g"
  shows "idgen_avail (IDGenerator_FreeID i g) = idgen_avail g \<union> ({i} \<inter> idgen_universe g)"
proof (cases "i \<in> idgen_universe g")
  case True
  then have r: "0 \<le> i - minValue g" "i - minValue g \<le> maxValue g - minValue g"
    by (auto simp: idgen_universe_def)
  have "MinInt64 \<le> 0" by (simp add: MinInt64_def)
  with r assms have "i64 (i - minValue g) = i - minValue g" by (auto simp: idgen_ok_def)
  with True show ?thesis
    by (auto simp: IDGenerator_FreeID_def idgen_avail_def idgen_universe_def)
next
  case False
  then show ?thesis by (auto simp: IDGenerator_FreeID_def idgen_universe_def)
qed

section \<open>The generator implements the pool contract\<close>

text \<open>A client's view of \<^verbatim>\<open>Allocate\<close>: the identifier it got, if any.\<close>

definition idgen_alloc :: "IDGenerator \<Rightarrow> (int \<times> IDGenerator) option" where
  "idgen_alloc g = (case IDGenerator_Allocate g of
     Some (Returns (g', Inr i)) \<Rightarrow> Some (i, g') | _ \<Rightarrow> None)"

lemma idgen_alloc_cases:
  assumes "idgen_ok g"
  shows "idgen_avail g = {} \<and> idgen_alloc g = None \<or>
    (\<exists>x. 0 \<le> x \<and> x < valueRange g \<and> minValue g + x \<in> idgen_avail g \<and>
         idgen_alloc g = Some (minValue g + x, idgen_take x g))"
proof (cases "idgen_avail g = {}")
  case True
  with assms Allocate_full show ?thesis by (simp add: idgen_alloc_def)
next
  case False
  with assms obtain x where "0 \<le> x" "x < valueRange g" "minValue g + x \<in> idgen_avail g"
    "IDGenerator_Allocate g = Some (Returns (idgen_take x g, Inr (minValue g + x)))"
    by (rule Allocate_available)
  then show ?thesis by (auto simp: idgen_alloc_def)
qed

lemma idgen_alloc_Some:
  assumes "idgen_ok g" and "idgen_alloc g = Some (v, g')"
  obtains x where "0 \<le> x" "x < valueRange g" "v = minValue g + x" "v \<in> idgen_avail g"
    "g' = idgen_take x g"
  using idgen_alloc_cases [OF assms(1)] assms(2) by auto

interpretation idgen: value_pool idgen_ok idgen_universe idgen_avail idgen_alloc IDGenerator_FreeID
proof unfold_locales
  fix s v s'
  assume ok: "idgen_ok s"
  show "finite (idgen_universe s)" by (simp add: idgen_universe_def)
  show "idgen_avail s \<subseteq> idgen_universe s" by (auto simp: idgen_avail_def)
  show "idgen_alloc s = None \<longleftrightarrow> idgen_avail s = {}" using idgen_alloc_cases [OF ok] by auto
  { assume "idgen_alloc s = Some (v, s')"
    with ok show "idgen_ok s'" by (metis idgen_alloc_Some idgen_take_ok(1)) }
  { assume "idgen_alloc s = Some (v, s')"
    with ok show "v \<in> idgen_avail s \<and> idgen_avail s' = idgen_avail s - {v}"
      by (metis idgen_alloc_Some idgen_take_ok(3)) }
  { assume "idgen_alloc s = Some (v, s')"
    with ok show "idgen_universe s' = idgen_universe s" by (metis idgen_alloc_Some idgen_take_ok(2)) }
  show "idgen_ok (IDGenerator_FreeID v s)" using ok by (rule FreeID_ok)
  show "idgen_universe (IDGenerator_FreeID v s) = idgen_universe s" by (rule FreeID_universe)
  { assume "v \<in> idgen_universe s"
    with ok show "idgen_avail (IDGenerator_FreeID v s) = insert v (idgen_avail s)"
      by (simp add: FreeID_avail) }
qed

section \<open>Properties\<close>

lemma idgen_client:
  assumes "valid_range mn mx"
    and "pool_client idgen_alloc IDGenerator_FreeID (NewGenerator mn mx) g H"
  shows "idgen_ok g" and "H \<inter> idgen_avail g = {}" and "H \<union> idgen_avail g = {mn..mx}"
  using idgen.client_invariant [OF NewGenerator_ok [OF assms(1)] assms(2)]
  by (simp_all add: NewGenerator_avail)

text \<open>
  C2. Identifiers are unique. In every history of a generator for \<open>[mn, mx]\<close>, a non-empty range
  whose size fits an \<^verbatim>\<open>int64\<close>, whose clients return only what they hold, an identifier that \<^verbatim>\<open>Allocate\<close> hands out lies in
  \<open>[mn, mx]\<close> and is held by no client.
\<close>

theorem idgen_no_double_allocation:
  assumes "valid_range mn mx"
    and "pool_client idgen_alloc IDGenerator_FreeID (NewGenerator mn mx) g H"
    and "IDGenerator_Allocate g = Some (Returns (g', Inr i))"
  shows "i \<notin> H \<and> mn \<le> i \<and> i \<le> mx"
proof -
  from assms(3) have "idgen_alloc g = Some (i, g')" by (simp add: idgen_alloc_def)
  from idgen.client_no_double_allocation [OF NewGenerator_ok [OF assms(1)] assms(2) this]
  show ?thesis by (simp add: NewGenerator_avail)
qed

text \<open>A client of the generator of \<open>[1, 2]\<close> holds 1; the one of \<open>[7, 7]\<close> holds all there is.\<close>

lemma idgen_first_alloc:
  assumes "valid_range mn mx"
  shows "pool_client idgen_alloc IDGenerator_FreeID (NewGenerator mn mx) (idgen_take 0 (NewGenerator mn mx)) {mn}"
proof -
  have ok: "idgen_ok (NewGenerator mn mx)" using assms by (rule NewGenerator_ok)
  have "IDGenerator_Allocate (NewGenerator mn mx) = Some (Returns (idgen_take 0 (NewGenerator mn mx), Inr mn))"
    using Allocate_finds [OF ok, of 0] ok
    by (simp add: scan_used_def scan_offset_def NewGenerator_def IDGenerator_init_def idgen_ok_def)
  then have "idgen_alloc (NewGenerator mn mx) = Some (mn, idgen_take 0 (NewGenerator mn mx))"
    by (simp add: idgen_alloc_def)
  with client_start show ?thesis by (rule client_alloc)
qed

theorem idgen_no_double_allocation_witness:
  "\<exists>g g'. pool_client idgen_alloc IDGenerator_FreeID (NewGenerator 1 2) g {1} \<and>
    IDGenerator_Allocate g = Some (Returns (g', Inr 2)) \<and> (2::int) \<notin> {1} \<and> (1::int) \<le> 2 \<and> (2::int) \<le> 2"
proof -
  let ?g = "idgen_take 0 (NewGenerator 1 2)"
  have r: "valid_range 1 2" by (simp add: valid_range_def MinInt64_def MaxInt64_def)
  note c = idgen_first_alloc [OF r]
  obtain g' where a: "IDGenerator_Allocate ?g = Some (Returns (g', Inr 2))"
    by (simp add: IDGenerator_Allocate_def allocate_loop.simps NewGenerator_def IDGenerator_init_def
        idgen_take_def Let_def updateOffset_def go_rem_def i64_def)
  from c a idgen_no_double_allocation [OF r c a] show ?thesis by blast
qed

text \<open>
  C16. On a generator made from a non-empty range whose size fits an \<^verbatim>\<open>int64\<close>, and after any
  history of clients that free only what they hold, \<^verbatim>\<open>Allocate\<close> returns, without a panic, and fails
  exactly when every identifier of the range is held.
\<close>

theorem idgen_allocate_total:
  assumes "valid_range mn mx"
    and "pool_client idgen_alloc IDGenerator_FreeID (NewGenerator mn mx) g H"
  shows "\<exists>g' r. IDGenerator_Allocate g = Some (Returns (g', r)) \<and>
    (r = Inl NoAvailableValueRange \<longleftrightarrow> H = {mn..mx})"
proof -
  note cl = idgen_client [OF assms]
  show ?thesis
  proof (cases "idgen_avail g = {}")
    case True
    with cl have "H = {mn..mx}" by auto
    with Allocate_full [OF cl(1) True] show ?thesis by simp
  next
    case False
    with cl have "H \<noteq> {mn..mx}" by auto
    with cl(1) False show ?thesis by (metis Allocate_available sum.distinct(1))
  qed
qed

theorem idgen_allocate_total_witness:
  "\<exists>g g'. pool_client idgen_alloc IDGenerator_FreeID (NewGenerator 7 7) g {7} \<and>
    IDGenerator_Allocate g = Some (Returns (g', Inl NoAvailableValueRange))"
proof -
  have r: "valid_range 7 7" by (simp add: valid_range_def MinInt64_def MaxInt64_def)
  note c = idgen_first_alloc [OF r]
  have "{7} = {7..7::int}" by simp
  with c idgen_allocate_total [OF r c] show ?thesis by metis
qed

text \<open>
  C24. \<^verbatim>\<open>Allocate\<close> is round-robin: it hands out the first identifier that is not in
  use at or after the current offset in cyclic order, marks only that one and moves the
  offset just behind it.
\<close>

theorem idgen_round_robin:
  assumes "idgen_ok g" and "m < nat (valueRange g)"
    and "usedMap g ((offset g + int m) mod valueRange g) = None"
    and "\<forall>j<m. usedMap g ((offset g + int j) mod valueRange g) \<noteq> None"
  shows "IDGenerator_Allocate g = Some (Returns
    (g\<lparr>usedMap := (usedMap g)((offset g + int m) mod valueRange g \<mapsto> True),
       offset := (offset g + int m + 1) mod valueRange g\<rparr>,
     Inr (minValue g + (offset g + int m) mod valueRange g)))"
  using Allocate_finds [OF assms(1,2)] assms(3,4)
  by (simp add: scan_used_def scan_offset_def idgen_take_def mod_simps)

theorem idgen_round_robin_witness:
  "IDGenerator_Allocate \<lparr>minValue = 10, maxValue = 12, valueRange = 3, offset = 2,
      usedMap = [2 \<mapsto> True]\<rparr> =
   Some (Returns (\<lparr>minValue = 10, maxValue = 12, valueRange = 3, offset = 1,
      usedMap = [2 \<mapsto> True, 0 \<mapsto> True]\<rparr>, Inr 10))"
proof -
  let ?g = "\<lparr>minValue = 10, maxValue = 12, valueRange = 3, offset = 2, usedMap = [2 \<mapsto> True]\<rparr>"
  have "idgen_ok ?g" by (simp add: idgen_ok_def MinInt64_def MaxInt64_def)
  from idgen_round_robin [OF this, of 1] show ?thesis by simp
qed

text \<open>
  Reuse is delayed: an identifier that is freed right after it was handed out is not
  handed out by the next \<^verbatim>\<open>Allocate\<close> as long as another one is available.
\<close>

lemma idgen_delayed_reuse:
  assumes "idgen_ok g" and "IDGenerator_Allocate g = Some (Returns (g1, Inr i))"
    and "idgen_avail g1 \<noteq> {}"
  shows "\<exists>g2 j. IDGenerator_Allocate (IDGenerator_FreeID i g1) = Some (Returns (g2, Inr j)) \<and> j \<noteq> i"
proof -
  from assms(2) have "idgen_alloc g = Some (i, g1)" by (simp add: idgen_alloc_def)
  with assms(1) obtain x where x: "0 \<le> x" "x < valueRange g" "i = minValue g + x"
    "g1 = idgen_take x g" by (rule idgen_alloc_Some)
  let ?f = "IDGenerator_FreeID i g1"
  have ok1: "idgen_ok g1" using idgen_take_ok(1) [OF assms(1) x(1,2)] x(4) by simp
  have okf: "idgen_ok ?f" using ok1 by (rule FreeID_ok)
  have R: "valueRange ?f = valueRange g" "minValue ?f = minValue g"
    "offset ?f = (x + 1) mod valueRange g"
    using x by (simp_all add: IDGenerator_FreeID_def idgen_take_def)
  obtain y where y: "y \<in> idgen_avail g1" using assms(3) by blast
  have yx: "y \<noteq> i" using y x(3,4) idgen_take_ok(3) [OF assms(1) x(1,2)] by auto
  have yf: "y \<in> idgen_avail ?f" using y FreeID_avail [OF ok1] by auto
  then have "0 \<le> y - minValue g" "y - minValue g < valueRange g"
    using okf R by (auto simp: idgen_avail_def idgen_universe_def idgen_ok_def)
  then obtain k where k: "k < nat (valueRange g)" "scan_offset ?f (offset ?f) k = y - minValue g"
    using scan_offset_surj [OF okf] R by metis
  have k2: "\<not> scan_used ?f (offset ?f) k" using yf k(2) R by (simp add: scan_used_def idgen_avail_def)
  let ?P = "\<lambda>k. \<not> scan_used ?f (offset ?f) k"
  obtain m where m: "?P m" "\<forall>j<m. \<not> ?P j" using exists_least_iff [of ?P] k2 by blast
  with k2 have mk: "m \<le> k" by (meson not_less)
  have "scan_offset ?f (offset ?f) m \<noteq> x"
  proof
    assume "scan_offset ?f (offset ?f) m = x"
    then have "(x + 1 + int m) mod valueRange g = x mod valueRange g"
      using R x(1,2) by (simp add: scan_offset_def mod_simps)
    then have "valueRange g dvd int (Suc m)"
      by (metis add.assoc add_diff_cancel_left' mod_eq_dvd_iff of_nat_Suc)
    then have "valueRange g \<le> int (Suc m)" by (simp add: zdvd_imp_le)
    with mk k(1) have "k = m" by linarith
    with k(2) \<open>scan_offset ?f (offset ?f) m = x\<close> yx x(3) show False by simp
  qed
  then show ?thesis
    using Allocate_finds [OF okf _ m(1)] m(2) mk k(1) R x(3) by simp
qed

lemma idgen_delayed_reuse_example:
  "\<exists>g2 j. IDGenerator_Allocate (IDGenerator_FreeID 1 (idgen_take 0 (NewGenerator 1 2))) =
    Some (Returns (g2, Inr j)) \<and> j \<noteq> 1"
proof -
  have "valid_range 1 2" by (simp add: valid_range_def MinInt64_def MaxInt64_def)
  then have ok: "idgen_ok (NewGenerator 1 2)" by (rule NewGenerator_ok)
  have a: "IDGenerator_Allocate (NewGenerator 1 2) =
      Some (Returns (idgen_take 0 (NewGenerator 1 2), Inr 1))"
    by (simp add: IDGenerator_Allocate_def allocate_loop.simps NewGenerator_def IDGenerator_init_def
        Let_def updateOffset_def go_rem_def i64_def idgen_take_def)
  have "2 \<in> idgen_avail (idgen_take 0 (NewGenerator 1 2))"
    by (simp add: idgen_avail_def idgen_universe_def idgen_take_def NewGenerator_def IDGenerator_init_def)
  then show ?thesis by (intro idgen_delayed_reuse [OF ok a]) auto
qed

lemma i64_sum: "i64 (i64 a + b) = i64 (a + b)"
proof -
  have "(((a + 2 ^ 63) mod 2 ^ 64 - 2 ^ 63) + b + 2 ^ 63) mod (2 ^ 64 :: int) =
      ((a + 2 ^ 63) mod 2 ^ 64 + b) mod 2 ^ 64" by (simp add: algebra_simps)
  also have "\<dots> = (a + b + 2 ^ 63) mod 2 ^ 64" by (simp add: mod_simps algebra_simps)
  finally show ?thesis by (simp add: i64_def)
qed

lemma i64_eq_0_iff: "i64 x = 0 \<longleftrightarrow> 2 ^ 64 dvd x"
proof -
  have "i64 x = 0 \<longleftrightarrow> (x + 2 ^ 63) mod 2 ^ 64 = 2 ^ 63 mod 2 ^ 64" by (simp add: i64_def)
  then show ?thesis by (simp only: mod_eq_dvd_iff add_diff_cancel_right')
qed

lemma valueRange_zero_iff:
  assumes "MinInt64 \<le> mn" and "mn \<le> MaxInt64" and "MinInt64 \<le> mx" and "mx \<le> MaxInt64"
  shows "valueRange (NewGenerator mn mx) = 0 \<longleftrightarrow> mx = mn - 1 \<or> mn = MinInt64 \<and> mx = MaxInt64"
proof -
  have b: "- (2 ^ 64) < mx - mn + 1" "mx - mn + 1 \<le> 2 ^ 64"
    using assms by (simp_all add: MinInt64_def MaxInt64_def)
  have "2 ^ 64 dvd y \<longleftrightarrow> y = 0 \<or> y = 2 ^ 64" if "- (2 ^ 64) < y" "y \<le> 2 ^ 64" for y :: int
    using that zdvd_imp_le [of "2 ^ 64" y] zdvd_imp_le [of "2 ^ 64" "- y"] by (cases "0 < y"; cases "y = 0") auto
  from this [OF b] show ?thesis
    using assms by (auto simp: NewGenerator_def IDGenerator_init_def i64_sum i64_eq_0_iff MinInt64_def MaxInt64_def)
qed

text \<open>
  C39. The first \<^verbatim>\<open>Allocate\<close> of a new generator, for all \<^verbatim>\<open>int64\<close> bounds: it panics with a
  division by zero exactly when the range is \<open>[mn, mn - 1]\<close> or the full \<^verbatim>\<open>int64\<close> range, for
  which the stored \<^verbatim>\<open>valueRange\<close> is zero; for all other bounds it returns \<open>mn\<close>, also when the
  range is inverted and \<open>mn\<close> lies above its maximum.
\<close>

theorem idgen_first_allocate:
  assumes "MinInt64 \<le> mn" and "mn \<le> MaxInt64" and "MinInt64 \<le> mx" and "mx \<le> MaxInt64"
  shows "if mx = mn - 1 \<or> mn = MinInt64 \<and> mx = MaxInt64
    then IDGenerator_Allocate (NewGenerator mn mx) = Some (Panics IntegerDivideByZero)
    else \<exists>g. IDGenerator_Allocate (NewGenerator mn mx) = Some (Returns (g, Inr mn))"
proof -
  note zero = valueRange_zero_iff [OF assms]
  have "IDGenerator_Allocate (NewGenerator mn mx) =
      (if valueRange (NewGenerator mn mx) = 0 then Some (Panics IntegerDivideByZero)
       else Some (exec_bind (updateOffset ((NewGenerator mn mx)\<lparr>usedMap := [0 \<mapsto> True]\<rparr>))
         (\<lambda>g. Returns (g, Inr mn))))"
    using assms(1,2)
    by (simp add: IDGenerator_Allocate_def allocate_loop.simps NewGenerator_def IDGenerator_init_def
        Let_def updateOffset_def go_rem_def)
  then show ?thesis unfolding zero by (auto simp: updateOffset_def go_rem_def simp flip: zero)
qed

theorem idgen_first_allocate_witness:
  "IDGenerator_Allocate (NewGenerator 5 4) = Some (Panics IntegerDivideByZero) \<and>
   IDGenerator_Allocate (NewGenerator MinInt64 MaxInt64) = Some (Panics IntegerDivideByZero) \<and>
   (\<exists>g. IDGenerator_Allocate (NewGenerator 10 5) = Some (Returns (g, Inr 10)))"
  using idgen_first_allocate [of 5 4] idgen_first_allocate [of MinInt64 MaxInt64] idgen_first_allocate [of 10 5]
  by (simp add: MinInt64_def MaxInt64_def)

end
