(* ===== verification/LazyReusePool.thy ===== *)
theory LazyReusePool
  imports Allocator "HOL-Library.Sublist"
begin

text \<open>
  \<^verbatim>\<open>lib/util/ippool/lazyReusePool.go\<close>: a pool of integers kept as a linked list of
  segments. The list is owned by the pool and never shared, so it is a list of segment
  records; \<^verbatim>\<open>int\<close> is 64 bits wide and every result of an addition or subtraction
  goes through \<open>i64\<close>.
\<close>

section \<open>Data\<close>

record segment =
  sfirst :: int
  slast :: int

record LazyReusePool =
  head :: "segment list"
  pfirst :: int
  plast :: int
  remain :: int

datatype relativePos =
    withinThisSegment | adjacentToTheFront | adjacentToTheBack | before | after

section \<open>Segments\<close>

definition newSingleSegment :: "int \<Rightarrow> segment" where
  "newSingleSegment num = \<lparr>sfirst = num, slast = num\<rparr>"

definition relativePosisionOf :: "segment \<Rightarrow> int \<Rightarrow> relativePos" where
  "relativePosisionOf s value =
     (if value < i64 (sfirst s - 1) then before
      else if value = i64 (sfirst s - 1) then adjacentToTheFront
      else if sfirst s \<le> value \<and> value \<le> slast s then withinThisSegment
      else if value = i64 (slast s + 1) then adjacentToTheBack
      else after)"

text \<open>
  The methods that relink a segment take the chain that follows it and return the chain
  that starts with it.
\<close>

definition segment_split :: "segment \<Rightarrow> segment list \<Rightarrow> int \<Rightarrow> segment list \<times> bool" where
  "segment_split s rest use =
     (if use < sfirst s \<or> slast s < use then (s # rest, False)
      else if use = sfirst s then (s\<lparr>sfirst := i64 (sfirst s + 1)\<rparr> # rest, True)
      else if use = slast s then (s\<lparr>slast := i64 (slast s - 1)\<rparr> # rest, True)
      else (s\<lparr>slast := i64 (use - 1)\<rparr> #
              \<lparr>sfirst = i64 (use + 1), slast = slast s\<rparr> # rest, True))"

definition extendLast :: "segment \<Rightarrow> segment list \<Rightarrow> segment list" where
  "extendLast s rest =
     (let s1 = s\<lparr>slast := i64 (slast s + 1)\<rparr> in
      case rest of
        [] \<Rightarrow> [s1]
      | n # ns \<Rightarrow> if i64 (slast s1 + 1) = sfirst n then s1\<lparr>slast := slast n\<rparr> # ns
                  else s1 # n # ns)"

section \<open>Pool operations\<close>

datatype pool_error = FirstAfterLast int int | ReserveOutOfRange int int

definition NewLazyReusePool :: "int \<Rightarrow> int \<Rightarrow> pool_error + LazyReusePool" where
  "NewLazyReusePool fst0 lst0 =
     (if lst0 < fst0 then Inl (FirstAfterLast fst0 lst0)
      else Inr \<lparr>head = [\<lparr>sfirst = fst0, slast = lst0\<rparr>], pfirst = fst0, plast = lst0,
                remain = i64 (i64 (lst0 - fst0) + 1)\<rparr>)"

definition LazyReusePool_Allocate :: "LazyReusePool \<Rightarrow> LazyReusePool \<times> int \<times> bool" where
  "LazyReusePool_Allocate p =
     (case head p of
        [] \<Rightarrow> (p, 0, False)
      | s # next \<Rightarrow>
          let res = sfirst s;
              s1 = s\<lparr>sfirst := i64 (sfirst s + 1)\<rparr>;
              hd1 = (if slast s1 < sfirst s1 then next else s1 # next)
          in (p\<lparr>head := hd1, remain := i64 (remain p - 1)\<rparr>, res, True))"

text \<open>The loop of \<^verbatim>\<open>Use\<close>: the chain after the value was taken out, if a segment holds it.\<close>

fun use_segments :: "int \<Rightarrow> segment list \<Rightarrow> segment list option" where
  "use_segments value [] = None"
| "use_segments value (cur # next) =
     (case relativePosisionOf cur value of
        withinThisSegment \<Rightarrow>
          Some (if sfirst cur = slast cur then next else fst (segment_split cur next value))
      | _ \<Rightarrow> map_option (Cons cur) (use_segments value next))"

definition LazyReusePool_Use :: "int \<Rightarrow> LazyReusePool \<Rightarrow> LazyReusePool \<times> bool" where
  "LazyReusePool_Use value p =
     (case use_segments value (head p) of
        None \<Rightarrow> (p, False)
      | Some segs \<Rightarrow> (p\<lparr>head := segs, remain := i64 (remain p - 1)\<rparr>, True))"

text \<open>
  The loop of \<^verbatim>\<open>Free\<close> over the segments behind the head; \<open>None\<close> is the duplicated
  free. Running off the end of the list reaches the \<^verbatim>\<open>success\<close> label with the list as it is.
\<close>

fun free_segments :: "int \<Rightarrow> segment list \<Rightarrow> segment list option" where
  "free_segments value [] = Some []"
| "free_segments value (cur # next) =
     (case relativePosisionOf cur value of
        before \<Rightarrow> Some (newSingleSegment value # cur # next)
      | adjacentToTheFront \<Rightarrow> Some (cur\<lparr>sfirst := value\<rparr> # next)
      | withinThisSegment \<Rightarrow> None
      | adjacentToTheBack \<Rightarrow> Some (extendLast cur next)
      | after \<Rightarrow> if next = [] then Some [cur, newSingleSegment value]
                 else map_option (Cons cur) (free_segments value next))"

definition LazyReusePool_Free :: "int \<Rightarrow> LazyReusePool \<Rightarrow> LazyReusePool \<times> bool" where
  "LazyReusePool_Free value p =
     (if value < pfirst p \<or> plast p < value then (p, False)
      else case head p of
        [] \<Rightarrow> (p\<lparr>head := [newSingleSegment value], remain := i64 (remain p + 1)\<rparr>, True)
      | h # next \<Rightarrow>
          (case relativePosisionOf h value of
             withinThisSegment \<Rightarrow> (p, False)
           | adjacentToTheBack \<Rightarrow>
               (p\<lparr>head := extendLast h next, remain := i64 (remain p + 1)\<rparr>, True)
           | _ \<Rightarrow>
               if next = []
               then (p\<lparr>head := [h, newSingleSegment value], remain := i64 (remain p + 1)\<rparr>, True)
               else case free_segments value next of
                 None \<Rightarrow> (p, False)
               | Some segs \<Rightarrow> (p\<lparr>head := h # segs, remain := i64 (remain p + 1)\<rparr>, True)))"

definition Contains :: "LazyReusePool \<Rightarrow> int \<Rightarrow> int \<Rightarrow> bool" where
  "Contains p f l \<longleftrightarrow> f \<le> l \<and> pfirst p \<le> f \<and> l \<le> plast p"

text \<open>
  The loop of \<^verbatim>\<open>Reserve\<close> with the \<^verbatim>\<open>remain\<close> counter. \<open>f \<le> l\<close> is what
  \<^verbatim>\<open>Contains\<close> has checked before the loop and what makes the loop end: a segment that
  is cut in two is visited again at its second half. There \<open>l + 1 \<le> slast cur\<close>, so the
  addition is exact.
\<close>

function reserve_segments :: "int \<Rightarrow> int \<Rightarrow> segment list \<Rightarrow> int \<Rightarrow> segment list \<times> int" where
  "reserve_segments f l [] rem = ([], rem)"
| "reserve_segments f l (cur # next) rem =
     (if l < f then (cur # next, rem)
      else if f \<le> sfirst cur \<and> sfirst cur \<le> l \<and> l < slast cur then
        (let (segs, rem') = reserve_segments f l next (i64 (rem - i64 (i64 (l - sfirst cur) + 1)))
         in (cur\<lparr>sfirst := l + 1\<rparr> # segs, rem'))
      else if sfirst cur < f \<and> f \<le> slast cur \<and> slast cur \<le> l then
        (let (segs, rem') = reserve_segments f l next (i64 (rem - i64 (i64 (slast cur - f) + 1)))
         in (cur\<lparr>slast := i64 (f - 1)\<rparr> # segs, rem'))
      else if sfirst cur < f \<and> l < slast cur then
        (let (segs, rem') = reserve_segments f l (\<lparr>sfirst = l + 1, slast = slast cur\<rparr> # next)
                              (i64 (rem - i64 (i64 (l - f) + 1)))
         in (cur\<lparr>slast := i64 (f - 1)\<rparr> # segs, rem'))
      else if f \<le> sfirst cur \<and> slast cur \<le> l then
        reserve_segments f l next (i64 (rem - i64 (i64 (slast cur - sfirst cur) + 1)))
      else
        (let (segs, rem') = reserve_segments f l next rem in (cur # segs, rem')))"
  by pat_completeness auto
termination
  by (relation "measure (\<lambda>(f, l, segs, rem).
        length segs + length (filter (\<lambda>s. sfirst s < f \<and> l < slast s) segs))") auto

definition LazyReusePool_Reserve :: "int \<Rightarrow> int \<Rightarrow> LazyReusePool \<Rightarrow> pool_error + LazyReusePool" where
  "LazyReusePool_Reserve f l p =
     (if \<not> Contains p f l then Inl (ReserveOutOfRange (pfirst p) (plast p))
      else let (segs, rem) = reserve_segments f l (head p) (remain p)
           in Inr (p\<lparr>head := segs, remain := rem\<rparr>))"

definition LazyReusePool_Min :: "LazyReusePool \<Rightarrow> int" where
  "LazyReusePool_Min p = pfirst p"

definition LazyReusePool_Max :: "LazyReusePool \<Rightarrow> int" where
  "LazyReusePool_Max p = plast p"

definition LazyReusePool_Remain :: "LazyReusePool \<Rightarrow> int" where
  "LazyReusePool_Remain p = remain p"

definition LazyReusePool_Total :: "LazyReusePool \<Rightarrow> int" where
  "LazyReusePool_Total p = i64 (i64 (plast p - pfirst p) + 1)"

definition IsJoint :: "LazyReusePool \<Rightarrow> LazyReusePool \<Rightarrow> bool" where
  "IsJoint p1 p2 = (\<not> (plast p2 < pfirst p1 \<or> plast p1 < pfirst p2))"

fun dump_segments :: "segment list \<Rightarrow> int list list" where
  "dump_segments [] = []"
| "dump_segments (s # next) = [sfirst s, slast s] # dump_segments next"

definition LazyReusePool_Dump :: "LazyReusePool \<Rightarrow> int list list" where
  "LazyReusePool_Dump p = dump_segments (head p)"

section \<open>Abstraction and invariant\<close>

text \<open>
  The values of a chain of segments in the order in which \<^verbatim>\<open>Allocate\<close> hands them out.
  Every operation is characterised by what it does to this list.
\<close>

definition seg_list :: "segment \<Rightarrow> int list" where
  "seg_list s = [sfirst s..slast s]"

definition segs_list :: "segment list \<Rightarrow> int list" where
  "segs_list ss = concat (map seg_list ss)"

definition pool_order :: "LazyReusePool \<Rightarrow> int list" where
  "pool_order p = segs_list (head p)"

definition pool_avail :: "LazyReusePool \<Rightarrow> int set" where
  "pool_avail p = set (pool_order p)"

definition pool_universe :: "LazyReusePool \<Rightarrow> int set" where
  "pool_universe p = {pfirst p..plast p}"

text \<open>A segment inside the bounds, which keep one value free at each end of \<^verbatim>\<open>int\<close>.\<close>

definition seg_ok :: "int \<Rightarrow> int \<Rightarrow> segment \<Rightarrow> bool" where
  "seg_ok lo hi s \<longleftrightarrow> MinInt64 < lo \<and> hi < MaxInt64 \<and> lo \<le> sfirst s \<and> sfirst s \<le> slast s \<and> slast s \<le> hi"

definition bounds_ok :: "int \<Rightarrow> int \<Rightarrow> bool" where
  "bounds_ok lo hi \<longleftrightarrow> MinInt64 < lo \<and> lo \<le> hi \<and> hi < MaxInt64 \<and> hi - lo + 1 \<le> MaxInt64"

definition lrp_ok :: "LazyReusePool \<Rightarrow> bool" where
  "lrp_ok p \<longleftrightarrow> bounds_ok (pfirst p) (plast p) \<and>
     (\<forall>s\<in>set (head p). seg_ok (pfirst p) (plast p) s) \<and>
     distinct (pool_order p) \<and> remain p = int (length (pool_order p))"

lemma segs_list_simps [simp]:
  "segs_list [] = []"
  "segs_list (s # ss) = seg_list s @ segs_list ss"
  by (simp_all add: segs_list_def)

lemma set_seg_list [simp]: "set (seg_list s) = {sfirst s..slast s}"
  by (simp add: seg_list_def)

lemma seg_list_newSingleSegment [simp]: "seg_list (newSingleSegment v) = [v]"
  by (simp add: seg_list_def newSingleSegment_def)

lemma i64_seg [simp]:
  assumes "seg_ok lo hi s"
  shows "i64 (sfirst s + 1) = sfirst s + 1" "i64 (sfirst s - 1) = sfirst s - 1"
    "i64 (slast s + 1) = slast s + 1" "i64 (slast s - 1) = slast s - 1"
  using assms by (auto simp: seg_ok_def)

lemma i64_in_seg [simp]:
  assumes "seg_ok lo hi s" and "sfirst s \<le> v" and "v \<le> slast s"
  shows "i64 (v + 1) = v + 1" "i64 (v - 1) = v - 1"
  using assms by (auto simp: seg_ok_def)

lemma relativePosisionOf_cases:
  assumes "seg_ok lo hi s"
  shows "relativePosisionOf s v = before \<longleftrightarrow> v < sfirst s - 1"
    "relativePosisionOf s v = adjacentToTheFront \<longleftrightarrow> v = sfirst s - 1"
    "relativePosisionOf s v = withinThisSegment \<longleftrightarrow> v \<in> set (seg_list s)"
    "relativePosisionOf s v = adjacentToTheBack \<longleftrightarrow> v = slast s + 1"
    "relativePosisionOf s v = after \<longleftrightarrow> slast s + 1 < v"
  using assms by (auto simp: relativePosisionOf_def seg_ok_def)

section \<open>Allocate\<close>

lemma seg_list_Cons:
  "seg_ok lo hi s \<Longrightarrow> seg_list s = sfirst s # [sfirst s + 1..slast s]"
  by (simp add: seg_list_def seg_ok_def upto_rec1)

lemma Allocate_empty:
  "head p = [] \<Longrightarrow> LazyReusePool_Allocate p = (p, 0, False)"
  by (simp add: LazyReusePool_Allocate_def)

lemma lrp_ok_head:
  assumes "lrp_ok p" and "pool_order p = []"
  shows "head p = []"
  using assms by (cases "head p") (auto simp: lrp_ok_def pool_order_def seg_list_Cons)

lemma pool_avail_universe: "lrp_ok p \<Longrightarrow> pool_avail p \<subseteq> pool_universe p"
  by (auto simp: lrp_ok_def pool_avail_def pool_universe_def pool_order_def segs_list_def seg_ok_def)

lemma remain_card: "lrp_ok p \<Longrightarrow> remain p = int (card (pool_avail p))"
  by (simp add: lrp_ok_def pool_avail_def distinct_card)

lemma card_pool_universe:
  "lrp_ok p \<Longrightarrow> int (card (pool_universe p)) = plast p - pfirst p + 1"
  by (simp add: lrp_ok_def bounds_ok_def pool_universe_def)

lemma remain_bounds:
  assumes "lrp_ok p" shows "0 \<le> remain p" "remain p \<le> plast p - pfirst p + 1"
proof -
  have "card (pool_avail p) \<le> card (pool_universe p)"
    using pool_avail_universe [OF assms] by (intro card_mono) (auto simp: pool_universe_def)
  with remain_card [OF assms] card_pool_universe [OF assms]
  show "remain p \<le> plast p - pfirst p + 1" by linarith
  show "0 \<le> remain p" using assms by (simp add: lrp_ok_def)
qed

lemma i64_remain [simp]:
  assumes "lrp_ok p" and "0 \<le> k" and "k \<le> remain p"
  shows "i64 (remain p - k) = remain p - k"
proof -
  have "MinInt64 \<le> 0" by (simp add: MinInt64_def)
  with assms remain_bounds [OF assms(1)] show ?thesis by (auto simp: lrp_ok_def bounds_ok_def)
qed

text \<open>A pool in which some segments changed is well formed if its values are distinct and counted.\<close>

lemma lrp_ok_update:
  assumes "lrp_ok p" and "\<forall>s\<in>set segs. seg_ok (pfirst p) (plast p) s"
    and "distinct (segs_list segs)" and "r = int (length (segs_list segs))"
  shows "lrp_ok (p\<lparr>head := segs, remain := r\<rparr>)"
  using assms by (simp add: lrp_ok_def pool_order_def)

lemma Allocate_Cons:
  assumes "lrp_ok p" and "pool_order p = v # vs"
  obtains p' where "LazyReusePool_Allocate p = (p', v, True)" "lrp_ok p'" "pool_order p' = vs"
    "pfirst p' = pfirst p" "plast p' = plast p"
proof -
  obtain s ss where h: "head p = s # ss" using assms by (cases "head p") (auto simp: pool_order_def)
  with assms have s: "seg_ok (pfirst p) (plast p) s" by (simp add: lrp_ok_def)
  with h assms(2) have v: "v = sfirst s" "vs = [sfirst s + 1..slast s] @ segs_list ss"
    by (auto simp: pool_order_def seg_list_Cons)
  let ?s1 = "s\<lparr>sfirst := sfirst s + 1\<rparr>"
  define h1 where "h1 = (if slast s < sfirst s + 1 then ss else ?s1 # ss)"
  let ?p' = "p\<lparr>head := h1, remain := remain p - 1\<rparr>"
  have h1: "segs_list h1 = vs" using v by (auto simp: seg_list_def h1_def)
  have r: "remain p = int (length vs) + 1" "distinct vs" using assms by (simp_all add: lrp_ok_def)
  have "\<forall>x\<in>set h1. seg_ok (pfirst p) (plast p) x"
    using assms(1) h s by (auto simp: lrp_ok_def seg_ok_def h1_def)
  from lrp_ok_update [OF assms(1) this, of "remain p - 1"] h1 r have "lrp_ok ?p'" by simp
  moreover have "i64 (remain p - 1) = remain p - 1"
    using assms(1) r(1) by (intro i64_remain) auto
  then have "LazyReusePool_Allocate p = (?p', v, True)"
    using h s v(1) by (simp add: LazyReusePool_Allocate_def h1_def)
  ultimately show ?thesis using that [of ?p'] h1 by (simp add: pool_order_def)
qed

section \<open>Use\<close>

lemma filter_neq_upto:
  assumes "a \<le> v" "v \<le> b"
  shows "filter (\<lambda>x. x \<noteq> v) [a..b] = [a..v - 1] @ [v + 1..b]"
proof -
  have "[a..b] = [a..v - 1] @ v # [v + 1..b]" using upto_split3 assms by blast
  then show ?thesis by (simp add: filter_id_conv)
qed

lemma segment_split_spec:
  assumes "seg_ok lo hi s" and "v \<in> set (seg_list s)" and "sfirst s \<noteq> slast s"
  shows "segs_list (fst (segment_split s rest v)) = filter (\<lambda>x. x \<noteq> v) (seg_list s) @ segs_list rest"
    and "\<forall>x\<in>set (fst (segment_split s rest v)). seg_ok lo hi x \<or> x \<in> set rest"
    and "snd (segment_split s rest v)"
proof -
  have v: "sfirst s \<le> v" "v \<le> slast s" using assms(2) by auto
  show "segs_list (fst (segment_split s rest v)) = filter (\<lambda>x. x \<noteq> v) (seg_list s) @ segs_list rest"
    using assms v by (auto simp: segment_split_def seg_list_def filter_neq_upto)
  show "\<forall>x\<in>set (fst (segment_split s rest v)). seg_ok lo hi x \<or> x \<in> set rest"
    using assms v by (auto simp: segment_split_def seg_ok_def)
  show "snd (segment_split s rest v)" using v by (simp add: segment_split_def)
qed

lemma use_segments_spec:
  assumes "\<forall>s\<in>set ss. seg_ok lo hi s" and "distinct (segs_list ss)"
  shows "(v \<in> set (segs_list ss) \<and> (\<exists>ss'. use_segments v ss = Some ss' \<and>
      segs_list ss' = filter (\<lambda>x. x \<noteq> v) (segs_list ss) \<and> (\<forall>s\<in>set ss'. seg_ok lo hi s))) \<or>
    (v \<notin> set (segs_list ss) \<and> use_segments v ss = None)"
  using assms
proof (induction ss)
  case Nil
  then show ?case by simp
next
  case (Cons s ss)
  then have s: "seg_ok lo hi s" by simp
  show ?case
  proof (cases "v \<in> set (seg_list s)")
    case True
    with Cons.prems(2) have "v \<notin> set (segs_list ss)" by auto
    then have tl: "filter (\<lambda>x. x \<noteq> v) (segs_list ss) = segs_list ss" by (auto simp: filter_id_conv)
    have w: "relativePosisionOf s v = withinThisSegment"
      using True relativePosisionOf_cases [OF s] by simp
    show ?thesis
    proof (cases "sfirst s = slast s")
      case True2: True
      then have "seg_list s = [v]" using True by (simp add: seg_list_def)
      with True2 w tl Cons.prems show ?thesis by simp
    next
      case False
      note sp = segment_split_spec [OF s True False, of ss]
      with w tl Cons.prems False True show ?thesis by auto
    qed
  next
    case False
    then have "relativePosisionOf s v \<noteq> withinThisSegment"
      using relativePosisionOf_cases [OF s] by simp
    then have u: "use_segments v (s # ss) = map_option (Cons s) (use_segments v ss)"
      by (cases "relativePosisionOf s v") auto
    have "filter (\<lambda>x. x \<noteq> v) (seg_list s) = seg_list s" using False by (auto simp: filter_id_conv)
    with Cons False s u show ?thesis by auto
  qed
qed

lemma length_filter_neq:
  assumes "distinct xs" and "v \<in> set xs"
  shows "int (length (filter (\<lambda>x. x \<noteq> v) xs)) = int (length xs) - 1"
proof -
  have "filter (\<lambda>x. x \<noteq> v) xs = remove1 v xs"
    using assms(1) by (simp add: distinct_remove1_removeAll removeAll_filter_not_eq eq_commute)
  moreover have "0 < length xs" using assms(2) by (rule length_pos_if_in_set)
  ultimately show ?thesis using assms(2) by (simp add: length_remove1 of_nat_diff Suc_leI)
qed

lemma Use_spec:
  assumes "lrp_ok p"
  obtains p' where "LazyReusePool_Use v p = (p', v \<in> pool_avail p)" "lrp_ok p'"
    "pool_order p' = filter (\<lambda>x. x \<noteq> v) (pool_order p)" "pfirst p' = pfirst p" "plast p' = plast p"
proof -
  from assms have segs: "\<forall>s\<in>set (head p). seg_ok (pfirst p) (plast p) s"
    and dist: "distinct (segs_list (head p))" by (simp_all add: lrp_ok_def pool_order_def)
  show ?thesis
  proof (cases "v \<in> set (segs_list (head p))")
    case True
    then obtain ss' where ss': "use_segments v (head p) = Some ss'"
      "segs_list ss' = filter (\<lambda>x. x \<noteq> v) (segs_list (head p))"
      "\<forall>s\<in>set ss'. seg_ok (pfirst p) (plast p) s"
      using use_segments_spec [OF segs dist, of v] by auto
    let ?p' = "p\<lparr>head := ss', remain := remain p - 1\<rparr>"
    have "pool_order p \<noteq> []" using True by (auto simp: pool_order_def)
    then have "1 \<le> remain p" using assms by (cases "pool_order p") (auto simp: lrp_ok_def)
    then have u: "LazyReusePool_Use v p = (?p', True)"
      using ss'(1) assms by (simp add: LazyReusePool_Use_def)
    have "remain p - 1 = int (length (segs_list ss'))"
      using assms length_filter_neq [OF dist True] ss'(2) by (simp add: lrp_ok_def pool_order_def)
    then have "lrp_ok ?p'" using lrp_ok_update [OF assms ss'(3)] ss'(2) dist by simp
    with u that [of ?p'] ss'(2) True show ?thesis by (simp add: pool_order_def pool_avail_def)
  next
    case False
    then have "LazyReusePool_Use v p = (p, False)"
      using use_segments_spec [OF segs dist, of v] by (simp add: LazyReusePool_Use_def)
    moreover have "filter (\<lambda>x. x \<noteq> v) (pool_order p) = pool_order p"
      using False by (auto simp: pool_order_def filter_id_conv)
    ultimately show ?thesis
      using that [of p] assms False by (simp add: pool_avail_def pool_order_def)
  qed
qed

section \<open>Free\<close>

text \<open>One value more, somewhere in the order.\<close>

definition inserted :: "'a \<Rightarrow> 'a list \<Rightarrow> 'a list \<Rightarrow> bool" where
  "inserted v xs ys \<longleftrightarrow> (\<exists>as bs. xs = as @ bs \<and> ys = as @ v # bs)"

lemma insert_behind:
  assumes "A \<inter> X = {}" and "A \<inter> R = {}" and "v \<notin> A" and "A \<union> X = insert v (A \<union> R)"
  shows "X = insert v R"
  using assms by blast

lemma insertedI: "xs = as @ bs \<Longrightarrow> ys = as @ v # bs \<Longrightarrow> inserted v xs ys"
  by (auto simp: inserted_def)

lemma inserted_append: "inserted v xs ys \<Longrightarrow> inserted v (zs @ xs) (zs @ ys)"
  unfolding inserted_def by (metis append.assoc)

lemma inserted_facts:
  assumes "inserted v xs ys"
  shows "set ys = insert v (set xs)" "length ys = Suc (length xs)"
    "distinct ys \<longleftrightarrow> v \<notin> set xs \<and> distinct xs"
  using assms by (auto simp: inserted_def)

lemma extendLast_spec:
  assumes s: "seg_ok lo hi s" and "\<forall>x\<in>set rest. seg_ok lo hi x" and v: "slast s + 1 \<le> hi"
  shows "segs_list (extendLast s rest) = seg_list s @ (slast s + 1) # segs_list rest"
    and "\<forall>x\<in>set (extendLast s rest). seg_ok lo hi x"
proof -
  have e: "[sfirst s..slast s + 1] = seg_list s @ [slast s + 1]"
    using s by (simp add: seg_list_def seg_ok_def upto_rec2)
  have i: "i64 (slast s + 1) = slast s + 1" "i64 (slast s + 1 + 1) = slast s + 2"
    using s v by (auto simp: seg_ok_def)
  show "segs_list (extendLast s rest) = seg_list s @ (slast s + 1) # segs_list rest"
  proof (cases rest)
    case (Cons n ns)
    with assms have n: "seg_ok lo hi n" by simp
    show ?thesis
    proof (cases "slast s + 2 = sfirst n")
      case True
      then have "slast s + 1 + 1 = sfirst n" by simp
      then have "[sfirst s..slast n] = [sfirst s..slast s + 1] @ seg_list n"
        using s n upto_split2 [of "sfirst s" "slast s + 1" "slast n"]
        by (simp only: seg_ok_def seg_list_def) simp
      with Cons True e i show ?thesis by (simp add: extendLast_def seg_list_def)
    next
      case False
      with Cons e i show ?thesis by (simp add: extendLast_def seg_list_def)
    qed
  qed (use e i in \<open>simp add: extendLast_def seg_list_def\<close>)
  show "\<forall>x\<in>set (extendLast s rest). seg_ok lo hi x"
    using assms i by (cases rest) (auto simp: extendLast_def seg_ok_def Let_def)
qed

lemma free_segments_spec:
  assumes "\<forall>s\<in>set ss. seg_ok lo hi s" and "v \<notin> set (segs_list ss)" and "lo \<le> v" and "v \<le> hi"
    and "ss \<noteq> []"
  shows "\<exists>ss'. free_segments v ss = Some ss' \<and> inserted v (segs_list ss) (segs_list ss') \<and>
    (\<forall>s\<in>set ss'. seg_ok lo hi s)"
  using assms
proof (induction ss)
  case Nil
  then show ?case by simp
next
  case (Cons s ss)
  then have s: "seg_ok lo hi s" by simp
  note pos = relativePosisionOf_cases [OF s]
  have nv: "seg_ok lo hi (newSingleSegment v)"
    using s Cons.prems(3,4) by (simp add: seg_ok_def newSingleSegment_def)
  consider (lt) "v < sfirst s - 1" | (front) "v = sfirst s - 1" | (rear) "v = slast s + 1"
    | (gt) "slast s + 1 < v"
    using Cons.prems(2) by fastforce
  then show ?case
  proof cases
    case lt
    with pos have "relativePosisionOf s v = before" by simp
    then have "free_segments v (s # ss) = Some (newSingleSegment v # s # ss)" by simp
    moreover have "inserted v (segs_list (s # ss)) (segs_list (newSingleSegment v # s # ss))"
      by (rule insertedI [where as = "[]"]) simp_all
    ultimately show ?thesis using Cons.prems(1) nv by simp
  next
    case front
    with pos have "relativePosisionOf s v = adjacentToTheFront" by simp
    then have "free_segments v (s # ss) = Some (s\<lparr>sfirst := v\<rparr> # ss)" by simp
    moreover have "seg_list (s\<lparr>sfirst := v\<rparr>) = v # seg_list s"
      using s front by (simp add: seg_list_def seg_ok_def upto_rec1)
    then have "inserted v (segs_list (s # ss)) (segs_list (s\<lparr>sfirst := v\<rparr> # ss))"
      by (intro insertedI [where as = "[]"]) simp_all
    moreover have "seg_ok lo hi (s\<lparr>sfirst := v\<rparr>)"
      using s front Cons.prems(3) by (simp add: seg_ok_def)
    ultimately show ?thesis using Cons.prems(1) by simp
  next
    case rear
    with pos have "relativePosisionOf s v = adjacentToTheBack" by simp
    then have "free_segments v (s # ss) = Some (extendLast s ss)" by simp
    moreover have "inserted v (segs_list (s # ss)) (segs_list (extendLast s ss))"
      using extendLast_spec [OF s] Cons.prems rear by (intro insertedI [where as = "seg_list s"]) simp_all
    moreover have "\<forall>x\<in>set (extendLast s ss). seg_ok lo hi x"
      using extendLast_spec(2) [OF s, of ss] Cons.prems rear by simp
    ultimately show ?thesis by blast
  next
    case gt
    with pos have pos_gt: "relativePosisionOf s v = after" by simp
    show ?thesis
    proof (cases "ss = []")
      case True
      with pos_gt have "free_segments v (s # ss) = Some [s, newSingleSegment v]" by simp
      moreover have "inserted v (segs_list (s # ss)) (segs_list [s, newSingleSegment v])"
        using True by (intro insertedI [where as = "seg_list s"]) simp_all
      ultimately show ?thesis using s nv by simp
    next
      case False
      with Cons obtain ss' where "free_segments v ss = Some ss'" "inserted v (segs_list ss) (segs_list ss')"
        "\<forall>s\<in>set ss'. seg_ok lo hi s" by auto
      with pos_gt False s show ?thesis by (auto intro: inserted_append)
    qed
  qed
qed

text \<open>
  \<^verbatim>\<open>Free\<close> of a value that is handed out: it succeeds and puts the value behind the values
  of the head segment.
\<close>

lemma Free_spec:
  assumes ok: "lrp_ok p" and v: "v \<in> pool_universe p" "v \<notin> pool_avail p"
  obtains p' where "LazyReusePool_Free v p = (p', True)" "lrp_ok p'"
    "inserted v (pool_order p) (pool_order p')" "pfirst p' = pfirst p" "plast p' = plast p"
    "head p \<noteq> [] \<longrightarrow> prefix (seg_list (hd (head p))) (pool_order p')"
proof -
  note result = that
  have range: "pfirst p \<le> v" "v \<le> plast p" using v(1) by (simp_all add: pool_universe_def)
  have notin: "v \<notin> set (segs_list (head p))" using v(2) by (simp add: pool_avail_def pool_order_def)
  have segs: "\<forall>s\<in>set (head p). seg_ok (pfirst p) (plast p) s" using ok by (simp add: lrp_ok_def)
  have nv: "seg_ok (pfirst p) (plast p) (newSingleSegment v)"
    using ok range by (simp add: lrp_ok_def bounds_ok_def seg_ok_def newSingleSegment_def)
  have "card (pool_avail p) < card (pool_universe p)"
    using v pool_avail_universe [OF ok] by (intro psubset_card_mono) (auto simp: pool_universe_def)
  with remain_card [OF ok] card_pool_universe [OF ok] have "remain p + 1 \<le> plast p - pfirst p + 1"
    by linarith
  moreover have "MinInt64 \<le> 0" by (simp add: MinInt64_def)
  ultimately have rem: "i64 (remain p + 1) = remain p + 1"
    using ok remain_bounds [OF ok] by (simp add: lrp_ok_def bounds_ok_def)
  have fin: thesis
    if "LazyReusePool_Free v p = (p\<lparr>head := segs, remain := remain p + 1\<rparr>, True)"
      "inserted v (segs_list (head p)) (segs_list segs)" "\<forall>s\<in>set segs. seg_ok (pfirst p) (plast p) s"
      "head p \<noteq> [] \<longrightarrow> prefix (seg_list (hd (head p))) (segs_list segs)" for segs
  proof -
    let ?p' = "p\<lparr>head := segs, remain := remain p + 1\<rparr>"
    have "lrp_ok ?p'"
      using lrp_ok_update [OF ok that(3)] inserted_facts [OF that(2)] notin ok
      by (simp add: lrp_ok_def pool_order_def)
    then show thesis using result [of ?p'] that by (simp add: pool_order_def)
  qed
  show thesis
  proof (cases "head p")
    case Nil
    then show ?thesis using range rem nv
      by (intro fin [of "[newSingleSegment v]"]) (auto simp: LazyReusePool_Free_def inserted_def)
  next
    case (Cons h ss)
    then have h: "seg_ok (pfirst p) (plast p) h" and hv: "v \<notin> set (seg_list h)"
      using segs notin by auto
    note pos = relativePosisionOf_cases [OF h]
    show ?thesis
    proof (cases "v = slast h + 1")
      case True
      with pos have "relativePosisionOf h v = adjacentToTheBack" by simp
      then have "LazyReusePool_Free v p = (p\<lparr>head := extendLast h ss, remain := remain p + 1\<rparr>, True)"
        using Cons range rem by (simp add: LazyReusePool_Free_def)
      with extendLast_spec [OF h, of ss] segs Cons True range show ?thesis
        by (intro fin [of "extendLast h ss"]) (auto simp: inserted_def)
    next
      case False
      with hv pos have "relativePosisionOf h v \<noteq> withinThisSegment" "relativePosisionOf h v \<noteq> adjacentToTheBack"
        by simp_all
      then have tail: "LazyReusePool_Free v p = (if ss = []
          then (p\<lparr>head := [h, newSingleSegment v], remain := remain p + 1\<rparr>, True)
          else case free_segments v ss of None \<Rightarrow> (p, False)
            | Some segs \<Rightarrow> (p\<lparr>head := h # segs, remain := remain p + 1\<rparr>, True))"
        using Cons range rem
        by (cases "relativePosisionOf h v") (auto simp: LazyReusePool_Free_def split: option.split)
      show ?thesis
      proof (cases "ss = []")
        case True
        with tail Cons h nv show ?thesis
          by (intro fin [of "[h, newSingleSegment v]"]) (auto simp: inserted_def)
      next
        case False
        then obtain ss' where "free_segments v ss = Some ss'" "inserted v (segs_list ss) (segs_list ss')"
          "\<forall>s\<in>set ss'. seg_ok (pfirst p) (plast p) s"
          using free_segments_spec [of ss "pfirst p" "plast p" v] segs Cons notin range by auto
        with tail Cons False h show ?thesis
          by (intro fin [of "h # ss'"]) (auto intro: inserted_append)
      qed
    qed
  qed
qed

section \<open>Reserve\<close>

text \<open>The values outside \<open>[f, l]\<close>, for each way a segment can meet the reserved range.\<close>

abbreviation outside :: "int \<Rightarrow> int \<Rightarrow> int \<Rightarrow> bool" where
  "outside f l x \<equiv> \<not> (f \<le> x \<and> x \<le> l)"

lemma filter_outside_upto:
  assumes "f \<le> l" and "a \<le> b"
  shows "f \<le> a \<Longrightarrow> a \<le> l \<Longrightarrow> l < b \<Longrightarrow> filter (outside f l) [a..b] = [l + 1..b]"
    and "a < f \<Longrightarrow> f \<le> b \<Longrightarrow> b \<le> l \<Longrightarrow> filter (outside f l) [a..b] = [a..f - 1]"
    and "a < f \<Longrightarrow> l < b \<Longrightarrow> filter (outside f l) [a..b] = [a..f - 1] @ [l + 1..b]"
    and "f \<le> a \<Longrightarrow> b \<le> l \<Longrightarrow> filter (outside f l) [a..b] = []"
    and "b < f \<or> l < a \<Longrightarrow> filter (outside f l) [a..b] = [a..b]"
proof -
  show "filter (outside f l) [a..b] = [l + 1..b]" if "f \<le> a" "a \<le> l" "l < b"
    using that upto_split2 [of a l b] by (auto simp: filter_empty_conv filter_id_conv)
  show "filter (outside f l) [a..b] = [a..f - 1]" if "a < f" "f \<le> b" "b \<le> l"
    using that upto_split1 [of a f b] by (auto simp: filter_empty_conv filter_id_conv)
  show "filter (outside f l) [a..b] = [a..f - 1] @ [l + 1..b]" if "a < f" "l < b"
    using that assms upto_split1 [of a f b] upto_split2 [of f l b]
    by (auto simp: filter_empty_conv filter_id_conv)
qed (auto simp: filter_empty_conv filter_id_conv)

text \<open>
  One visit of the loop: \<open>pre\<close> is what is left of the segment in front of the rest of the
  loop, and \<open>r\<close> is the counter the rest of the loop starts with.
\<close>

definition visited ::
    "int \<Rightarrow> int \<Rightarrow> int \<Rightarrow> int \<Rightarrow> segment \<Rightarrow> segment list \<Rightarrow> int \<Rightarrow> segment list \<Rightarrow> int \<Rightarrow> bool" where
  "visited f l lo hi cur ss rem pre r \<longleftrightarrow>
     reserve_segments f l (cur # ss) rem =
       (pre @ fst (reserve_segments f l ss r), snd (reserve_segments f l ss r)) \<and>
     (\<forall>s\<in>set pre. seg_ok lo hi s) \<and> segs_list pre = filter (outside f l) (seg_list cur) \<and>
     r = rem - int (length (seg_list cur)) + int (length (segs_list pre))"

declare reserve_segments.simps [simp del]

lemma i64_count:
  assumes "0 \<le> d" and "d + 1 \<le> rem" and "rem \<le> MaxInt64"
  shows "i64 (rem - i64 (i64 d + 1)) = rem - (d + 1)"
proof -
  have "MinInt64 \<le> 0" by (simp add: MinInt64_def)
  with assms show ?thesis by simp
qed

lemma visited_untouched:
  assumes "seg_ok lo hi cur" and "f \<le> l" and "slast cur < f \<or> l < sfirst cur"
  shows "visited f l lo hi cur ss rem [cur] rem"
  using assms filter_outside_upto(5) [of f l "sfirst cur" "slast cur"]
  by (auto simp: visited_def reserve_segments.simps split_beta seg_list_def seg_ok_def)

lemma visited_split:
  assumes cur: "seg_ok lo hi cur" and fl: "f \<le> l" "lo \<le> f" "l \<le> hi"
    and C: "sfirst cur < f" "l < slast cur"
    and rem: "int (length (seg_list cur)) \<le> rem" "rem \<le> MaxInt64"
  shows "visited f l lo hi cur ss rem
    [cur\<lparr>slast := f - 1\<rparr>, \<lparr>sfirst = l + 1, slast = slast cur\<rparr>] (rem - (l - f + 1))"
proof -
  let ?n = "\<lparr>sfirst = l + 1, slast = slast cur\<rparr>"
  have len: "int (length (seg_list cur)) = slast cur - sfirst cur + 1"
    using cur by (simp add: seg_list_def seg_ok_def)
  have i: "i64 (rem - i64 (i64 (l - f) + 1)) = rem - (l - f + 1)" "i64 (f - 1) = f - 1"
    using i64_count [of "l - f" rem] rem C fl cur len by (auto simp: seg_ok_def)
  have "seg_ok lo hi ?n" using cur C fl by (simp add: seg_ok_def)
  then have "visited f l lo hi ?n ss r [?n] r" for r
    using fl by (intro visited_untouched) auto
  then show ?thesis
    using filter_outside_upto(3) [OF fl(1), of "sfirst cur" "slast cur"] cur fl C i len
    by (auto simp: visited_def reserve_segments.simps(2) [of f l cur] split_beta seg_ok_def seg_list_def)
qed

lemma visited_cut:
  assumes cur: "seg_ok lo hi cur" and fl: "f \<le> l" "lo \<le> f" "l \<le> hi"
    and rem: "int (length (seg_list cur)) \<le> rem" "rem \<le> MaxInt64"
  shows "f \<le> sfirst cur \<Longrightarrow> sfirst cur \<le> l \<Longrightarrow> l < slast cur \<Longrightarrow>
      visited f l lo hi cur ss rem [cur\<lparr>sfirst := l + 1\<rparr>] (rem - (l - sfirst cur + 1))"
    and "sfirst cur < f \<Longrightarrow> f \<le> slast cur \<Longrightarrow> slast cur \<le> l \<Longrightarrow>
      visited f l lo hi cur ss rem [cur\<lparr>slast := f - 1\<rparr>] (rem - (slast cur - f + 1))"
    and "f \<le> sfirst cur \<Longrightarrow> slast cur \<le> l \<Longrightarrow>
      visited f l lo hi cur ss rem [] (rem - (slast cur - sfirst cur + 1))"
proof -
  have len: "int (length (seg_list cur)) = slast cur - sfirst cur + 1" and le: "sfirst cur \<le> slast cur"
    using cur by (simp_all add: seg_list_def seg_ok_def)
  note fs = filter_outside_upto [OF fl(1) le]
  { assume A: "f \<le> sfirst cur" "sfirst cur \<le> l" "l < slast cur"
    with i64_count [of "l - sfirst cur" rem] rem len fs(1) cur fl
    show "visited f l lo hi cur ss rem [cur\<lparr>sfirst := l + 1\<rparr>] (rem - (l - sfirst cur + 1))"
      by (auto simp: visited_def reserve_segments.simps(2) [of f l cur] split_beta seg_ok_def seg_list_def) }
  { assume B: "sfirst cur < f" "f \<le> slast cur" "slast cur \<le> l"
    moreover have "i64 (f - 1) = f - 1" using B cur by (simp add: seg_ok_def)
    ultimately
    show "visited f l lo hi cur ss rem [cur\<lparr>slast := f - 1\<rparr>] (rem - (slast cur - f + 1))"
      using i64_count [of "slast cur - f" rem] rem len fs(2) cur fl
      by (auto simp: visited_def reserve_segments.simps(2) [of f l cur] split_beta seg_ok_def seg_list_def) }
  { assume D: "f \<le> sfirst cur" "slast cur \<le> l"
    with i64_count [of "slast cur - sfirst cur" rem] rem len fs(4) cur fl
    show "visited f l lo hi cur ss rem [] (rem - (slast cur - sfirst cur + 1))"
      by (auto simp: visited_def reserve_segments.simps(2) [of f l cur] split_beta seg_ok_def seg_list_def) }
qed

lemma visited_exists:
  assumes "seg_ok lo hi cur" and "f \<le> l" "lo \<le> f" "l \<le> hi"
    and "int (length (seg_list cur)) \<le> rem" "rem \<le> MaxInt64"
  shows "\<exists>pre r. visited f l lo hi cur ss rem pre r"
  using visited_untouched [OF assms(1,2)] visited_split [OF assms(1-4) _ _ assms(5,6)]
    visited_cut [OF assms] by (meson not_le)

lemma reserve_segments_spec:
  assumes "f \<le> l" "lo \<le> f" "l \<le> hi" and "\<forall>s\<in>set ss. seg_ok lo hi s"
    and "int (length (segs_list ss)) \<le> rem" "rem \<le> MaxInt64"
  shows "segs_list (fst (reserve_segments f l ss rem)) = filter (outside f l) (segs_list ss) \<and>
    (\<forall>s\<in>set (fst (reserve_segments f l ss rem)). seg_ok lo hi s) \<and>
    snd (reserve_segments f l ss rem) =
      rem - int (length (segs_list ss)) + int (length (segs_list (fst (reserve_segments f l ss rem))))"
  using assms(4-)
proof (induction ss arbitrary: rem)
  case Nil
  then show ?case by (simp add: reserve_segments.simps)
next
  case (Cons cur ss)
  then obtain pre r where v: "visited f l lo hi cur ss rem pre r"
    using visited_exists [of lo hi cur f l rem] assms(1-3) by fastforce
  then have "int (length (segs_list pre)) \<le> int (length (seg_list cur))"
    and "r = rem - int (length (seg_list cur)) + int (length (segs_list pre))"
    by (simp_all add: visited_def)
  with Cons.prems have "int (length (segs_list ss)) \<le> r" "r \<le> MaxInt64" by simp_all
  with Cons.IH [of r] Cons.prems v show ?case
    by (auto simp: visited_def segs_list_def)
qed

lemma Reserve_spec:
  assumes "lrp_ok p" and "Contains p f l"
  obtains p' where "LazyReusePool_Reserve f l p = Inr p'" "lrp_ok p'"
    "pool_order p' = filter (outside f l) (pool_order p)" "pfirst p' = pfirst p" "plast p' = plast p"
proof -
  have b: "f \<le> l" "pfirst p \<le> f" "l \<le> plast p" using assms(2) by (auto simp: Contains_def)
  have ok: "\<forall>s\<in>set (head p). seg_ok (pfirst p) (plast p) s" "int (length (segs_list (head p))) \<le> remain p"
    "remain p \<le> MaxInt64"
    using assms(1) remain_bounds [OF assms(1)] by (auto simp: lrp_ok_def pool_order_def bounds_ok_def)
  let ?res = "reserve_segments f l (head p) (remain p)"
  let ?p' = "p\<lparr>head := fst ?res, remain := snd ?res\<rparr>"
  note sp = reserve_segments_spec [OF b ok]
  have "lrp_ok ?p'"
    using sp assms(1) by (intro lrp_ok_update) (auto simp: lrp_ok_def pool_order_def)
  moreover have "LazyReusePool_Reserve f l p = Inr ?p'"
    using assms(2) by (simp add: LazyReusePool_Reserve_def split_beta)
  ultimately show ?thesis using that [of ?p'] sp by (simp add: pool_order_def)
qed

section \<open>The pool implements the pool contract\<close>

definition lrp_alloc :: "LazyReusePool \<Rightarrow> (int \<times> LazyReusePool) option" where
  "lrp_alloc p = (let (p', v, found) = LazyReusePool_Allocate p in if found then Some (v, p') else None)"

definition lrp_release :: "int \<Rightarrow> LazyReusePool \<Rightarrow> LazyReusePool" where
  "lrp_release v p = fst (LazyReusePool_Free v p)"

text \<open>\<^verbatim>\<open>Use\<close> as a request and \<^verbatim>\<open>Reserve\<close> as a withdrawal.\<close>

definition lrp_request :: "int \<Rightarrow> LazyReusePool \<Rightarrow> LazyReusePool \<times> int option" where
  "lrp_request v p = (let (p', found) = LazyReusePool_Use v p in (p', if found then Some v else None))"

definition lrp_withdraw :: "int \<times> int \<Rightarrow> LazyReusePool \<Rightarrow> LazyReusePool \<times> int set" where
  "lrp_withdraw r p =
     (case LazyReusePool_Reserve (fst r) (snd r) p of
        Inl e \<Rightarrow> (p, {}) | Inr p' \<Rightarrow> (p', {fst r..snd r}))"

lemma lrp_alloc_None:
  assumes "lrp_ok p" shows "lrp_alloc p = None \<longleftrightarrow> pool_avail p = {}"
proof (cases "pool_order p")
  case Nil
  with assms show ?thesis
    using lrp_ok_head by (simp add: lrp_alloc_def Allocate_empty pool_avail_def)
next
  case (Cons v vs)
  with assms obtain p' where "LazyReusePool_Allocate p = (p', v, True)" by (rule Allocate_Cons)
  with Cons show ?thesis by (simp add: lrp_alloc_def pool_avail_def)
qed

lemma lrp_alloc_Some:
  assumes "lrp_ok p" and "lrp_alloc p = Some (v, p')"
  shows "lrp_ok p'" "pool_order p = v # pool_order p'" "pfirst p' = pfirst p" "plast p' = plast p"
proof -
  have "pool_order p \<noteq> []"
    using lrp_alloc_None [OF assms(1)] assms(2) by (auto simp: pool_avail_def)
  then obtain w ws where w: "pool_order p = w # ws" by (cases "pool_order p") auto
  with assms(1) obtain q where "LazyReusePool_Allocate p = (q, w, True)" "lrp_ok q" "pool_order q = ws"
    "pfirst q = pfirst p" "plast q = plast p" by (rule Allocate_Cons)
  with assms(2) w show "lrp_ok p'" "pool_order p = v # pool_order p'" "pfirst p' = pfirst p"
    "plast p' = plast p" by (simp_all add: lrp_alloc_def)
qed

lemma lrp_request_facts:
  assumes "lrp_ok p" and "lrp_request v p = (p', answer)"
  shows "lrp_ok p' \<and> pool_universe p' = pool_universe p"
    and "set_option answer \<subseteq> pool_avail p \<and> pool_avail p' = pool_avail p - set_option answer"
proof -
  from assms(1) obtain q where "LazyReusePool_Use v p = (q, v \<in> pool_avail p)" "lrp_ok q"
    "pool_order q = filter (\<lambda>x. x \<noteq> v) (pool_order p)" "pfirst q = pfirst p" "plast q = plast p"
    by (rule Use_spec)
  with assms(2) show "lrp_ok p' \<and> pool_universe p' = pool_universe p"
    "set_option answer \<subseteq> pool_avail p \<and> pool_avail p' = pool_avail p - set_option answer"
    by (auto simp: lrp_request_def pool_universe_def pool_avail_def split: if_splits)
qed

lemma lrp_withdraw_facts:
  assumes "lrp_ok p" and "lrp_withdraw r p = (p', X)"
  shows "lrp_ok p' \<and> pool_universe p' = pool_universe p"
    and "X \<subseteq> pool_universe p \<and> pool_avail p' = pool_avail p - X"
proof -
  have "(lrp_ok p' \<and> pool_universe p' = pool_universe p) \<and> X \<subseteq> pool_universe p \<and> pool_avail p' = pool_avail p - X"
  proof (cases "Contains p (fst r) (snd r)")
    case True
    from assms(1) True obtain q where "LazyReusePool_Reserve (fst r) (snd r) p = Inr q" "lrp_ok q"
      "pool_order q = filter (outside (fst r) (snd r)) (pool_order p)" "pfirst q = pfirst p"
      "plast q = plast p" by (rule Reserve_spec)
    with assms(2) True show ?thesis
      by (auto simp: lrp_withdraw_def pool_universe_def pool_avail_def Contains_def)
  next
    case False
    with assms show ?thesis by (simp add: lrp_withdraw_def LazyReusePool_Reserve_def)
  qed
  then show "lrp_ok p' \<and> pool_universe p' = pool_universe p"
    and "X \<subseteq> pool_universe p \<and> pool_avail p' = pool_avail p - X" by blast+
qed

interpretation lrp: managed_pool lrp_ok pool_universe pool_avail lrp_alloc lrp_release
  lrp_request lrp_withdraw
proof unfold_locales
  fix p v p' answer q r X
  assume ok: "lrp_ok p"
  show "finite (pool_universe p)" by (simp add: pool_universe_def)
  show "pool_avail p \<subseteq> pool_universe p" using ok by (rule pool_avail_universe)
  show "lrp_alloc p = None \<longleftrightarrow> pool_avail p = {}" using ok by (rule lrp_alloc_None)
  { assume "lrp_request q p = (p', answer)"
    with ok show "lrp_ok p' \<and> pool_universe p' = pool_universe p"
      "set_option answer \<subseteq> pool_avail p \<and> pool_avail p' = pool_avail p - set_option answer"
      by (fact lrp_request_facts)+ }
  { assume "lrp_withdraw r p = (p', X)"
    with ok show "lrp_ok p' \<and> pool_universe p' = pool_universe p"
      "X \<subseteq> pool_universe p \<and> pool_avail p' = pool_avail p - X" by (fact lrp_withdraw_facts)+ }
  { assume "lrp_alloc p = Some (v, p')"
    note a = lrp_alloc_Some [OF ok this]
    have d: "distinct (pool_order p)" using ok by (simp add: lrp_ok_def)
    show "lrp_ok p'" by (fact a)
    show "v \<in> pool_avail p \<and> pool_avail p' = pool_avail p - {v}" using a d by (auto simp: pool_avail_def)
    show "pool_universe p' = pool_universe p" using a by (simp add: pool_universe_def) }
  { assume "v \<in> pool_universe p" "v \<notin> pool_avail p"
    with ok obtain q where "LazyReusePool_Free v p = (q, True)" "lrp_ok q"
      "inserted v (pool_order p) (pool_order q)" "pfirst q = pfirst p" "plast q = plast p"
      by (rule Free_spec)
    then show "lrp_ok (lrp_release v p)" "pool_avail (lrp_release v p) = insert v (pool_avail p)"
      "pool_universe (lrp_release v p) = pool_universe p"
      by (simp_all add: lrp_release_def pool_avail_def pool_universe_def inserted_facts(1)) }
qed

lemma NewLazyReusePool_ok:
  assumes "bounds_ok f l" and "NewLazyReusePool f l = Inr p"
  shows "lrp_ok p" "pool_avail p = {f..l}" "pfirst p = f" "plast p = l"
proof -
  have "MinInt64 \<le> 0" by (simp add: MinInt64_def)
  with assms show "lrp_ok p" "pool_avail p = {f..l}" "pfirst p = f" "plast p = l"
    by (auto simp: NewLazyReusePool_def lrp_ok_def bounds_ok_def seg_ok_def pool_order_def pool_avail_def
        seg_list_def)
qed

section \<open>Histories of a pool\<close>

text \<open>
  Every sequence of calls of the four operations that change a pool, in any order and with any
  arguments, where only a value that is held is freed. \<open>H\<close> are the values handed out by
  \<^verbatim>\<open>Allocate\<close> and \<^verbatim>\<open>Use\<close> and not freed since, \<open>R\<close> those \<^verbatim>\<open>Reserve\<close> withdrew.
  A call that fails is a step too.
\<close>

inductive lrp_history :: "LazyReusePool \<Rightarrow> LazyReusePool \<Rightarrow> int set \<Rightarrow> int set \<Rightarrow> bool"
  for p0 :: LazyReusePool where
  lrp_start: "lrp_history p0 p0 {} {}"
| lrp_Allocate: "lrp_history p0 p H R \<Longrightarrow> LazyReusePool_Allocate p = (p', v, found) \<Longrightarrow>
    lrp_history p0 p' (if found then insert v H else H) R"
| lrp_Use: "lrp_history p0 p H R \<Longrightarrow> LazyReusePool_Use v p = (p', found) \<Longrightarrow>
    lrp_history p0 p' (if found then insert v H else H) R"
| lrp_Free: "lrp_history p0 p H R \<Longrightarrow> v \<in> H \<Longrightarrow> LazyReusePool_Free v p = (p', done) \<Longrightarrow>
    lrp_history p0 p' (H - {v}) R"
| lrp_Reserve: "lrp_history p0 p H R \<Longrightarrow> LazyReusePool_Reserve a b p = Inr p' \<Longrightarrow>
    lrp_history p0 p' H (R \<union> ({a..b} - H))"

lemma lrp_history_managed:
  assumes "lrp_history p0 p H R"
  shows "managed_client lrp_alloc lrp_request lrp_withdraw lrp_release p0 p H R"
  using assms
proof (induction rule: lrp_history.induct)
  case lrp_start
  show ?case by (rule managed_start)
next
  case (lrp_Allocate p H R p' v found)
  then show ?case
  proof (cases found)
    case True
    with lrp_Allocate.hyps(2) have "lrp_alloc p = Some (v, p')" by (simp add: lrp_alloc_def)
    from managed_alloc [OF lrp_Allocate.IH this] True show ?thesis by simp
  next
    case False
    with lrp_Allocate.hyps(2) have "p' = p"
      by (auto simp: LazyReusePool_Allocate_def Let_def split: list.splits)
    with lrp_Allocate.IH False show ?thesis by simp
  qed
next
  case (lrp_Use p H R v p' found)
  then have "lrp_request v p = (p', if found then Some v else None)" by (simp add: lrp_request_def)
  from managed_request [OF lrp_Use.IH this] show ?case by (simp split: if_splits)
next
  case (lrp_Free p H R v p' "done")
  then have "lrp_release v p = p'" by (simp add: lrp_release_def)
  with managed_free [OF lrp_Free.IH lrp_Free.hyps(2)] show ?case by simp
next
  case (lrp_Reserve p H R a b p')
  then have "lrp_withdraw (a, b) p = (p', {a..b})" by (simp add: lrp_withdraw_def)
  from managed_withdraw [OF lrp_Reserve.IH this] show ?case .
qed

section \<open>Properties\<close>

text \<open>
  C1. Values are unique and none is lost. Take a pool for a range \<open>[f, l]\<close> whose size fits
  \<^verbatim>\<open>int\<close> and that leaves a value free at each end of \<^verbatim>\<open>int\<close>, and any sequence
  of \<^verbatim>\<open>Allocate\<close>, \<^verbatim>\<open>Use\<close>, \<^verbatim>\<open>Free\<close> and \<^verbatim>\<open>Reserve\<close> calls on it that frees only
  values that are held. Then a value that \<^verbatim>\<open>Allocate\<close> hands out lies in the range and is neither
  held by a client nor withdrawn by \<^verbatim>\<open>Reserve\<close>; \<^verbatim>\<open>Use\<close> succeeds exactly on such values;
  \<^verbatim>\<open>Allocate\<close> fails exactly when every value of the range is held or withdrawn; the free of a
  held value succeeds; and \<^verbatim>\<open>remain\<close>, the number of held values and the number of
  withdrawn values add up to the size of the range. (A value reserved while it is held counts as held,
  and is available again once it is freed.)
\<close>

theorem lrp_client_safety:
  assumes "bounds_ok f l" and "NewLazyReusePool f l = Inr p0" and "lrp_history p0 p H R"
  shows "(\<forall>p' v. LazyReusePool_Allocate p = (p', v, True) \<longrightarrow> v \<in> {f..l} - (H \<union> R)) \<and>
    (snd (snd (LazyReusePool_Allocate p)) \<longleftrightarrow> H \<union> R \<noteq> {f..l}) \<and>
    (\<forall>v. snd (LazyReusePool_Use v p) \<longleftrightarrow> v \<in> {f..l} - (H \<union> R)) \<and>
    (\<forall>v\<in>H. snd (LazyReusePool_Free v p)) \<and>
    H \<inter> R = {} \<and>
    LazyReusePool_Remain p + int (card H) + int (card R) = l - f + 1"
proof (intro conjI allI impI ballI)
  note p0 = NewLazyReusePool_ok [OF assms(1,2)]
  have u: "pool_universe p0 = {f..l}" using p0 by (simp add: pool_universe_def)
  note hist = lrp_history_managed [OF assms(3)]
  note inv = lrp.managed_invariant [OF p0(1) hist, unfolded u p0(2)]
  show "v \<in> {f..l} - (H \<union> R)" if "LazyReusePool_Allocate p = (p', v, True)" for p' v
    using lrp.managed_alloc_fresh [OF p0(1) hist, of v p'] that p0(2) by (simp add: lrp_alloc_def)
  have "snd (snd (LazyReusePool_Allocate p)) \<longleftrightarrow> lrp_alloc p \<noteq> None"
    by (auto simp: lrp_alloc_def split_beta)
  also have "\<dots> \<longleftrightarrow> H \<union> R \<noteq> {f..l}"
    using lrp.managed_exhausted_iff [OF p0(1) hist] p0(2) inv by auto
  finally show "snd (snd (LazyReusePool_Allocate p)) \<longleftrightarrow> H \<union> R \<noteq> {f..l}" .
  show "snd (LazyReusePool_Use v p) \<longleftrightarrow> v \<in> {f..l} - (H \<union> R)" for v
    using inv Use_spec [of p v] by (metis snd_conv)
  show "snd (LazyReusePool_Free v p)" if "v \<in> H" for v
    using inv that Free_spec [of p v] by (metis DiffD2 UnI1 snd_conv subsetD)
  show "H \<inter> R = {}" using inv by blast
  have "int (card (pool_avail p) + card H + card R) = int (card {f..l})"
    using lrp.managed_no_leak [OF p0(1) _ hist] p0(2) u by (simp only:)
  then show "LazyReusePool_Remain p + int (card H) + int (card R) = l - f + 1"
    using inv assms(1) by (simp add: LazyReusePool_Remain_def remain_card bounds_ok_def)
qed

text \<open>A history of \<open>NewLazyReusePool(1, 10)\<close>: 1 is reserved, 2 allocated and 7 asked for.\<close>

definition example_start :: LazyReusePool where
  "example_start = \<lparr>head = [\<lparr>sfirst = 1, slast = 10\<rparr>], pfirst = 1, plast = 10, remain = 10\<rparr>"

definition example_end :: LazyReusePool where
  "example_end = \<lparr>head = [\<lparr>sfirst = 3, slast = 6\<rparr>, \<lparr>sfirst = 8, slast = 10\<rparr>], pfirst = 1,
     plast = 10, remain = 7\<rparr>"

lemma example_new: "NewLazyReusePool 1 10 = Inr example_start"
  by code_simp

lemma example_history: "lrp_history example_start example_end {7, 2} {1}"
proof -
  let ?p1 = "\<lparr>head = [\<lparr>sfirst = 2, slast = 10\<rparr>], pfirst = 1, plast = 10, remain = 9\<rparr> :: LazyReusePool"
  let ?p2 = "\<lparr>head = [\<lparr>sfirst = 3, slast = 10\<rparr>], pfirst = 1, plast = 10, remain = 8\<rparr> :: LazyReusePool"
  have "LazyReusePool_Reserve 1 1 example_start = Inr ?p1" by code_simp
  with lrp_start have "lrp_history example_start ?p1 {} ({} \<union> ({1..1} - {}))" by (rule lrp_Reserve)
  then have h1: "lrp_history example_start ?p1 {} {1}" by simp
  have "LazyReusePool_Allocate ?p1 = (?p2, 2, True)" by code_simp
  from lrp_Allocate [OF h1 this] have h2: "lrp_history example_start ?p2 {2} {1}" by simp
  have "LazyReusePool_Use 7 ?p2 = (example_end, True)" by code_simp
  from lrp_Use [OF h2 this] show ?thesis by simp
qed

theorem lrp_client_safety_witness:
  "NewLazyReusePool 1 10 = Inr example_start \<and> lrp_history example_start example_end {7, 2} {1} \<and>
    (\<exists>p'. LazyReusePool_Allocate example_end = (p', 3, True) \<and> 3 \<in> {1..10} - ({7, 2} \<union> {1 :: int})) \<and>
    \<not> snd (LazyReusePool_Use 7 example_end) \<and> snd (LazyReusePool_Free 7 example_end) \<and>
    LazyReusePool_Remain example_end + int (card {7, 2::int}) + int (card {1::int}) = 10 - 1 + 1"
proof -
  have b: "bounds_ok 1 10" by (simp add: bounds_ok_def MinInt64_def MaxInt64_def)
  note c = lrp_client_safety [OF b example_new example_history]
  obtain p' where p': "LazyReusePool_Allocate example_end = (p', 3, True)"
    by (simp add: LazyReusePool_Allocate_def example_end_def Let_def)
  have "3 \<in> {1..10} - ({7, 2} \<union> {1 :: int})" by (rule c [THEN conjunct1, rule_format, OF p'])
  moreover have "\<not> snd (LazyReusePool_Use 7 example_end)" using c by blast
  moreover have "snd (LazyReusePool_Free 7 example_end)" using c by blast
  moreover have "LazyReusePool_Remain example_end + int (card {7, 2::int}) + int (card {1::int}) = 10 - 1 + 1"
    using c by (elim conjE) assumption
  ultimately show ?thesis using example_new example_history p' by (intro conjI exI [of _ p']) assumption+
qed

text \<open>
  C17. \<^verbatim>\<open>Allocate\<close> hands out the values in the order of the segment list: the first one
  goes and the others stay in their order; on an empty pool it fails and changes nothing.
\<close>

theorem lrp_allocate_order:
  assumes "lrp_ok p"
  shows "case pool_order p of
      [] \<Rightarrow> LazyReusePool_Allocate p = (p, 0, False)
    | v # vs \<Rightarrow> (\<exists>p'. LazyReusePool_Allocate p = (p', v, True) \<and> pool_order p' = vs \<and> lrp_ok p')"
proof (cases "pool_order p")
  case Nil
  with assms show ?thesis by (simp add: Allocate_empty lrp_ok_head)
next
  case (Cons v vs)
  with assms obtain p' where "LazyReusePool_Allocate p = (p', v, True)" "lrp_ok p'" "pool_order p' = vs"
    by (rule Allocate_Cons)
  with Cons show ?thesis by simp
qed

text \<open>The pool of the examples: \<open>[3, 5]\<close> in front, \<open>[1, 2]\<close> and \<open>[6, 10]\<close> behind it.\<close>

definition example_pool :: LazyReusePool where
  "example_pool = \<lparr>head = [\<lparr>sfirst = 3, slast = 5\<rparr>, \<lparr>sfirst = 1, slast = 2\<rparr>,
     \<lparr>sfirst = 6, slast = 10\<rparr>], pfirst = 1, plast = 10, remain = 10\<rparr>"

lemma example_pool_order: "pool_order example_pool = [3, 4, 5, 1, 2, 6, 7, 8, 9, 10]"
  by (simp add: pool_order_def example_pool_def seg_list_def upto.simps)

lemma example_pool_ok: "lrp_ok example_pool"
proof -
  have "distinct (pool_order example_pool)" "length (pool_order example_pool) = 10"
    by (simp_all add: example_pool_order)
  then show ?thesis
    by (simp add: lrp_ok_def bounds_ok_def seg_ok_def MinInt64_def MaxInt64_def)
      (simp add: example_pool_def)
qed

theorem lrp_allocate_order_witness:
  "\<exists>p'. LazyReusePool_Allocate example_pool = (p', 3, True) \<and>
    pool_order p' = [4, 5, 1, 2, 6, 7, 8, 9, 10] \<and> lrp_ok p'"
  using lrp_allocate_order [OF example_pool_ok] by (simp add: example_pool_order)

text \<open>
  C18. \<^verbatim>\<open>Use\<close> succeeds exactly on an available value and takes out that value alone;
  the others keep their order.
\<close>

theorem lrp_use_spec:
  assumes "lrp_ok p"
  shows "\<exists>p'. LazyReusePool_Use v p = (p', v \<in> pool_avail p) \<and> lrp_ok p' \<and>
    pool_order p' = filter (\<lambda>x. x \<noteq> v) (pool_order p)"
  using Use_spec [OF assms] by metis

theorem lrp_use_spec_witness:
  "\<exists>p'. LazyReusePool_Use 8 example_pool = (p', True) \<and> lrp_ok p' \<and>
    pool_order p' = [3, 4, 5, 1, 2, 6, 7, 9, 10]"
  using lrp_use_spec [OF example_pool_ok, of 8] by (simp add: example_pool_order pool_avail_def)

text \<open>
  C19. \<^verbatim>\<open>Reserve\<close> of a range inside the pool takes out exactly the available values of
  the range, keeps the order of the others and keeps \<^verbatim>\<open>remain\<close> exact; a range that is
  empty or not inside the pool is an error that changes nothing.
\<close>

theorem lrp_reserve_spec:
  assumes "lrp_ok p"
  shows "if f \<le> l \<and> pfirst p \<le> f \<and> l \<le> plast p
    then \<exists>p'. LazyReusePool_Reserve f l p = Inr p' \<and> lrp_ok p' \<and>
      pool_order p' = filter (\<lambda>x. \<not> (f \<le> x \<and> x \<le> l)) (pool_order p) \<and>
      LazyReusePool_Remain p' = int (card (pool_avail p - {f..l}))
    else LazyReusePool_Reserve f l p = Inl (ReserveOutOfRange (pfirst p) (plast p))"
proof (cases "Contains p f l")
  case True
  with assms obtain p' where p': "LazyReusePool_Reserve f l p = Inr p'" "lrp_ok p'"
    "pool_order p' = filter (outside f l) (pool_order p)" by (rule Reserve_spec)
  then have "pool_avail p' = pool_avail p - {f..l}" by (auto simp: pool_avail_def)
  with p' remain_card [of p'] True show ?thesis
    by (simp add: LazyReusePool_Remain_def Contains_def)
next
  case False
  then have "\<not> (f \<le> l \<and> pfirst p \<le> f \<and> l \<le> plast p)" by (simp add: Contains_def)
  with False show ?thesis by (simp only: LazyReusePool_Reserve_def if_False if_True simp_thms)
qed

theorem lrp_reserve_spec_witness:
  "\<exists>p'. LazyReusePool_Reserve 2 6 example_pool = Inr p' \<and> pool_order p' = [1, 7, 8, 9, 10] \<and>
    LazyReusePool_Remain p' = 5"
proof -
  have a: "pool_avail example_pool - {2..6} = set [1, 7, 8, 9, 10]"
    by (auto simp: pool_avail_def example_pool_order)
  have c: "card (pool_avail example_pool - {2..6}) = 5" unfolding a by simp
  have "pfirst example_pool = 1" "plast example_pool = 10" by (simp_all add: example_pool_def)
  then show ?thesis
    using lrp_reserve_spec [OF example_pool_ok, of 2 6] by (auto simp: example_pool_order c)
qed

text \<open>
  C20. Reuse is lazy: a value that is given back goes behind all values of the head segment,
  so \<^verbatim>\<open>Allocate\<close> hands it out only after them.
\<close>

theorem lrp_lazy_reuse:
  assumes "lrp_ok p" and "head p = h # rest" and "pfirst p \<le> v" and "v \<le> plast p"
    and "v \<notin> pool_avail p"
  shows "\<exists>p' behind. LazyReusePool_Free v p = (p', True) \<and> lrp_ok p' \<and>
    pool_order p' = [sfirst h..slast h] @ behind \<and> set behind = insert v (set (segs_list rest))"
proof -
  have v: "v \<in> pool_universe p" using assms(3,4) by (simp add: pool_universe_def)
  from assms(1) v assms(5) obtain p' where p': "LazyReusePool_Free v p = (p', True)" "lrp_ok p'"
    "inserted v (pool_order p) (pool_order p')"
    "head p \<noteq> [] \<longrightarrow> prefix (seg_list (hd (head p))) (pool_order p')" by (rule Free_spec)
  with assms(2) obtain xs where xs: "pool_order p' = seg_list h @ xs" by (auto simp: prefix_def)
  have order: "pool_order p = seg_list h @ segs_list rest" using assms(2) by (simp add: pool_order_def)
  have "distinct (seg_list h @ xs)" "distinct (seg_list h @ segs_list rest)"
    using p'(2) assms(1) xs order by (simp_all only: lrp_ok_def)
  then have "set (seg_list h) \<inter> set xs = {}" "set (seg_list h) \<inter> set (segs_list rest) = {}"
    by (simp_all only: distinct_append)
  moreover have "v \<notin> set (seg_list h)" using assms(5) by (simp only: pool_avail_def order set_append Un_iff) simp
  moreover have "set (seg_list h) \<union> set xs = insert v (set (seg_list h) \<union> set (segs_list rest))"
    using inserted_facts(1) [OF p'(3)] by (simp only: xs order set_append)
  ultimately have "set xs = insert v (set (segs_list rest))" by (rule insert_behind)
  with p'(1,2) xs show ?thesis by (simp only: seg_list_def) blast
qed

theorem lrp_lazy_reuse_witness:
  "\<exists>p' behind. LazyReusePool_Free 2 \<lparr>head = [\<lparr>sfirst = 3, slast = 5\<rparr>], pfirst = 1, plast = 9,
      remain = 3\<rparr> = (p', True) \<and> lrp_ok p' \<and> pool_order p' = [3..5] @ behind \<and> set behind = {2}"
proof -
  let ?h = "\<lparr>sfirst = 3, slast = 5\<rparr> :: segment"
  let ?p = "\<lparr>head = [?h], pfirst = 1, plast = 9, remain = 3\<rparr>"
  have "lrp_ok ?p"
    by (simp add: lrp_ok_def bounds_ok_def seg_ok_def MinInt64_def MaxInt64_def pool_order_def seg_list_def)
  from lrp_lazy_reuse [OF this, of ?h "[]" 2] show ?thesis
    by (simp add: pool_avail_def pool_order_def)
qed

text \<open>In increasing segments with gaps a duplicated free is found.\<close>

lemma free_segments_duplicate:
  assumes "\<forall>s\<in>set segs. seg_ok lo hi s" and "sorted_wrt (\<lambda>s t. slast s + 1 < sfirst t) segs"
    and "v \<in> set (segs_list segs)"
  shows "free_segments v segs = None"
  using assms
proof (induction segs)
  case (Cons s ss)
  then have s: "seg_ok lo hi s" by simp
  note pos = relativePosisionOf_cases [OF s, of v]
  show ?case
  proof (cases "v \<in> set (seg_list s)")
    case True
    then show ?thesis using pos by simp
  next
    case False
    with Cons.prems(3) have v: "v \<in> set (segs_list ss)" by auto
    then obtain t where "t \<in> set ss" "sfirst t \<le> v" by (auto simp: segs_list_def)
    with Cons.prems(2) have "slast s + 1 < v" by auto
    moreover have "ss \<noteq> []" using v by auto
    moreover have "free_segments v ss = None" using Cons.IH Cons.prems(1,2) v by simp
    ultimately show ?thesis using pos by simp
  qed
qed simp

text \<open>
  C40. What \<^verbatim>\<open>Free\<close> does with a duplicated free, that of an available value, in a pool whose
  segments behind the head are in increasing order with gaps between them: it is refused and the
  pool stays as it is, except for the value right after the head segment. That one is
  accepted: the head segment grows by it and the value is in the pool a second time.
\<close>

theorem lrp_duplicate_free:
  assumes "lrp_ok p" and "head p = h # rest" and "sorted_wrt (\<lambda>s t. slast s + 1 < sfirst t) rest"
    and "v \<in> pool_avail p"
  shows "\<exists>p'. LazyReusePool_Free v p = (p', v = slast h + 1) \<and>
    (if v = slast h + 1 then pool_order p' = [sfirst h..slast h] @ v # segs_list rest \<and> v \<in> set (segs_list rest)
     else p' = p)"
proof -
  have range: "\<not> (v < pfirst p \<or> plast p < v)"
    using pool_avail_universe [OF assms(1)] assms(4) by (auto simp: pool_universe_def)
  have segs: "seg_ok (pfirst p) (plast p) h" "\<forall>s\<in>set rest. seg_ok (pfirst p) (plast p) s"
    using assms(1,2) by (auto simp: lrp_ok_def)
  have v: "v \<in> set (seg_list h) \<or> v \<in> set (segs_list rest)"
    using assms(2,4) by (simp add: pool_avail_def pool_order_def)
  note pos = relativePosisionOf_cases [OF segs(1), of v]
  show ?thesis
  proof (cases "v = slast h + 1")
    case True
    with v have mem: "v \<in> set (segs_list rest)" by auto
    have "segs_list (extendLast h rest) = seg_list h @ v # segs_list rest"
      using extendLast_spec(1) [OF segs(1), of rest] segs(2) True range by simp
    then show ?thesis using True pos range assms(2) mem
      by (simp add: LazyReusePool_Free_def pool_order_def seg_list_def)
  next
    case False
    have "LazyReusePool_Free v p = (p, False)"
    proof (cases "v \<in> set (seg_list h)")
      case True
      then show ?thesis using pos range assms(2) by (simp add: LazyReusePool_Free_def)
    next
      case notin: False
      with v have "v \<in> set (segs_list rest)" by blast
      then have "free_segments v rest = None" "rest \<noteq> []"
        using free_segments_duplicate segs(2) assms(3) by auto
      with notin pos False range assms(2) show ?thesis
        by (auto simp: LazyReusePool_Free_def split: relativePos.split)
    qed
    with False show ?thesis by simp
  qed
qed

text \<open>The example pool is one that calls reach from \<^verbatim>\<open>NewLazyReusePool(1, 10)\<close>.\<close>

lemma example_pool_reachable:
  "case NewLazyReusePool 1 10 of Inl e \<Rightarrow> False | Inr p0 \<Rightarrow>
     lrp_release 5 (lrp_release 2 (lrp_release 1 (fst (LazyReusePool_Allocate
       (fst (LazyReusePool_Allocate (fst (LazyReusePool_Use 5 p0)))))))) = example_pool"
  by code_simp

theorem lrp_duplicate_free_witness:
  "\<exists>p'. LazyReusePool_Free 6 example_pool = (p', True) \<and>
    pool_order p' = [3, 4, 5, 6, 1, 2, 6, 7, 8, 9, 10]"
proof -
  have "6 \<in> pool_avail example_pool" by (simp add: pool_avail_def example_pool_order)
  from lrp_duplicate_free [OF example_pool_ok _ _ this, of "\<lparr>sfirst = 3, slast = 5\<rparr>"
      "[\<lparr>sfirst = 1, slast = 2\<rparr>, \<lparr>sfirst = 6, slast = 10\<rparr>]"]
  show ?thesis by (simp add: example_pool_def seg_list_def upto.simps)
qed

end
