(* ===== verification/GoStrings.thy ===== *)
theory GoStrings
  imports Prelude
begin

text \<open>
  The functions of Go's \<^verbatim>\<open>strings\<close>, \<^verbatim>\<open>strconv\<close> and \<^verbatim>\<open>encoding/hex\<close>
  packages that the components call. A Go string is its list of bytes, a \<open>string\<close>.
  \<^verbatim>\<open>ToLower\<close> and \<^verbatim>\<open>Fields\<close> are modelled on ASCII text (bytes below 128), where
  Go works byte by byte.
\<close>

section \<open>Strings\<close>

definition HasPrefix :: "string \<Rightarrow> string \<Rightarrow> bool" where
  "HasPrefix s p \<longleftrightarrow> take (length p) s = p"

fun strings_Contains :: "string \<Rightarrow> string \<Rightarrow> bool" where
  "strings_Contains [] sub = (sub = [])"
| "strings_Contains (c # s) sub = (HasPrefix (c # s) sub \<or> strings_Contains s sub)"

definition is_digit :: "char \<Rightarrow> bool" where
  "is_digit c \<longleftrightarrow> (48 :: nat) \<le> of_char c \<and> of_char c \<le> (57 :: nat)"

definition is_upper :: "char \<Rightarrow> bool" where
  "is_upper c \<longleftrightarrow> (65 :: nat) \<le> of_char c \<and> of_char c \<le> (90 :: nat)"

definition lower_char :: "char \<Rightarrow> char" where
  "lower_char c = (if is_upper c then char_of (of_char c + 32 :: nat) else c)"

definition ToLower :: "string \<Rightarrow> string" where
  "ToLower s = map lower_char s"

text \<open>ASCII white space: tab, line feed, vertical tab, form feed, carriage return and space.\<close>

definition is_space :: "char \<Rightarrow> bool" where
  "is_space c \<longleftrightarrow> (of_char c :: nat) \<in> {9, 10, 11, 12, 13, 32}"

text \<open>\<^verbatim>\<open>strings.Fields\<close>: the maximal runs of non-space characters.\<close>

fun fields_loop :: "string \<Rightarrow> string \<Rightarrow> string list" where
  "fields_loop w [] = (if w = [] then [] else [w])"
| "fields_loop w (c # s) =
     (if is_space c then (if w = [] then fields_loop [] s else w # fields_loop [] s)
      else fields_loop (w @ [c]) s)"

definition Fields :: "string \<Rightarrow> string list" where
  "Fields s = fields_loop [] s"

text \<open>\<^verbatim>\<open>strings.Split\<close> with a one-character separator: never empty.\<close>

fun Split :: "char \<Rightarrow> string \<Rightarrow> string list" where
  "Split sep [] = [[]]"
| "Split sep (c # s) =
     (if c = sep then [] # Split sep s
      else case Split sep s of [] \<Rightarrow> [[c]] | w # ws \<Rightarrow> (c # w) # ws)"

fun Join :: "string list \<Rightarrow> string \<Rightarrow> string" where
  "Join [] sep = []"
| "Join [w] sep = w"
| "Join (w # ws) sep = w @ sep @ Join ws sep"

section \<open>Decimal numbers\<close>

definition digit_char :: "nat \<Rightarrow> char" where
  "digit_char d = char_of (48 + d)"

definition digit_val :: "char \<Rightarrow> nat" where
  "digit_val c = of_char c - 48"

text \<open>\<^verbatim>\<open>strconv.Itoa\<close> and \<^verbatim>\<open>fmt.Sprint\<close> on a non-negative integer.\<close>

fun Itoa :: "nat \<Rightarrow> string" where
  "Itoa n = (if n < 10 then [digit_char n] else Itoa (n div 10) @ [digit_char (n mod 10)])"

declare Itoa.simps [simp del]

datatype num_error = ErrSyntax | ErrRange

text \<open>\<^verbatim>\<open>strconv.ParseUint(s, 10, bits)\<close> with \<open>mx\<close> the largest value of that width.\<close>

fun parse_uint_loop :: "nat \<Rightarrow> nat \<Rightarrow> string \<Rightarrow> num_error + nat" where
  "parse_uint_loop mx n [] = Inr n"
| "parse_uint_loop mx n (c # s) =
     (if \<not> is_digit c then Inl ErrSyntax
      else if mx < 10 * n + digit_val c then Inl ErrRange
      else parse_uint_loop mx (10 * n + digit_val c) s)"

definition ParseUint :: "nat \<Rightarrow> string \<Rightarrow> num_error + nat" where
  "ParseUint mx s = (if s = [] then Inl ErrSyntax else parse_uint_loop mx 0 s)"

text \<open>\<^verbatim>\<open>strconv.Atoi\<close> on a 64-bit target: an optional sign, then decimal digits.\<close>

definition Atoi :: "string \<Rightarrow> num_error + int" where
  "Atoi s =
     (let neg = (case s of [] \<Rightarrow> False | c # _ \<Rightarrow> c = CHR ''-'');
          body = (case s of [] \<Rightarrow> [] | c # r \<Rightarrow> if c = CHR ''-'' \<or> c = CHR ''+'' then r else s)
      in case ParseUint (2 ^ 64 - 1) body of
           Inl e \<Rightarrow> Inl e
         | Inr n \<Rightarrow>
             if \<not> neg \<and> 2 ^ 63 \<le> n then Inl ErrRange
             else if neg \<and> 2 ^ 63 < n then Inl ErrRange
             else Inr (if neg then - int n else int n))"

section \<open>Hexadecimal text\<close>

definition hex_val :: "char \<Rightarrow> nat option" where
  "hex_val c = (let n = of_char c in
     if 48 \<le> n \<and> n \<le> 57 then Some (n - 48)
     else if 97 \<le> n \<and> n \<le> 102 then Some (n - 87)
     else if 65 \<le> n \<and> n \<le> 70 then Some (n - 55)
     else None)"

datatype hex_error = InvalidByteError char | ErrLength

text \<open>\<^verbatim>\<open>hex.DecodeString\<close>: pairs of digits; an odd rest is checked before its length is.\<close>

fun hex_DecodeString :: "string \<Rightarrow> hex_error + byte list" where
  "hex_DecodeString [] = Inr []"
| "hex_DecodeString [c] =
     (case hex_val c of None \<Rightarrow> Inl (InvalidByteError c) | Some _ \<Rightarrow> Inl ErrLength)"
| "hex_DecodeString (c # d # s) =
     (case hex_val c of
        None \<Rightarrow> Inl (InvalidByteError c)
      | Some h \<Rightarrow>
          (case hex_val d of
             None \<Rightarrow> Inl (InvalidByteError d)
           | Some l \<Rightarrow>
               (case hex_DecodeString s of
                  Inl e \<Rightarrow> Inl e
                | Inr bs \<Rightarrow> Inr (of_nat (16 * h + l) # bs))))"

definition hex_char :: "nat \<Rightarrow> char" where
  "hex_char n = (if n < 10 then char_of (48 + n) else char_of (87 + n))"

fun hex_EncodeToString :: "byte list \<Rightarrow> string" where
  "hex_EncodeToString [] = []"
| "hex_EncodeToString (b # bs) =
     hex_char (unat b div 16) # hex_char (unat b mod 16) # hex_EncodeToString bs"

section \<open>Facts\<close>

lemma HasPrefix_append [simp]: "HasPrefix (p @ s) p"
  by (simp add: HasPrefix_def)

lemma HasPrefix_iff: "HasPrefix s p \<longleftrightarrow> (\<exists>r. s = p @ r)"
  by (metis HasPrefix_def append_take_drop_id append_eq_conv_conj)

lemma of_char_digit_char: "d < 10 \<Longrightarrow> of_char (digit_char d) = (48 + d :: nat)"
  by (simp add: digit_char_def)

lemma digit_char_facts [simp]:
  assumes "d < 10"
  shows "is_digit (digit_char d)" "digit_val (digit_char d) = d"
  using assms by (simp_all add: is_digit_def digit_val_def of_char_digit_char)

lemma digit_val_less: "is_digit c \<Longrightarrow> digit_val c < 10"
  by (auto simp: is_digit_def digit_val_def)

lemma Itoa_not_Nil [simp]: "Itoa n \<noteq> []"
  by (subst Itoa.simps) simp

lemma Itoa_digits: "\<forall>c\<in>set (Itoa n). is_digit c"
proof (induction n rule: Itoa.induct)
  case (1 n)
  then show ?case by (subst Itoa.simps) auto
qed

lemma Itoa_1: "v < 10 \<Longrightarrow> Itoa v = [digit_char v]"
  by (subst Itoa.simps) simp

lemma Itoa_2: "10 \<le> v \<Longrightarrow> v < 100 \<Longrightarrow> Itoa v = [digit_char (v div 10), digit_char (v mod 10)]"
  using Itoa_1 [of "v div 10"] by (subst Itoa.simps) simp

lemma Itoa_3: "100 \<le> v \<Longrightarrow> v < 1000 \<Longrightarrow>
     Itoa v = [digit_char (v div 100), digit_char (v div 10 mod 10), digit_char (v mod 10)]"
  using Itoa_2 [of "v div 10"] by (subst Itoa.simps) (simp add: div_mult2_eq [symmetric])

lemma digit_not_special:
  assumes "is_digit c"
  shows "\<not> is_space c" "\<not> is_upper c" "c \<noteq> CHR '',''" "c \<noteq> CHR ''-''" "c \<noteq> CHR ''.''"
    "c \<noteq> CHR ''/''" "c \<noteq> CHR '':''" "c \<noteq> CHR ''%''" "c \<noteq> CHR ''!''" "c \<noteq> CHR ''+''"
  using assms by (auto simp: is_digit_def is_space_def is_upper_def)

lemma parse_uint_loop_append:
  "parse_uint_loop mx n (s @ t) =
    (case parse_uint_loop mx n s of Inl e \<Rightarrow> Inl e | Inr m \<Rightarrow> parse_uint_loop mx m t)"
  by (induction s arbitrary: n) auto

lemma parse_uint_loop_Itoa: "n \<le> mx \<Longrightarrow> parse_uint_loop mx 0 (Itoa n) = Inr n"
proof (induction n rule: Itoa.induct)
  case (1 n)
  show ?case
  proof (cases "n < 10")
    case True
    with "1.prems" show ?thesis by (subst Itoa.simps) simp
  next
    case False
    then have "parse_uint_loop mx 0 (Itoa (n div 10)) = Inr (n div 10)" using 1 by simp
    with False "1.prems" show ?thesis
      by (subst Itoa.simps) (simp add: parse_uint_loop_append mult.commute)
  qed
qed

lemma ParseUint_Itoa: "ParseUint mx (Itoa n) = (if n \<le> mx then Inr n else ParseUint mx (Itoa n))"
  by (simp add: ParseUint_def parse_uint_loop_Itoa)

lemma ParseUint_bound: "ParseUint mx s = Inr n \<Longrightarrow> n \<le> mx"
proof -
  have "parse_uint_loop mx k s = Inr n \<Longrightarrow> k \<le> mx \<Longrightarrow> n \<le> mx" for k
    by (induction s arbitrary: k) (auto split: if_splits)
  then show "ParseUint mx s = Inr n \<Longrightarrow> n \<le> mx"
    by (auto simp: ParseUint_def split: if_splits)
qed

lemma ParseUint_digits: "ParseUint mx s = Inr n \<Longrightarrow> s \<noteq> [] \<and> (\<forall>c\<in>set s. is_digit c)"
proof -
  have "parse_uint_loop mx k s = Inr n \<Longrightarrow> \<forall>c\<in>set s. is_digit c" for k
    by (induction s arbitrary: k) (auto split: if_splits)
  then show "ParseUint mx s = Inr n \<Longrightarrow> s \<noteq> [] \<and> (\<forall>c\<in>set s. is_digit c)"
    by (auto simp: ParseUint_def split: if_splits)
qed

lemma Atoi_Itoa: "n < 2 ^ 63 \<Longrightarrow> Atoi (Itoa n) = Inr (int n)"
proof -
  assume n: "n < 2 ^ 63"
  obtain c r where cr: "Itoa n = c # r" by (cases "Itoa n") auto
  then have "is_digit c" using Itoa_digits [of n] by simp
  then have "c \<noteq> CHR ''-''" "c \<noteq> CHR ''+''" by (simp_all add: digit_not_special)
  moreover have "ParseUint (2 ^ 64 - 1) (c # r) = Inr n"
    using n ParseUint_Itoa [of "2 ^ 64 - 1" n] cr by simp
  ultimately show ?thesis using n cr by (simp add: Atoi_def)
qed

text \<open>Splitting and joining.\<close>

lemma Split_not_Nil [simp]: "Split sep s \<noteq> []"
  by (cases s) (auto split: list.splits)

lemma Split_no_sep: "sep \<notin> set s \<Longrightarrow> Split sep s = [s]"
  by (induction s) auto

lemma Split_append: "sep \<notin> set w \<Longrightarrow> Split sep (w @ sep # s) = w # Split sep s"
  by (induction w) auto

lemma Join_Cons: "ws \<noteq> [] \<Longrightarrow> Join (w # ws) sep = w @ sep @ Join ws sep"
  by (cases ws) auto

lemma Split_Join:
  "ws \<noteq> [] \<Longrightarrow> \<forall>w\<in>set ws. sep \<notin> set w \<Longrightarrow> Split sep (Join ws [sep]) = ws"
proof (induction ws)
  case (Cons w ws)
  then show ?case
    by (cases "ws = []") (simp_all add: Split_no_sep Split_append Join_Cons)
qed simp

lemma fields_loop_word:
  "\<forall>c\<in>set v. \<not> is_space c \<Longrightarrow> fields_loop w (v @ s) = fields_loop (w @ v) s"
  by (induction v arbitrary: w) auto

lemma Fields_Join:
  assumes "\<forall>w\<in>set ws. w \<noteq> [] \<and> (\<forall>c\<in>set w. \<not> is_space c)"
  shows "Fields (Join ws '' '') = ws"
proof -
  have sp: "is_space CHR '' ''" by (simp add: is_space_def)
  show ?thesis
    unfolding Fields_def using assms
  proof (induction ws)
    case Nil
    then show ?case by simp
  next
    case (Cons w ws)
    show ?case
    proof (cases ws)
      case Nil
      with Cons.prems fields_loop_word [of w "[]" "[]"] show ?thesis by simp
    next
      case (Cons v vs)
      then have "Join (w # ws) '' '' = w @ CHR '' '' # Join ws '' ''" by simp
      with Cons.prems Cons.IH fields_loop_word [of w "[]"] sp show ?thesis by simp
    qed
  qed
qed

text \<open>Hexadecimal round trip.\<close>

lemma hex_val_hex_char: "n < 16 \<Longrightarrow> hex_val (hex_char n) = Some n"
  by (auto simp: hex_val_def hex_char_def Let_def)

lemma hex_DecodeString_EncodeToString: "hex_DecodeString (hex_EncodeToString bs) = Inr bs"
proof (induction bs)
  case Nil
  then show ?case by simp
next
  case (Cons b bs)
  have b: "unat b < 256" using unsigned_less [of b] by simp
  then have "unat b div 16 < 16" "unat b mod 16 < 16" by auto
  then have "hex_val (hex_char (unat b div 16)) = Some (unat b div 16)"
    "hex_val (hex_char (unat b mod 16)) = Some (unat b mod 16)" by (simp_all add: hex_val_hex_char)
  moreover have "of_nat (16 * (unat b div 16) + unat b mod 16) = b" by simp
  ultimately show ?case using Cons by simp
qed

lemma hex_DecodeString_length: "hex_DecodeString s = Inr bs \<Longrightarrow> length s = 2 * length bs"
  by (induction s arbitrary: bs rule: hex_DecodeString.induct) (auto split: option.splits sum.splits)

end
