(* ===== verification/NetIP.thy ===== *)
theory NetIP
  imports GoStrings
begin

text \<open>
  The part of Go's \<^verbatim>\<open>net\<close> and \<^verbatim>\<open>net/netip\<close> packages the repository calls: parsing
  and printing of addresses and CIDR prefixes. A \<^verbatim>\<open>net.IP\<close> is its slice of octets. The error
  values of the parsers are never inspected by the callers, so a parser returns an option.
  The round trips at the end are what the flow-description component relies on.
\<close>

section \<open>Parsing\<close>

datatype netip_addr = Addr4 "byte list" | Addr6 "byte list" string

definition v4InV6Prefix :: "byte list" where
  "v4InV6Prefix = [0, 0, 0, 0, 0, 0, 0, 0, 0, 0, 0xff, 0xff]"

fun As16 :: "netip_addr \<Rightarrow> byte list" where
  "As16 (Addr4 b) = v4InV6Prefix @ b"
| "As16 (Addr6 b zone) = b"

fun Zone :: "netip_addr \<Rightarrow> string" where
  "Zone (Addr4 b) = []"
| "Zone (Addr6 b zone) = zone"

fun BitLen :: "netip_addr \<Rightarrow> nat" where
  "BitLen (Addr4 b) = 32"
| "BitLen (Addr6 b zone) = 128"

text \<open>
  The loop over a dotted quad. \<open>start\<close> says that the previous character is a dot or that
  there is none; \<open>fs\<close> are the octets completed so far.
\<close>

fun parseIPv4Fields :: "bool \<Rightarrow> nat \<Rightarrow> nat \<Rightarrow> byte list \<Rightarrow> string \<Rightarrow> byte list option" where
  "parseIPv4Fields start digLen val fs [] =
     (if length fs < 3 then None else Some (fs @ [of_nat val]))"
| "parseIPv4Fields start digLen val fs (c # s) =
     (if is_digit c then
        if digLen = 1 \<and> val = 0 then None
        else let v = val * 10 + digit_val c in
          if 255 < v then None else parseIPv4Fields False (digLen + 1) v fs s
      else if c = CHR ''.'' then
        if start \<or> s = [] then None
        else if length fs = 3 then None
        else parseIPv4Fields True 0 0 (fs @ [of_nat val]) s
      else None)"

definition parseIPv4 :: "string \<Rightarrow> byte list option" where
  "parseIPv4 s = parseIPv4Fields True 0 0 [] s"

definition is_hex :: "char \<Rightarrow> bool" where
  "is_hex c \<longleftrightarrow> hex_val c \<noteq> None"

definition hex_value :: "string \<Rightarrow> nat" where
  "hex_value s = foldl (\<lambda>acc c. 16 * acc + the (hex_val c)) 0 s"

definition group_bytes :: "nat \<Rightarrow> byte list" where
  "group_bytes v = [of_nat (v div 256), of_nat v]"

text \<open>
  The loop over colon-separated groups. \<open>acc\<close> holds the octets read, \<open>ell\<close> the position of
  the \<^verbatim>\<open>::\<close>; the result adds the text that is left.
\<close>

function parse6_loop :: "byte list \<Rightarrow> nat option \<Rightarrow> string \<Rightarrow> (byte list \<times> nat option \<times> string) option" where
  "parse6_loop acc ell s =
     (if 16 \<le> length acc then Some (acc, ell, s)
      else let ds = takeWhile is_hex s; rest = dropWhile is_hex s in
        if 4 < length ds then None
        else if ds = [] then None
        else let acc' = acc @ group_bytes (hex_value ds) in
          case rest of
            [] \<Rightarrow> Some (acc', ell, [])
          | c # r \<Rightarrow>
              if c = CHR ''.'' then
                if ell = None \<and> length acc \<noteq> 12 then None
                else if 16 < length acc + 4 then None
                else map_option (\<lambda>f. (acc @ f, ell, [])) (parseIPv4Fields True 0 0 [] s)
              else if c \<noteq> CHR '':'' then None
              else case r of
                [] \<Rightarrow> None
              | c2 # r2 \<Rightarrow>
                  if c2 = CHR '':'' then
                    if ell \<noteq> None then None
                    else if r2 = [] then Some (acc', Some (length acc'), [])
                    else parse6_loop acc' (Some (length acc')) r2
                  else parse6_loop acc' ell r)"
  by pat_completeness auto
termination
  by (relation "measure (\<lambda>(acc, ell, s). 16 - length acc)") (auto simp: group_bytes_def)

declare parse6_loop.simps [simp del]

definition expand6 :: "byte list \<times> nat option \<times> string \<Rightarrow> byte list option" where
  "expand6 = (\<lambda>(ip, ell, s).
     if s \<noteq> [] then None
     else if length ip < 16 then
       (case ell of None \<Rightarrow> None
        | Some e \<Rightarrow> Some (take e ip @ replicate (16 - length ip) 0 @ drop e ip))
     else if ell \<noteq> None then None
     else Some ip)"

definition parse6_body :: "string \<Rightarrow> byte list option" where
  "parse6_body s =
     (case s of
        CHR '':'' # CHR '':'' # r \<Rightarrow>
          if r = [] then Some (replicate 16 0)
          else Option.bind (parse6_loop [] (Some 0) r) expand6
      | _ \<Rightarrow> Option.bind (parse6_loop [] None s) expand6)"

definition not_percent :: "char \<Rightarrow> bool" where
  "not_percent c \<longleftrightarrow> c \<noteq> CHR ''%''"

definition parseIPv6 :: "string \<Rightarrow> netip_addr option" where
  "parseIPv6 s =
     (case dropWhile not_percent s of
        [] \<Rightarrow> map_option (\<lambda>b. Addr6 b []) (parse6_body s)
      | _ # zone \<Rightarrow>
          if zone = [] then None
          else map_option (\<lambda>b. Addr6 b zone) (parse6_body (takeWhile not_percent s)))"

text \<open>The first of dot, colon and percent sign decides the family.\<close>

fun addr_family :: "string \<Rightarrow> char option" where
  "addr_family [] = None"
| "addr_family (c # s) = (if c \<in> {CHR ''.'', CHR '':'', CHR ''%''} then Some c else addr_family s)"

definition ParseAddr :: "string \<Rightarrow> netip_addr option" where
  "ParseAddr s =
     (case addr_family s of
        None \<Rightarrow> None
      | Some c \<Rightarrow> if c = CHR ''.'' then map_option Addr4 (parseIPv4 s)
                  else if c = CHR '':'' then parseIPv6 s
                  else None)"

definition ParseIP :: "string \<Rightarrow> byte list option" where
  "ParseIP s =
     (case ParseAddr s of
        None \<Rightarrow> None
      | Some a \<Rightarrow> if Zone a \<noteq> [] then None else Some (As16 a))"

text \<open>\<^verbatim>\<open>dtoi\<close> with the checks its caller makes: the whole text is digits, below \<^verbatim>\<open>0xFFFFFF\<close>.\<close>

definition dtoi_all :: "string \<Rightarrow> nat option" where
  "dtoi_all s = (case ParseUint (0xFFFFFF - 1) s of Inl e \<Rightarrow> None | Inr n \<Rightarrow> Some n)"

record IPNet =
  net_IP :: "byte list"
  net_Mask :: "byte list"

text \<open>\<^verbatim>\<open>CIDRMask\<close>: \<open>ones\<close> one bits in \<open>bits / 8\<close> octets.\<close>

definition mask_byte :: "nat \<Rightarrow> byte" where
  "mask_byte n = (if 8 \<le> n then 0xff else NOT (drop_bit n 0xff))"

definition CIDRMask :: "nat \<Rightarrow> nat \<Rightarrow> byte list" where
  "CIDRMask ones bits = map (\<lambda>i. mask_byte (ones - 8 * i)) [0..<bits div 8]"

definition IP_Mask :: "byte list \<Rightarrow> byte list \<Rightarrow> byte list option" where
  "IP_Mask ip mask0 =
     (let mask1 = (if length mask0 = 16 \<and> length ip = 4 \<and> take 12 mask0 = replicate 12 0xff
                   then drop 12 mask0 else mask0);
          ip1 = (if length mask1 = 4 \<and> length ip = 16 \<and> take 12 ip = v4InV6Prefix
                 then drop 12 ip else ip)
      in if length ip1 \<noteq> length mask1 then None
         else Some (map2 (AND) ip1 mask1))"

text \<open>The text before and after the first slash.\<close>

definition not_slash :: "char \<Rightarrow> bool" where
  "not_slash c \<longleftrightarrow> c \<noteq> CHR ''/''"

definition ParseCIDR :: "string \<Rightarrow> (byte list \<times> IPNet) option" where
  "ParseCIDR s =
     (case dropWhile not_slash s of
        [] \<Rightarrow> None
      | _ # ones \<Rightarrow>
          (case ParseAddr (takeWhile not_slash s) of
             None \<Rightarrow> None
           | Some a \<Rightarrow>
               if Zone a \<noteq> [] then None
               else (case dtoi_all ones of
                   None \<Rightarrow> None
                 | Some n \<Rightarrow>
                     if BitLen a < n then None
                     else let m = CIDRMask n (BitLen a) in
                       (case IP_Mask (As16 a) m of
                          None \<Rightarrow> None
                        | Some ip \<Rightarrow> Some (As16 a, \<lparr>net_IP = ip, net_Mask = m\<rparr>)))))"

section \<open>Printing\<close>

definition To4 :: "byte list \<Rightarrow> byte list option" where
  "To4 ip = (if length ip = 4 then Some ip
             else if length ip = 16 \<and> take 12 ip = v4InV6Prefix then Some (drop 12 ip)
             else None)"

definition string4 :: "byte list \<Rightarrow> string" where
  "string4 b = Join (map (\<lambda>x. Itoa (unat x)) b) ''.''"

fun hex_nat :: "nat \<Rightarrow> string" where
  "hex_nat n = (if n < 16 then [hex_char n] else hex_nat (n div 16) @ [hex_char (n mod 16)])"

declare hex_nat.simps [simp del]

fun v6_groups :: "byte list \<Rightarrow> nat list" where
  "v6_groups (a # b # r) = (256 * unat a + unat b) # v6_groups r"
| "v6_groups _ = []"

text \<open>The first of the longest runs of at least two zero groups: its start and its end.\<close>

fun zero_run :: "nat list \<Rightarrow> nat" where
  "zero_run [] = 0"
| "zero_run (g # gs) = (if g = 0 then zero_run gs + 1 else 0)"

fun longest_zero_run :: "nat \<Rightarrow> nat list \<Rightarrow> nat \<times> nat \<Rightarrow> nat \<times> nat" where
  "longest_zero_run i [] best = best"
| "longest_zero_run i (g # gs) best =
     (let l = zero_run (g # gs);
          best' = (if 2 \<le> l \<and> snd best - fst best < l then (i, i + l) else best)
      in longest_zero_run (i + 1) gs best')"

definition string6 :: "byte list \<Rightarrow> string" where
  "string6 ip =
     (let gs = v6_groups ip; (zs, ze) = longest_zero_run 0 gs (255, 255) in
      if zs = 255 then Join (map hex_nat gs) '':''
      else Join (map hex_nat (take zs gs)) '':'' @ ''::'' @ Join (map hex_nat (drop ze gs)) '':'')"

definition IP_String :: "byte list \<Rightarrow> string" where
  "IP_String ip =
     (if ip = [] then ''<nil>''
      else if length ip \<noteq> 4 \<and> length ip \<noteq> 16 then ''?'' @ hex_EncodeToString ip
      else case To4 ip of Some p4 \<Rightarrow> string4 p4 | None \<Rightarrow> string6 ip)"

text \<open>\<^verbatim>\<open>simpleMaskLength\<close>: the number of leading ones of a mask that is ones then zeros.\<close>

fun byte_ones :: "byte \<Rightarrow> nat option" where
  "byte_ones b = find (\<lambda>n. mask_byte n = b) [0..<9]"

fun simpleMaskLength :: "byte list \<Rightarrow> nat option" where
  "simpleMaskLength [] = Some 0"
| "simpleMaskLength (b # bs) =
     (if b = 0xff then map_option ((+) 8) (simpleMaskLength bs)
      else if \<forall>x\<in>set bs. x = 0 then byte_ones b else None)"

definition networkNumberAndMask :: "IPNet \<Rightarrow> (byte list \<times> byte list) option" where
  "networkNumberAndMask n =
     (let ip = (case To4 (net_IP n) of Some p4 \<Rightarrow> p4 | None \<Rightarrow> net_IP n); m = net_Mask n in
      if length ip \<noteq> 4 \<and> length ip \<noteq> 16 then None
      else if length m = 4 then (if length ip \<noteq> 4 then None else Some (ip, m))
      else if length m = 16 then Some (ip, if length ip = 4 then drop 12 m else m)
      else None)"

definition IPNet_String :: "IPNet \<Rightarrow> string" where
  "IPNet_String n =
     (case networkNumberAndMask n of
        None \<Rightarrow> ''<nil>''
      | Some (nn, m) \<Rightarrow>
          (case simpleMaskLength m of
             None \<Rightarrow> IP_String nn @ ''/'' @ hex_EncodeToString m
           | Some l \<Rightarrow> IP_String nn @ ''/'' @ Itoa l))"

section \<open>IPv4 round trip\<close>

lemma parseIPv4Fields_Itoa:
  assumes "v < 256"
  shows "parseIPv4Fields True 0 0 fs (Itoa v @ s) = parseIPv4Fields False (length (Itoa v)) v fs s"
proof -
  consider "v < 10" | "10 \<le> v" "v < 100" | "100 \<le> v" "v < 1000" using assms by linarith
  then show ?thesis
  proof cases
    case 1
    then show ?thesis by (simp add: Itoa_1)
  next
    case 2
    then have n: "v div 10 < 10" "\<not> 255 < v div 10" "\<not> 255 < v" by auto
    have "v div 10 \<noteq> 0" "v div 10 * 10 + v mod 10 = v" using 2 by auto
    then show ?thesis using 2 by (simp add: Itoa_2 Let_def n)
  next
    case 3
    then have n: "v div 100 < 10" "\<not> 255 < v div 10" "\<not> 255 < v div 100" using assms by auto
    have "v div 100 \<noteq> 0" using 3 by auto
    moreover have "v div 100 * 10 + v div 10 mod 10 = v div 10"
      using div_mult_mod_eq [of "v div 10" 10] by (simp add: div_mult2_eq [symmetric])
    moreover have "v div 10 * 10 + v mod 10 = v" by simp
    ultimately show ?thesis using 3 assms by (simp add: Itoa_3 Let_def n)
  qed
qed

lemma not_digit_punct [simp]: "\<not> is_digit CHR ''.''" "\<not> is_digit CHR ''/''" "\<not> is_digit CHR '':''"
  "\<not> is_digit CHR ''%''"
  by (simp_all add: is_digit_def)

lemma unat_byte_less [simp]: "unat (x :: byte) < 256"
  using unsigned_less [of x] by simp

lemma parseIPv4_string4:
  assumes "length b = 4"
  shows "parseIPv4 (string4 b) = Some b"
proof -
  obtain b0 b1 b2 b3 where b: "b = [b0, b1, b2, b3]"
    using assms by (auto simp: numeral_eq_Suc length_Suc_conv)
  have "string4 b = Itoa (unat b0) @ CHR ''.'' # Itoa (unat b1) @ CHR ''.'' # Itoa (unat b2) @
      CHR ''.'' # Itoa (unat b3) @ []"
    by (simp add: b string4_def)
  then show ?thesis by (simp only: parseIPv4_def parseIPv4Fields_Itoa unat_byte_less) (simp add: b parseIPv4Fields_Itoa parseIPv4Fields_Itoa [where s = "[]", simplified])
qed

section \<open>IPv6 round trip\<close>

lemma hex_nat_not_Nil [simp]: "hex_nat n \<noteq> []"
  by (subst hex_nat.simps) simp

lemma hex_char_is_hex: "n < 16 \<Longrightarrow> is_hex (hex_char n)"
  by (simp add: is_hex_def hex_val_hex_char)

lemma hex_nat_digits: "c \<in> set (hex_nat n) \<Longrightarrow> \<exists>d < 16. c = hex_char d"
proof (induction n rule: hex_nat.induct)
  case (1 n)
  show ?case
  proof (cases "c = hex_char (n mod 16)")
    case True
    then show ?thesis by (intro exI [of _ "n mod 16"]) simp
  next
    case False
    with 1 show ?thesis by (subst (asm) hex_nat.simps) (auto split: if_splits)
  qed
qed

lemma hex_nat_all_hex: "\<forall>c\<in>set (hex_nat n). is_hex c"
  using hex_nat_digits hex_char_is_hex by blast

lemma hex_value_append: "hex_value (s @ [c]) = 16 * hex_value s + the (hex_val c)"
  by (simp add: hex_value_def)

lemma hex_value_hex_nat: "hex_value (hex_nat n) = n"
proof (induction n rule: hex_nat.induct)
  case (1 n)
  then show ?case
    by (subst hex_nat.simps) (auto simp: hex_value_append hex_val_hex_char hex_value_def)
qed

lemma length_hex_nat: "n < 16 ^ Suc k \<Longrightarrow> length (hex_nat n) \<le> Suc k"
proof (induction k arbitrary: n)
  case 0
  then show ?case by (subst hex_nat.simps) simp
next
  case (Suc k)
  then have "n div 16 < 16 ^ Suc k" by (simp add: div_less_iff_less_mult mult.commute)
  with Suc.IH [OF this] show ?case by (subst hex_nat.simps) simp
qed

lemma takeWhile_hex_nat [simp]:
  assumes "rest = [] \<or> \<not> is_hex (hd rest)"
  shows "takeWhile is_hex (hex_nat g @ rest) = hex_nat g" "dropWhile is_hex (hex_nat g @ rest) = rest"
  using hex_nat_all_hex [of g] assms by (cases rest; simp add: takeWhile_append dropWhile_append)+

lemma takeWhile_hex_nat_end [simp]:
  "takeWhile is_hex (hex_nat g) = hex_nat g" "dropWhile is_hex (hex_nat g) = []"
  using hex_nat_all_hex [of g] by simp_all

lemma not_hex_punct [simp]: "\<not> is_hex CHR '':''" "\<not> is_hex CHR ''.''" "\<not> is_hex CHR ''%''"
  by (simp_all add: is_hex_def hex_val_def)

lemma length_hex_group: "g < 65536 \<Longrightarrow> length (hex_nat g) \<le> 4"
  using length_hex_nat [of g 3] by simp

lemma parse6_group_end:
  assumes "g < 65536" "length acc < 16"
  shows "parse6_loop acc ell (hex_nat g) = Some (acc @ group_bytes g, ell, [])"
  using assms length_hex_group [of g]
  by (subst parse6_loop.simps) (simp add: Let_def hex_value_hex_nat)

lemma parse6_group_colon:
  assumes "g < 65536" "length acc < 16" "r \<noteq> []" "hd r \<noteq> CHR '':''"
  shows "parse6_loop acc ell (hex_nat g @ CHR '':'' # r) = parse6_loop (acc @ group_bytes g) ell r"
  using assms length_hex_group [of g]
  by (cases r; subst parse6_loop.simps) (simp_all add: Let_def hex_value_hex_nat)

lemma parse6_group_ellipsis:
  assumes "g < 65536" "length acc < 16"
  shows "parse6_loop acc None (hex_nat g @ CHR '':'' # CHR '':'' # r) =
    (if r = [] then Some (acc @ group_bytes g, Some (length acc + 2), [])
     else parse6_loop (acc @ group_bytes g) (Some (length acc + 2)) r)"
  using assms length_hex_group [of g]
  by (subst parse6_loop.simps) (simp add: Let_def hex_value_hex_nat group_bytes_def)

abbreviation v6_text :: "nat list \<Rightarrow> string" where
  "v6_text gs \<equiv> Join (map hex_nat gs) '':''"

abbreviation groups_bytes :: "nat list \<Rightarrow> byte list" where
  "groups_bytes gs \<equiv> concat (map group_bytes gs)"

lemma length_groups_bytes [simp]: "length (groups_bytes gs) = 2 * length gs"
  by (induction gs) (simp_all add: group_bytes_def)

lemma v6_text_hd: "gs \<noteq> [] \<Longrightarrow> v6_text gs \<noteq> [] \<and> is_hex (hd (v6_text gs @ r))"
proof (cases gs)
  case (Cons g gs')
  have "hex_nat g \<noteq> [] \<and> is_hex (hd (hex_nat g))" using hex_nat_all_hex [of g] by (simp add: list.set_sel)
  with Cons show ?thesis by (cases "gs' = []") (simp_all add: Join_Cons)
qed simp

lemma hex_not_colon: "is_hex c \<Longrightarrow> c \<noteq> CHR '':''" by auto

lemma parse6_text_end:
  assumes "gs \<noteq> []" "\<forall>g\<in>set gs. g < 65536" "length acc + 2 * length gs \<le> 16"
  shows "parse6_loop acc ell (v6_text gs) = Some (acc @ groups_bytes gs, ell, [])"
  using assms
proof (induction gs arbitrary: acc)
  case (Cons g gs)
  show ?case
  proof (cases "gs = []")
    case True
    with Cons.prems show ?thesis by (simp add: parse6_group_end)
  next
    case False
    have "hd (v6_text gs) \<noteq> CHR '':''" "v6_text gs \<noteq> []"
      using v6_text_hd [OF False, of "[]"] by (auto dest: hex_not_colon)
    with Cons False show ?thesis
      by (simp add: Join_Cons parse6_group_colon group_bytes_def)
  qed
qed simp

lemma parse6_text_ellipsis:
  assumes "gs \<noteq> []" "\<forall>g\<in>set gs. g < 65536" "length acc + 2 * length gs \<le> 16"
  shows "parse6_loop acc None (v6_text gs @ CHR '':'' # CHR '':'' # r) =
    (if r = [] then Some (acc @ groups_bytes gs, Some (length acc + 2 * length gs), [])
     else parse6_loop (acc @ groups_bytes gs) (Some (length acc + 2 * length gs)) r)"
  using assms
proof (induction gs arbitrary: acc)
  case (Cons g gs)
  show ?case
  proof (cases "gs = []")
    case True
    with Cons.prems show ?thesis by (simp add: parse6_group_ellipsis)
  next
    case False
    let ?t = "v6_text gs @ CHR '':'' # CHR '':'' # r"
    have "hd ?t \<noteq> CHR '':''" "?t \<noteq> []"
      using v6_text_hd [OF False, of "CHR '':'' # CHR '':'' # r"] by (auto dest: hex_not_colon)
    then have "parse6_loop acc None (hex_nat g @ CHR '':'' # ?t) = parse6_loop (acc @ group_bytes g) None ?t"
      using Cons.prems by (intro parse6_group_colon) auto
    with Cons False show ?thesis by (simp add: Join_Cons group_bytes_def)
  qed
qed simp

lemma v6_groups_bytes: "even (length b) \<Longrightarrow> groups_bytes (v6_groups b) = b"
proof (induction b rule: v6_groups.induct)
  case (1 a b r)
  have "(256 * unat a + unat b) div 256 = unat a" by simp
  moreover have "(of_nat (256 * unat a + unat b) :: byte) = b"
  proof -
    have "(of_nat (256 * unat a) :: byte) = 0" by (simp only: word_of_nat_eq_0_iff) simp
    then show ?thesis by (simp only: of_nat_add) simp
  qed
  ultimately show ?case using 1 by (simp add: group_bytes_def del: of_nat_add of_nat_mult)
qed auto

lemma v6_groups_facts: "\<forall>g\<in>set (v6_groups b). g < 65536" "length (v6_groups b) = length b div 2"
proof -
  have "256 * unat a + unat (c :: byte) < 65536" for a c :: byte
    using unat_byte_less [of a] unat_byte_less [of c] by linarith
  then show "\<forall>g\<in>set (v6_groups b). g < 65536" by (induction b rule: v6_groups.induct) auto
  show "length (v6_groups b) = length b div 2" by (induction b rule: v6_groups.induct) auto
qed

lemma zero_run_spec: "zero_run gs \<le> length gs \<and> take (zero_run gs) gs = replicate (zero_run gs) 0"
  by (induction gs) auto

definition run_ok :: "nat list \<Rightarrow> nat \<times> nat \<Rightarrow> bool" where
  "run_ok gs = (\<lambda>(zs, ze). (zs = 255 \<and> ze = 255) \<or>
     (zs + 2 \<le> ze \<and> ze \<le> length gs \<and> take (ze - zs) (drop zs gs) = replicate (ze - zs) 0))"

lemma longest_zero_run_ok:
  "run_ok gs best \<Longrightarrow> gs = pre @ suf \<Longrightarrow> run_ok gs (longest_zero_run (length pre) suf best)"
proof (induction suf arbitrary: pre best)
  case (Cons g suf)
  let ?l = "zero_run (g # suf)"
  have "run_ok gs (length pre, length pre + ?l)" if "2 \<le> ?l"
    using that zero_run_spec [of "g # suf"] Cons.prems(2) by (simp add: run_ok_def)
  then have "run_ok gs (if 2 \<le> ?l \<and> snd best - fst best < ?l then (length pre, length pre + ?l) else best)"
    using Cons.prems(1) by simp
  from Cons.IH [OF this, of "pre @ [g]"] Cons.prems(2) show ?case by (simp add: Let_def del: zero_run.simps)
qed simp

lemma parse6_body_hex:
  "s \<noteq> [] \<Longrightarrow> is_hex (hd s) \<Longrightarrow> parse6_body s = Option.bind (parse6_loop [] None s) expand6"
  by (cases s) (auto simp: parse6_body_def split: char.splits bool.splits)

lemma parse6_plain_text:
  assumes "length gs = 8" "\<forall>g\<in>set gs. g < 65536"
  shows "parse6_body (v6_text gs) = Some (groups_bytes gs)"
proof -
  from assms(1) have "gs \<noteq> []" by auto
  with v6_text_hd [of gs "[]"] have "is_hex (hd (v6_text gs))" "v6_text gs \<noteq> []" by auto
  with assms \<open>gs \<noteq> []\<close> show ?thesis
    by (simp add: parse6_body_hex parse6_text_end expand6_def)
qed

lemma parse6_ellipsis_text:
  assumes "\<forall>g\<in>set as. g < 65536" "\<forall>g\<in>set bs. g < 65536" "length as + length bs < 8"
  shows "parse6_body (v6_text as @ ''::'' @ v6_text bs) =
    Some (groups_bytes as @ replicate (16 - 2 * (length as + length bs)) 0 @ groups_bytes bs)"
proof (cases "as = []")
  case True
  show ?thesis
  proof (cases "bs = []")
    case False
    with v6_text_hd [of bs "[]"] have "v6_text bs \<noteq> []" by auto
    with True False assms show ?thesis
      by (simp add: parse6_body_def parse6_text_end expand6_def)
  qed (simp add: True parse6_body_def)
next
  case False
  let ?s = "v6_text as @ ''::'' @ v6_text bs"
  have "is_hex (hd ?s)" "?s \<noteq> []" using v6_text_hd [OF False, of "''::'' @ v6_text bs"] by auto
  then have body: "parse6_body ?s = Option.bind (parse6_loop [] None ?s) expand6"
    by (simp only: parse6_body_hex not_False_eq_True)
  have "parse6_loop [] None ?s =
     (if v6_text bs = [] then Some (groups_bytes as, Some (2 * length as), [])
      else parse6_loop (groups_bytes as) (Some (2 * length as)) (v6_text bs))"
    using parse6_text_ellipsis [of as "[]" "v6_text bs"] False assms by simp
  moreover have "v6_text bs = [] \<longleftrightarrow> bs = []" using v6_text_hd [of bs "[]"] by auto
  moreover have "parse6_loop (groups_bytes as) (Some (2 * length as)) (v6_text bs) =
      Some (groups_bytes as @ groups_bytes bs, Some (2 * length as), [])" if "bs \<noteq> []"
    using that assms by (simp add: parse6_text_end)
  ultimately have "parse6_loop [] None ?s = Some (groups_bytes as @ groups_bytes bs, Some (2 * length as), [])"
    by auto
  with body assms show ?thesis by (simp add: expand6_def)
qed

lemma parse6_string6:
  assumes "length b = 16"
  shows "parse6_body (string6 b) = Some b"
proof -
  define gs where "gs = v6_groups b"
  have gs: "length gs = 8" "\<forall>g\<in>set gs. g < 65536" "groups_bytes gs = b"
    using assms by (simp_all add: gs_def v6_groups_facts v6_groups_bytes)
  obtain zs ze where run: "longest_zero_run 0 gs (255, 255) = (zs, ze)" by (cases "longest_zero_run 0 gs (255, 255)")
  have ok: "run_ok gs (zs, ze)"
    using longest_zero_run_ok [of gs "(255, 255)" "[]" gs] run by (simp add: run_ok_def)
  show ?thesis
  proof (cases "zs = 255")
    case True
    with gs run show ?thesis by (simp add: string6_def gs_def [symmetric] parse6_plain_text)
  next
    case False
    with ok gs(1) have z: "zs + 2 \<le> ze" "ze \<le> 8" "take (ze - zs) (drop zs gs) = replicate (ze - zs) 0"
      by (auto simp: run_ok_def)
    have "drop zs gs = replicate (ze - zs) 0 @ drop ze gs"
      using z append_take_drop_id [of "ze - zs" "drop zs gs"] by simp
    then have "gs = take zs gs @ replicate (ze - zs) 0 @ drop ze gs"
      using append_take_drop_id [of zs gs] by simp
    from arg_cong [OF this, of groups_bytes]
    have "b = groups_bytes (take zs gs) @ groups_bytes (replicate (ze - zs) 0) @ groups_bytes (drop ze gs)"
      using gs(3) by simp
    moreover have "groups_bytes (replicate n 0) = replicate (2 * n) 0" for n
      by (induction n) (simp_all add: group_bytes_def)
    moreover have "16 - 2 * (zs + (8 - ze)) = 2 * (ze - zs)" using z by simp
    moreover have "\<forall>g\<in>set (take zs gs). g < 65536" "\<forall>g\<in>set (drop ze gs). g < 65536"
      using gs(2) by (meson in_set_takeD in_set_dropD)+
    ultimately have "parse6_body (v6_text (take zs gs) @ ''::'' @ v6_text (drop ze gs)) = Some b"
      using z gs(1) parse6_ellipsis_text [of "take zs gs" "drop ze gs"] by simp
    moreover have "string6 b = v6_text (take zs gs) @ ''::'' @ v6_text (drop ze gs)"
      using run False by (simp add: string6_def gs_def [symmetric])
    ultimately show ?thesis by simp
  qed
qed

section \<open>Addresses and prefixes\<close>

lemma parseIPv4Fields_length:
  "parseIPv4Fields st d v fs s = Some b \<Longrightarrow> length fs \<le> 3 \<Longrightarrow> length b = 4"
  by (induction st d v fs s rule: parseIPv4Fields.induct) (auto simp: Let_def split: if_splits)

lemma parse6_loop_cases:
  assumes "parse6_loop acc ell s = Some (b, e, r)"
  shows "16 \<le> length acc \<and> b = acc \<or>
    length acc < 16 \<and> (\<exists>g. b = acc @ group_bytes g) \<or>
    length acc < 16 \<and> (\<exists>f. length f = 4 \<and> length acc + 4 \<le> 16 \<and> b = acc @ f) \<or>
    length acc < 16 \<and> (\<exists>g ell' s'. parse6_loop (acc @ group_bytes g) ell' s' = Some (b, e, r))"
proof -
  define rest where "rest = dropWhile is_hex s"
  note eq = assms [unfolded parse6_loop.simps [of acc ell s] Let_def, folded rest_def]
  show ?thesis
  proof (cases "16 \<le> length acc")
    case False
    show ?thesis
    proof (cases rest)
      case (Cons c t)
      with False eq show ?thesis
        by (cases t) (auto dest: parseIPv4Fields_length split: if_splits)
    qed (use False eq in \<open>auto split: if_splits\<close>)
  qed (use eq in auto)
qed

lemma parse6_loop_length:
  "parse6_loop acc ell s = Some (b, e, r) \<Longrightarrow> even (length acc) \<Longrightarrow> length acc \<le> 16 \<Longrightarrow> length b \<le> 16"
proof (induction "16 - length acc" arbitrary: acc ell s rule: less_induct)
  case less
  show ?case
  proof (cases "16 \<le> length acc")
    case True
    with parse6_loop_cases [OF less.prems(1)] less.prems(3) show ?thesis by auto
  next
    case False
    with less.prems(2) have l: "length acc + 2 \<le> 16" by presburger
    have g: "length (acc @ group_bytes g) = length acc + 2" for g by (simp add: group_bytes_def)
    from parse6_loop_cases [OF less.prems(1)] False consider
      g where "b = acc @ group_bytes g" | f where "b = acc @ f" "length acc + length f \<le> 16" |
      g ell' s' where "parse6_loop (acc @ group_bytes g) ell' s' = Some (b, e, r)"
      by auto
    then show ?thesis
    proof cases
      case 1
      with g l show ?thesis by simp
    next
      case 2
      then show ?thesis by simp
    next
      case 3
      from less.hyps [OF _ 3] show ?thesis using False less.prems(2) l by (simp add: group_bytes_def)
    qed
  qed
qed

lemma expand6_length: "expand6 (ip, e, r) = Some b \<Longrightarrow> length ip \<le> 16 \<Longrightarrow> length b = 16"
  by (auto simp: expand6_def split: if_splits option.splits)

lemma parse6_bind_length: "Option.bind (parse6_loop [] e s) expand6 = Some b \<Longrightarrow> length b = 16"
  by (cases "parse6_loop [] e s") (auto dest!: parse6_loop_length expand6_length)

lemma parse6_body_length: "parse6_body s = Some b \<Longrightarrow> length b = 16"
  unfolding parse6_body_def
  by (auto dest: parse6_bind_length split: list.splits char.splits bool.splits if_splits)

lemma ParseAddr_length:
  "ParseAddr s = Some (Addr4 b) \<Longrightarrow> length b = 4"
  "ParseAddr s = Some (Addr6 b z) \<Longrightarrow> length b = 16"
  by (auto simp: ParseAddr_def parseIPv4_def parseIPv6_def parseIPv4Fields_length parse6_body_length
      split: option.splits if_splits list.splits)

text \<open>The characters of printed addresses.\<close>

definition addr_char :: "char \<Rightarrow> bool" where
  "addr_char c \<longleftrightarrow> is_hex c \<and> \<not> is_upper c \<or> c \<in> {CHR ''.'', CHR '':''}"

lemma hex_char_lower: "n < 16 \<Longrightarrow> addr_char (hex_char n)"
  using hex_char_is_hex [of n] by (simp add: addr_char_def is_upper_def) (simp add: hex_char_def)

lemma digit_addr_char: "is_digit c \<Longrightarrow> addr_char c"
  by (auto simp: addr_char_def is_digit_def is_hex_def hex_val_def is_upper_def Let_def)

lemma addr_char_facts:
  assumes "addr_char c"
  shows "\<not> is_upper c" "\<not> is_space c" "c \<noteq> CHR ''%''" "c \<noteq> CHR ''/''" "c \<noteq> CHR ''!''"
    "not_slash c" "not_percent c" "c \<noteq> CHR ''n''" "c \<noteq> CHR ''s''"
  using assms
  by (auto simp: addr_char_def is_hex_def hex_val_def is_upper_def is_space_def Let_def not_slash_def
      not_percent_def split: if_splits)

lemma set_Join: "set (Join ws sep) \<subseteq> \<Union> (set (map set ws)) \<union> set sep"
  by (induction ws sep rule: Join.induct) auto

lemma string4_chars: "\<forall>c\<in>set (string4 b). addr_char c \<and> c \<noteq> CHR '':''"
proof -
  have "set (string4 b) \<subseteq> (\<Union>x\<in>set b. set (Itoa (unat x))) \<union> {CHR ''.''}"
    using set_Join [of "map (\<lambda>x. Itoa (unat x)) b" "''.''"] by (auto simp: string4_def)
  moreover have "addr_char CHR ''.''" by (simp add: addr_char_def)
  moreover have "addr_char c \<and> c \<noteq> CHR '':''" if "c \<in> set (Itoa n)" for c n
    using that Itoa_digits [of n] digit_addr_char [of c] digit_not_special(7) [of c] by blast
  ultimately show ?thesis by fast
qed

lemma v6_text_chars: "\<forall>c\<in>set (v6_text gs). addr_char c \<and> c \<noteq> CHR ''.''"
proof -
  have "set (v6_text gs) \<subseteq> (\<Union>g\<in>set gs. set (hex_nat g)) \<union> {CHR '':''}"
    using set_Join [of "map hex_nat gs" "'':''"] by auto
  moreover have "addr_char CHR '':''" by (simp add: addr_char_def)
  moreover have "addr_char c \<and> c \<noteq> CHR ''.''" if "c \<in> set (hex_nat g)" for c g
    using hex_nat_digits [OF that] hex_nat_all_hex [of g] that hex_char_lower by fastforce
  ultimately show ?thesis by fastforce
qed

lemma string6_chars: "\<forall>c\<in>set (string6 b). addr_char c \<and> c \<noteq> CHR ''.''"
proof -
  have "addr_char CHR '':''" by (simp add: addr_char_def)
  then show ?thesis
    using v6_text_chars by (auto simp: string6_def Let_def split: prod.splits if_splits)
qed

lemma addr_family_colon:
  "\<forall>c\<in>set s. c \<noteq> CHR ''.'' \<and> c \<noteq> CHR ''%'' \<Longrightarrow> CHR '':'' \<in> set s \<Longrightarrow> addr_family s = Some CHR '':''"
  by (induction s) auto

lemma addr_family_dot:
  "\<forall>c\<in>set s. c \<noteq> CHR '':'' \<and> c \<noteq> CHR ''%'' \<Longrightarrow> CHR ''.'' \<in> set s \<Longrightarrow> addr_family s = Some CHR ''.''"
  by (induction s) auto

lemma ParseAddr_string4:
  assumes "length b = 4"
  shows "ParseAddr (string4 b) = Some (Addr4 b)"
proof -
  have "CHR ''.'' \<in> set (string4 b)"
    using assms by (auto simp: string4_def numeral_eq_Suc length_Suc_conv)
  moreover have "\<forall>c\<in>set (string4 b). c \<noteq> CHR '':'' \<and> c \<noteq> CHR ''%''"
    using string4_chars [of b] by (auto dest: addr_char_facts(3))
  ultimately have "addr_family (string4 b) = Some CHR ''.''" by (intro addr_family_dot)
  with assms show ?thesis by (simp add: ParseAddr_def parseIPv4_string4)
qed

lemma colon_in_v6_text: "2 \<le> length gs \<Longrightarrow> CHR '':'' \<in> set (v6_text gs)"
proof -
  assume "2 \<le> length gs"
  then obtain g h gs' where "gs = g # h # gs'" by (auto simp: Suc_le_length_iff numeral_eq_Suc)
  then show ?thesis by simp
qed

lemma ParseAddr_string6:
  assumes "length b = 16"
  shows "ParseAddr (string6 b) = Some (Addr6 b [])"
proof -
  have "CHR '':'' \<in> set (v6_text (v6_groups b))"
    using assms by (intro colon_in_v6_text) (simp add: v6_groups_facts)
  then have "CHR '':'' \<in> set (string6 b)"
    by (cases "longest_zero_run 0 (v6_groups b) (255, 255)") (simp add: string6_def Let_def)
  moreover have c: "\<forall>c\<in>set (string6 b). c \<noteq> CHR ''.'' \<and> c \<noteq> CHR ''%'' \<and> not_percent c"
    using string6_chars [of b] by (auto dest: addr_char_facts(3,7))
  ultimately have "addr_family (string6 b) = Some CHR '':''" by (intro addr_family_colon) auto
  moreover have d: "dropWhile not_percent (string6 b) = []" using c by simp
  ultimately show ?thesis using assms by (simp add: ParseAddr_def parseIPv6_def parse6_string6 d)
qed

lemma To4_Some16: "length ip = 16 \<Longrightarrow> To4 ip = Some p \<Longrightarrow> length p = 4 \<and> ip = v4InV6Prefix @ p"
  by (auto simp: To4_def split: if_splits) (metis append_take_drop_id)

text \<open>Printing an address and parsing it gives back its 16-octet form.\<close>

lemma ParseIP_IP_String:
  assumes "length ip = 16"
  shows "ParseIP (IP_String ip) = Some ip"
proof (cases "To4 ip")
  case None
  with assms show ?thesis by (auto simp: IP_String_def ParseIP_def ParseAddr_string6)
next
  case (Some p)
  with To4_Some16 [OF assms Some] assms show ?thesis
    by (auto simp: IP_String_def ParseIP_def ParseAddr_string4)
qed

lemma ParseIP_length: "ParseIP s = Some ip \<Longrightarrow> length ip = 16"
proof (cases "ParseAddr s")
  case (Some a)
  then show "ParseIP s = Some ip \<Longrightarrow> length ip = 16"
    by (cases a) (auto simp: ParseIP_def v4InV6Prefix_def ParseAddr_length split: if_splits)
qed (simp add: ParseIP_def)

lemma IP_String_chars: "length ip = 4 \<or> length ip = 16 \<Longrightarrow> \<forall>c\<in>set (IP_String ip). addr_char c"
proof
  fix c
  assume "length ip = 4 \<or> length ip = 16" "c \<in> set (IP_String ip)"
  then have "(\<exists>p. c \<in> set (string4 p)) \<or> c \<in> set (string6 ip)"
    by (cases "To4 ip") (auto simp: IP_String_def split: if_splits)
  then show "addr_char c" using string4_chars string6_chars by blast
qed

text \<open>Masks.\<close>

lemma length_CIDRMask [simp]: "length (CIDRMask k bits) = bits div 8"
  by (simp add: CIDRMask_def)

lemma CIDRMask_Suc: "CIDRMask k (8 * Suc n) = mask_byte k # CIDRMask (k - 8) (8 * n)"
  unfolding CIDRMask_def by (simp add: upt_conv_Cons map_Suc_upt [symmetric] del: upt_Suc)

lemma mask_byte_0 [simp]: "mask_byte 0 = 0"
  by (simp add: mask_byte_def)

lemma CIDRMask_0: "CIDRMask 0 (8 * n) = replicate n 0"
  by (simp add: CIDRMask_def map_replicate_trivial)

lemma byte_ones_mask_byte: "k < 8 \<Longrightarrow> mask_byte k \<noteq> 0xff \<and> byte_ones (mask_byte k) = Some k"
proof -
  have "\<forall>k\<in>set [0..<8]. mask_byte k \<noteq> 0xff \<and> byte_ones (mask_byte k) = Some k" by code_simp
  then show "k < 8 \<Longrightarrow> mask_byte k \<noteq> 0xff \<and> byte_ones (mask_byte k) = Some k" by simp
qed

lemma simpleMaskLength_CIDRMask: "k \<le> 8 * n \<Longrightarrow> simpleMaskLength (CIDRMask k (8 * n)) = Some k"
proof (induction n arbitrary: k)
  case 0
  then show ?case by (simp add: CIDRMask_def)
next
  case (Suc n)
  show ?case
  proof (cases "8 \<le> k")
    case True
    with Suc show ?thesis unfolding CIDRMask_Suc by (simp add: mask_byte_def)
  next
    case False
    with byte_ones_mask_byte [of k] show ?thesis
      unfolding CIDRMask_Suc by (simp add: CIDRMask_0)
  qed
qed

abbreviation masked :: "byte list \<Rightarrow> byte list \<Rightarrow> byte list" where
  "masked b m \<equiv> map2 (AND) b m"

lemma masked_idem: "masked (masked b m) m = masked b m"
  by (induction b m rule: list_induct2') (simp_all add: and.assoc)

lemma IP_Mask_v4: "length b = 4 \<Longrightarrow> length m = 4 \<Longrightarrow> IP_Mask (v4InV6Prefix @ b) m = Some (masked b m)"
  by (simp add: IP_Mask_def v4InV6Prefix_def)

lemma IP_Mask_v6: "length b = 16 \<Longrightarrow> length m = 16 \<Longrightarrow> IP_Mask b m = Some (masked b m)"
  by (simp add: IP_Mask_def)

lemma ParseCIDR_shape:
  assumes "ParseCIDR s = Some (ip, n)"
  obtains (v4) b k where "length b = 4" "k \<le> 32" "n = \<lparr>net_IP = masked b (CIDRMask k 32), net_Mask = CIDRMask k 32\<rparr>"
  | (v6) b k where "length b = 16" "k \<le> 128" "n = \<lparr>net_IP = masked b (CIDRMask k 128), net_Mask = CIDRMask k 128\<rparr>"
proof -
  from assms obtain a k where a: "ParseAddr (takeWhile not_slash s) = Some a" "k \<le> BitLen a"
    "IP_Mask (As16 a) (CIDRMask k (BitLen a)) = Some (net_IP n)" "net_Mask n = CIDRMask k (BitLen a)"
    by (auto simp: ParseCIDR_def Let_def not_less split: list.splits option.splits if_splits)
  show thesis
  proof (cases a)
    case (Addr4 b)
    with a have "length b = 4" by (simp add: ParseAddr_length)
    with a Addr4 show thesis by (intro v4 [of b k]) (simp_all add: IP_Mask_v4)
  next
    case (Addr6 b z)
    with a have "length b = 16" by (simp add: ParseAddr_length)
    with a Addr6 show thesis by (intro v6 [of b k]) (simp_all add: IP_Mask_v6)
  qed
qed

lemma dtoi_all_Itoa: "k \<le> 128 \<Longrightarrow> dtoi_all (Itoa k) = Some k"
  using ParseUint_Itoa [of "0xFFFFFF - 1" k] by (simp add: dtoi_all_def)

lemma ParseCIDR_text:
  assumes "ParseAddr t = Some a" "Zone a = []" "\<forall>c\<in>set t. addr_char c" "k \<le> BitLen a"
    "IP_Mask (As16 a) (CIDRMask k (BitLen a)) = Some ip"
  shows "ParseCIDR (t @ ''/'' @ Itoa k) = Some (As16 a, \<lparr>net_IP = ip, net_Mask = CIDRMask k (BitLen a)\<rparr>)"
proof -
  have "\<forall>c\<in>set t. not_slash c" using assms(3) addr_char_facts(6) by blast
  then have "takeWhile not_slash (t @ CHR ''/'' # Itoa k) = t"
    "dropWhile not_slash (t @ CHR ''/'' # Itoa k) = CHR ''/'' # Itoa k"
    by (simp_all add: takeWhile_append dropWhile_append not_slash_def)
  moreover have "k \<le> 128" using assms(4) by (cases a) auto
  ultimately show ?thesis using assms by (simp add: ParseCIDR_def dtoi_all_Itoa Let_def)
qed

lemma string4_IP_String: "length b = 4 \<Longrightarrow> IP_String b = string4 b"
  by (auto simp: IP_String_def To4_def)

lemma string6_IP_String: "length b = 16 \<Longrightarrow> To4 b = None \<Longrightarrow> IP_String b = string6 b"
  by (cases b) (simp_all add: IP_String_def)

lemma CIDR_string4:
  assumes "length b = 4" "k \<le> 32"
  defines "n \<equiv> \<lparr>net_IP = masked b (CIDRMask k 32), net_Mask = CIDRMask k 32\<rparr>"
  shows "IPNet_String n = string4 (masked b (CIDRMask k 32)) @ ''/'' @ Itoa k"
    "ParseCIDR (IPNet_String n) = Some (v4InV6Prefix @ masked b (CIDRMask k 32), n)"
proof -
  let ?b = "masked b (CIDRMask k 32)"
  have l: "length ?b = 4" using assms by simp
  have "networkNumberAndMask n = Some (?b, CIDRMask k 32)"
    using l by (simp add: networkNumberAndMask_def n_def To4_def Let_def)
  then show str: "IPNet_String n = string4 ?b @ ''/'' @ Itoa k"
    using simpleMaskLength_CIDRMask [of k 4] assms l by (simp add: IPNet_String_def string4_IP_String)
  have "\<forall>c\<in>set (string4 ?b). addr_char c" using string4_chars by blast
  then show "ParseCIDR (IPNet_String n) = Some (v4InV6Prefix @ ?b, n)"
    unfolding str using ParseCIDR_text [OF ParseAddr_string4 [OF l], of k ?b] assms l
    by (simp add: IP_Mask_v4 masked_idem)
qed

lemma CIDR_string6:
  assumes "length b = 16" "k \<le> 128"
  defines "n \<equiv> \<lparr>net_IP = masked b (CIDRMask k 128), net_Mask = CIDRMask k 128\<rparr>"
  assumes "To4 (masked b (CIDRMask k 128)) = None"
  shows "IPNet_String n = string6 (masked b (CIDRMask k 128)) @ ''/'' @ Itoa k"
    "ParseCIDR (IPNet_String n) = Some (masked b (CIDRMask k 128), n)"
proof -
  let ?b = "masked b (CIDRMask k 128)"
  have l: "length ?b = 16" using assms by simp
  have "networkNumberAndMask n = Some (?b, CIDRMask k 128)"
    using l assms(4) by (simp add: networkNumberAndMask_def n_def Let_def)
  moreover have "IP_String ?b = string6 ?b" using l assms(4) by (rule string6_IP_String)
  ultimately show str: "IPNet_String n = string6 ?b @ ''/'' @ Itoa k"
    using simpleMaskLength_CIDRMask [of k 16] assms(2) by (simp add: IPNet_String_def)
  have "\<forall>c\<in>set (string6 ?b). addr_char c" using string6_chars by blast
  then show "ParseCIDR (IPNet_String n) = Some (?b, n)"
    unfolding str using ParseCIDR_text [OF ParseAddr_string6 [OF l], of k ?b] assms(1,2) l
    by (simp add: IP_Mask_v6 masked_idem n_def)
qed

lemma and_full: "(x :: byte) AND y = 0xff \<Longrightarrow> y = 0xff"
proof -
  assume "x AND y = 0xff"
  then have "x AND y = - 1" by simp
  then have "y = - 1" by (simp only: and_eq_minus_1_iff)
  then show ?thesis by simp
qed

lemma masked_4in6:
  assumes "length b = 16" "k \<le> 128" "masked b (CIDRMask k 128) = v4InV6Prefix @ p"
  shows "96 \<le> k" "drop 12 (CIDRMask k 128) = CIDRMask (k - 96) 32"
    "p = masked (drop 12 b) (CIDRMask (k - 96) 32)"
proof -
  have "masked b (CIDRMask k 128) ! 11 = 0xff" using assms(3) by (simp add: v4InV6Prefix_def)
  then have "b ! 11 AND mask_byte (k - 88) = 0xff" using assms(1) by (simp add: CIDRMask_def)
  then have "mask_byte (k - 88) = 0xff" by (rule and_full)
  with byte_ones_mask_byte [of "k - 88"] show "96 \<le> k" by force
  show d: "drop 12 (CIDRMask k 128) = CIDRMask (k - 96) 32"
    by (simp add: CIDRMask_def upt_rec)
  have "p = drop 12 (masked b (CIDRMask k 128))" using assms(3) by (simp add: v4InV6Prefix_def)
  then show "p = masked (drop 12 b) (CIDRMask (k - 96) 32)"
    by (simp add: drop_map drop_zip d)
qed

text \<open>Printing a parsed prefix gives text that parses to a prefix with the same text.\<close>

lemma CIDR_normalised:
  assumes "ParseCIDR s = Some (ip, n)"
  shows "\<exists>ip' n'. ParseCIDR (IPNet_String n) = Some (ip', n') \<and> IPNet_String n' = IPNet_String n"
  using assms
proof (cases rule: ParseCIDR_shape)
  case (v4 b k)
  then show ?thesis using CIDR_string4 [of b k] by auto
next
  case (v6 b k)
  let ?b = "masked b (CIDRMask k 128)"
  have l: "length ?b = 16" using v6 by simp
  show ?thesis
  proof (cases "To4 ?b")
    case None
    then show ?thesis using v6 CIDR_string6 [of b k] by auto
  next
    case (Some p)
    let ?n = "\<lparr>net_IP = p, net_Mask = CIDRMask (k - 96) 32\<rparr>"
    from To4_Some16 [OF l Some] have p: "?b = v4InV6Prefix @ p" "length p = 4" by auto
    note m = masked_4in6 [OF v6(1,2) p(1)]
    have "networkNumberAndMask n = networkNumberAndMask ?n"
      using p m(2) Some by (simp add: networkNumberAndMask_def v6(3) To4_def Let_def)
    then have "IPNet_String n = IPNet_String ?n" by (simp add: IPNet_String_def)
    moreover have "ParseCIDR (IPNet_String ?n) = Some (v4InV6Prefix @ p, ?n)"
      using CIDR_string4(2) [of "drop 12 b" "k - 96"] v6 m(3) by simp
    ultimately show ?thesis by auto
  qed
qed

lemma IPNet_String_chars:
  assumes "ParseCIDR s = Some (ip, n)"
  shows "IPNet_String n \<noteq> [] \<and> (\<forall>c\<in>set (IPNet_String n). addr_char c \<or> c = CHR ''/'')"
proof -
  have "\<exists>t l. IPNet_String n = t @ ''/'' @ Itoa l \<and> (t \<in> range string4 \<union> range string6)"
    using assms
  proof (cases rule: ParseCIDR_shape)
    case (v4 b k)
    then show ?thesis using CIDR_string4(1) [of b k] by blast
  next
    case (v6 b k)
    let ?b = "masked b (CIDRMask k 128)"
    have l: "length ?b = 16" using v6 by simp
    show ?thesis
    proof (cases "To4 ?b")
      case None
      then show ?thesis using v6 CIDR_string6(1) [of b k] by blast
    next
      case (Some p)
      from To4_Some16 [OF l Some] have p: "?b = v4InV6Prefix @ p" "length p = 4" by auto
      note m = masked_4in6 [OF v6(1,2) p(1)]
      have "IPNet_String n = string4 p @ ''/'' @ Itoa (k - 96)"
        using CIDR_string4(1) [of "drop 12 b" "k - 96"] v6 m Some p(2)
        by (simp add: IPNet_String_def networkNumberAndMask_def To4_def Let_def)
      then show ?thesis by blast
    qed
  qed
  then show ?thesis
    using string4_chars string6_chars Itoa_digits digit_addr_char by fastforce
qed

end
