(* ===== verification/IPPool.thy ===== *)
theory IPPool
  imports LazyReusePool NetIP
begin

text \<open>
  \<^verbatim>\<open>lib/util/ippool/ip_pool.go\<close>: the pool of UE addresses of a subnet, a
  \<open>LazyReusePool\<close> over the numeric values of the addresses. A \<^verbatim>\<open>net.IP\<close> argument that may
  be \<^verbatim>\<open>nil\<close> is an option.
\<close>

section \<open>Operations\<close>

record IPPool =
  IPSubnet :: IPNet
  Pool :: LazyReusePool

datatype ippool_error =
    ParseCIDRFailed
  | MaskInvalid
  | PoolFailed pool_error
  | IPUsed "byte list"
  | PoolEmpty
  | InvalidAddress
  | ReleaseFailed
  | ExcludeFailed pool_error

definition uint32ToIP :: "32 word \<Rightarrow> byte list" where
  "uint32ToIP intval = PutUint32 intval"

definition calcAddrRange :: "IPNet \<Rightarrow> (ippool_error + 32 word \<times> 32 word) exec" where
  "calcAddrRange ipNet =
     exec_bind (Uint32 (net_Mask ipNet)) (\<lambda>maskVal.
     exec_bind (Uint32 (net_IP ipNet)) (\<lambda>baseIPVal.
       let minAddr = baseIPVal AND maskVal; maxAddr = baseIPVal OR NOT maskVal in
       if maxAddr \<le> minAddr then Returns (Inl MaskInvalid)
       else Returns (Inr (minAddr, maxAddr))))"

text \<open>The pool over an address range without its two ends.\<close>

definition reserve_ends :: "int \<Rightarrow> int \<Rightarrow> LazyReusePool \<Rightarrow> ippool_error + LazyReusePool" where
  "reserve_ends minAddr maxAddr newPool =
     (case LazyReusePool_Reserve minAddr minAddr newPool of
        Inl e \<Rightarrow> Inl (PoolFailed e)
      | Inr pool1 \<Rightarrow>
          (case LazyReusePool_Reserve maxAddr maxAddr pool1 of
             Inl e \<Rightarrow> Inl (PoolFailed e)
           | Inr pool2 \<Rightarrow> Inr pool2))"

definition NewIPPool :: "string \<Rightarrow> (ippool_error + IPPool) exec" where
  "NewIPPool cidr =
     (case ParseCIDR cidr of
        None \<Rightarrow> Returns (Inl ParseCIDRFailed)
      | Some (_, ipNet) \<Rightarrow>
          exec_bind (calcAddrRange ipNet) (\<lambda>range.
          case range of
            Inl e \<Rightarrow> Returns (Inl e)
          | Inr (minAddr, maxAddr) \<Rightarrow>
              (case NewLazyReusePool (uint minAddr) (uint maxAddr) of
                 Inl e \<Rightarrow> Returns (Inl (PoolFailed e))
               | Inr newPool \<Rightarrow>
                   (case reserve_ends (uint minAddr) (uint maxAddr) newPool of
                      Inl e \<Rightarrow> Returns (Inl e)
                    | Inr pool \<Rightarrow> Returns (Inr \<lparr>IPSubnet = ipNet, Pool = pool\<rparr>)))))"

text \<open>\<^verbatim>\<open>Reallocate\<close> returns the address and whether it was in use already.\<close>

definition IPPool_Reallocate ::
    "byte list option \<Rightarrow> IPPool \<Rightarrow> (IPPool \<times> byte list option \<times> bool) exec" where
  "IPPool_Reallocate request p =
     (case request of
        None \<Rightarrow> Returns (p, None, False)
      | Some ip \<Rightarrow>
          exec_bind (Uint32 ip) (\<lambda>v.
            let allocVal = uint v; (pool, found) = LazyReusePool_Use allocVal (Pool p) in
            Returns (p\<lparr>Pool := pool\<rparr>, Some (uint32ToIP (word_of_int allocVal)), \<not> found)))"

definition IPPool_Allocate ::
    "byte list option \<Rightarrow> IPPool \<Rightarrow> (IPPool \<times> (ippool_error + byte list)) exec" where
  "IPPool_Allocate request p =
     (case request of
        Some ip \<Rightarrow>
          exec_bind (Uint32 ip) (\<lambda>v.
            let allocVal = uint v; (pool, found) = LazyReusePool_Use allocVal (Pool p) in
            if \<not> found then Returns (p\<lparr>Pool := pool\<rparr>, Inl (IPUsed ip))
            else Returns (p\<lparr>Pool := pool\<rparr>, Inr (uint32ToIP (word_of_int allocVal))))
      | None \<Rightarrow>
          (let (pool, allocVal, found) = LazyReusePool_Allocate (Pool p) in
           if \<not> found then Returns (p\<lparr>Pool := pool\<rparr>, Inl PoolEmpty)
           else Returns (p\<lparr>Pool := pool\<rparr>, Inr (uint32ToIP (word_of_int allocVal)))))"

definition IPPool_Exclude :: "IPPool \<Rightarrow> IPPool \<Rightarrow> ippool_error + IPPool" where
  "IPPool_Exclude excludePool p =
     (let excludeMin = LazyReusePool_Min (Pool excludePool);
          excludeMax = LazyReusePool_Max (Pool excludePool)
      in case LazyReusePool_Reserve excludeMin excludeMax (Pool p) of
           Inl e \<Rightarrow> Inl (ExcludeFailed e)
         | Inr pool \<Rightarrow> Inr (p\<lparr>Pool := pool\<rparr>))"

definition IPPool_Release :: "byte list \<Rightarrow> IPPool \<Rightarrow> (IPPool \<times> ippool_error option) exec" where
  "IPPool_Release ip p =
     (if length ip < 4 then Returns (p, Some InvalidAddress)
      else exec_bind (Uint32 ip) (\<lambda>addrVal.
        let (pool, res) = LazyReusePool_Free (uint addrVal) (Pool p) in
        Returns (p\<lparr>Pool := pool\<rparr>, if res then None else Some ReleaseFailed)))"

text \<open>\<^verbatim>\<open>String\<close>: the loop over the dumped segments, with the index it tests.\<close>

fun string_loop :: "nat \<Rightarrow> int list list \<Rightarrow> string" where
  "string_loop index [] = []"
| "string_loop index (element # rest) =
     (if 0 < index then ''->'' else []) @
     ''{'' @ IP_String (PutUint32 (word_of_int (element ! 0))) @ '' - '' @
       IP_String (PutUint32 (word_of_int (element ! 1))) @ ''}'' @
     string_loop (index + 1) rest"

definition IPPool_String :: "IPPool \<Rightarrow> string" where
  "IPPool_String p = ''['' @ string_loop 0 (LazyReusePool_Dump (Pool p)) @ '']''"

section \<open>Invariant\<close>

text \<open>The pool keeps the contract of its value pool, and its values are IPv4 addresses.\<close>

definition ippool_ok :: "IPPool \<Rightarrow> bool" where
  "ippool_ok p \<longleftrightarrow> lrp_ok (Pool p) \<and> 0 \<le> pfirst (Pool p) \<and> plast (Pool p) < 2 ^ 32"

abbreviation free_addrs :: "IPPool \<Rightarrow> int set" where
  "free_addrs p \<equiv> pool_avail (Pool p)"

text \<open>The number of an address and the address of a number.\<close>

definition ip_of :: "int \<Rightarrow> byte list" where
  "ip_of v = uint32ToIP (word_of_int v)"

lemma Uint32_ip_of: "0 \<le> v \<Longrightarrow> v < 2 ^ 32 \<Longrightarrow> exec_bind (Uint32 (ip_of v)) f = f (word_of_int v)"
  using Uint32_PutUint32 [of "word_of_int v" "[]"] by (simp add: ip_of_def uint32ToIP_def)

lemma uint_word_of_int_32 [simp]: "0 \<le> v \<Longrightarrow> v < 2 ^ 32 \<Longrightarrow> uint (word_of_int v :: 32 word) = v"
  by (simp add: word_of_int_inverse)

lemma length_ip_of [simp]: "length (ip_of v) = 4"
  by (simp add: ip_of_def uint32ToIP_def)

lemma ip_of_inj: "0 \<le> v \<Longrightarrow> v < 2 ^ 32 \<Longrightarrow> 0 \<le> w \<Longrightarrow> w < 2 ^ 32 \<Longrightarrow> ip_of v = ip_of w \<Longrightarrow> v = w"
  using Uint32_ip_of [of v Returns] Uint32_ip_of [of w Returns]
  by (metis exec.inject(2) uint_word_of_int_32)

definition ippool_alloc :: "IPPool \<Rightarrow> (int \<times> IPPool) option" where
  "ippool_alloc p =
     (case IPPool_Allocate None p of
        Returns (p', Inr ip) \<Rightarrow> (case Uint32 ip of Returns v \<Rightarrow> Some (uint v, p') | Panics _ \<Rightarrow> None)
      | _ \<Rightarrow> None)"

definition ippool_release :: "int \<Rightarrow> IPPool \<Rightarrow> IPPool" where
  "ippool_release v p = (case IPPool_Release (ip_of v) p of Returns (p', _) \<Rightarrow> p' | Panics _ \<Rightarrow> p)"

definition addr_num :: "byte list \<Rightarrow> int" where
  "addr_num ip = (case Uint32 ip of Returns v \<Rightarrow> uint v | Panics _ \<Rightarrow> 0)"

text \<open>The two calls that ask for an address, and \<^verbatim>\<open>Exclude\<close> as a withdrawal of addresses.\<close>

definition ippool_grant :: "bool \<times> byte list \<Rightarrow> IPPool \<Rightarrow> IPPool \<times> int option" where
  "ippool_grant q p =
     (if fst q
      then case IPPool_Reallocate (Some (snd q)) p of
             Returns (p', got, used) \<Rightarrow> (p', if used then None else map_option addr_num got)
           | Panics _ \<Rightarrow> (p, None)
      else case IPPool_Allocate (Some (snd q)) p of
             Returns (p', Inr ip) \<Rightarrow> (p', Some (addr_num ip))
           | Returns (p', Inl _) \<Rightarrow> (p', None)
           | Panics _ \<Rightarrow> (p, None))"

definition ippool_withdraw :: "IPPool \<Rightarrow> IPPool \<Rightarrow> IPPool \<times> int set" where
  "ippool_withdraw excludePool p =
     (case IPPool_Exclude excludePool p of
        Inl _ \<Rightarrow> (p, {})
      | Inr p' \<Rightarrow> (p', {LazyReusePool_Min (Pool excludePool)..LazyReusePool_Max (Pool excludePool)}))"

lemma pool_avail_32: "ippool_ok p \<Longrightarrow> v \<in> free_addrs p \<Longrightarrow> 0 \<le> v \<and> v < 2 ^ 32"
  using pool_avail_universe [of "Pool p"] by (auto simp: ippool_ok_def pool_universe_def)

lemma Allocate_avail:
  assumes "lrp_ok p" "LazyReusePool_Allocate p = (p', v, True)" shows "v \<in> pool_avail p"
  using lrp.alloc_avail [OF assms(1), of v p'] assms(2) by (simp add: lrp_alloc_def)

lemma ippool_alloc_eq:
  assumes "ippool_ok p"
  shows "ippool_alloc p = map_option (\<lambda>(v, pool). (v, p\<lparr>Pool := pool\<rparr>)) (lrp_alloc (Pool p))"
proof (cases "LazyReusePool_Allocate (Pool p)")
  case (fields pool v found)
  have "0 \<le> v \<and> v < 2 ^ 32" if found
    using that fields assms Allocate_avail [of "Pool p" pool v] pool_avail_32 [OF assms]
    by (auto simp: ippool_ok_def)
  then show ?thesis
    using Uint32_PutUint32 [of "word_of_int v" "[]"] fields
    by (auto simp: ippool_alloc_def IPPool_Allocate_def lrp_alloc_def uint32ToIP_def)
qed

lemma ippool_release_eq:
  assumes "0 \<le> v" "v < 2 ^ 32"
  shows "ippool_release v p = p\<lparr>Pool := lrp_release v (Pool p)\<rparr>"
  using assms
  by (simp add: ippool_release_def IPPool_Release_def Uint32_ip_of lrp_release_def split_beta)

text \<open>The four leading octets of a longer slice are all that is read of it.\<close>

lemma Uint32_take: "4 \<le> length ip \<Longrightarrow> \<exists>w. Uint32 ip = Returns w \<and> PutUint32 w = take 4 ip"
  using PutUint32_be32 by (elim length_ge_4E) (auto simp: Uint32_def)

lemma Uint32_short: "length ip < 4 \<Longrightarrow> Uint32 ip = Panics IndexOutOfRange"
  by (auto simp: Uint32_def split: list.splits)

lemma pool_avail_filter: "pool_order q = filter (\<lambda>x. x \<noteq> v) (pool_order p) \<Longrightarrow> pool_avail q = pool_avail p - {v}"
  by (auto simp: pool_avail_def)

lemma ippool_Use:
  assumes "ippool_ok p"
  obtains q where "LazyReusePool_Use v (Pool p) = (q, v \<in> free_addrs p)" "ippool_ok (p\<lparr>Pool := q\<rparr>)"
    "pool_avail q = free_addrs p - {v}" "pfirst q = pfirst (Pool p)" "plast q = plast (Pool p)"
proof -
  have "lrp_ok (Pool p)" using assms by (simp add: ippool_ok_def)
  then obtain q where "LazyReusePool_Use v (Pool p) = (q, v \<in> free_addrs p)" "lrp_ok q"
    "pool_order q = filter (\<lambda>x. x \<noteq> v) (pool_order (Pool p))" "pfirst q = pfirst (Pool p)"
    "plast q = plast (Pool p)" by (rule Use_spec)
  with assms show thesis by (intro that [of q]) (simp_all add: ippool_ok_def pool_avail_filter)
qed

lemma addr_num_Uint32 [simp]: "Uint32 ip = Returns w \<Longrightarrow> addr_num ip = uint w"
  by (simp add: addr_num_def)

lemma addr_num_PutUint32 [simp]: "addr_num (PutUint32 w) = uint w"
  using Uint32_PutUint32 [of w "[]"] by simp

lemma addr_num_ip_of [simp]: "0 \<le> v \<Longrightarrow> v < 2 ^ 32 \<Longrightarrow> addr_num (ip_of v) = v"
  by (simp add: ip_of_def uint32ToIP_def)

lemma ip_of_addr_num: "length ip = 4 \<Longrightarrow> ip_of (addr_num ip) = ip"
  using Uint32_take [of ip] by (auto simp: ip_of_def uint32ToIP_def)

text \<open>What the two requests do, by the number of the address asked for.\<close>

lemma ippool_requests:
  assumes "ippool_ok p" and "4 \<le> length ip"
  obtains w p' where "Uint32 ip = Returns w" "PutUint32 w = take 4 ip" "ippool_ok p'"
    "free_addrs p' = free_addrs p - {uint w}" "pool_universe (Pool p') = pool_universe (Pool p)"
    "IPPool_Allocate (Some ip) p =
      Returns (p', if uint w \<in> free_addrs p then Inr (take 4 ip) else Inl (IPUsed ip))"
    "IPPool_Reallocate (Some ip) p = Returns (p', Some (take 4 ip), uint w \<notin> free_addrs p)"
proof -
  obtain w where w: "Uint32 ip = Returns w" "PutUint32 w = take 4 ip" using Uint32_take [OF assms(2)] by blast
  from assms(1) obtain q where "LazyReusePool_Use (uint w) (Pool p) = (q, uint w \<in> free_addrs p)"
    "ippool_ok (p\<lparr>Pool := q\<rparr>)" "pool_avail q = free_addrs p - {uint w}" "pfirst q = pfirst (Pool p)"
    "plast q = plast (Pool p)" by (rule ippool_Use)
  with w show thesis
    by (intro that [of w "p\<lparr>Pool := q\<rparr>"])
      (simp_all add: IPPool_Allocate_def IPPool_Reallocate_def uint32ToIP_def pool_universe_def)
qed

lemma ippool_requests_short:
  assumes "length ip < 4"
  shows "IPPool_Allocate (Some ip) p = Panics IndexOutOfRange"
    and "IPPool_Reallocate (Some ip) p = Panics IndexOutOfRange"
  using assms by (simp_all add: IPPool_Allocate_def IPPool_Reallocate_def Uint32_short)

lemma ippool_granted:
  assumes "ippool_ok p"
  shows "IPPool_Allocate (Some ip) p = Returns (p', Inr got) \<Longrightarrow>
      4 \<le> length ip \<and> got = take 4 ip \<and> addr_num ip \<in> free_addrs p"
    and "IPPool_Reallocate (Some ip) p = Returns (p', Some got, False) \<Longrightarrow>
      4 \<le> length ip \<and> got = take 4 ip \<and> addr_num ip \<in> free_addrs p"
proof -
  consider "length ip < 4" | "4 \<le> length ip" by linarith
  then have "(IPPool_Allocate (Some ip) p = Returns (p', Inr got) \<longrightarrow>
      4 \<le> length ip \<and> got = take 4 ip \<and> addr_num ip \<in> free_addrs p) \<and>
    (IPPool_Reallocate (Some ip) p = Returns (p', Some got, False) \<longrightarrow>
      4 \<le> length ip \<and> got = take 4 ip \<and> addr_num ip \<in> free_addrs p)"
  proof cases
    case 1
    then show ?thesis by (simp add: ippool_requests_short)
  next
    case 2
    from assms 2 show ?thesis by (rule ippool_requests) (simp add: 2)
  qed
  then show "IPPool_Allocate (Some ip) p = Returns (p', Inr got) \<Longrightarrow>
      4 \<le> length ip \<and> got = take 4 ip \<and> addr_num ip \<in> free_addrs p"
    and "IPPool_Reallocate (Some ip) p = Returns (p', Some got, False) \<Longrightarrow>
      4 \<le> length ip \<and> got = take 4 ip \<and> addr_num ip \<in> free_addrs p" by blast+
qed

lemma ippool_grant_facts:
  assumes "ippool_ok p" and "ippool_grant q p = (p', answer)"
  shows "(ippool_ok p' \<and> pool_universe (Pool p') = pool_universe (Pool p)) \<and>
    set_option answer \<subseteq> free_addrs p \<and> free_addrs p' = free_addrs p - set_option answer"
proof (cases "length (snd q) < 4")
  case True
  with assms show ?thesis by (auto simp: ippool_grant_def ippool_requests_short split: if_splits)
next
  case False
  then have "4 \<le> length (snd q)" by simp
  from assms(1) this obtain w p1 where "Uint32 (snd q) = Returns w"
    "PutUint32 w = take 4 (snd q)" "ippool_ok p1"
    "free_addrs p1 = free_addrs p - {uint w}" "pool_universe (Pool p1) = pool_universe (Pool p)"
    "IPPool_Allocate (Some (snd q)) p =
      Returns (p1, if uint w \<in> free_addrs p then Inr (take 4 (snd q)) else Inl (IPUsed (snd q)))"
    "IPPool_Reallocate (Some (snd q)) p = Returns (p1, Some (take 4 (snd q)), uint w \<notin> free_addrs p)"
    by (rule ippool_requests)
  with assms(2) show ?thesis
    by (cases "uint w \<in> free_addrs p") (auto simp: ippool_grant_def split: if_splits simp flip: \<open>PutUint32 w = _\<close>)
qed

lemma ippool_withdraw_facts:
  assumes "ippool_ok p" and "ippool_withdraw x p = (p', X)"
  shows "(ippool_ok p' \<and> pool_universe (Pool p') = pool_universe (Pool p)) \<and>
    X \<subseteq> pool_universe (Pool p) \<and> free_addrs p' = free_addrs p - X"
proof (cases "Contains (Pool p) (pfirst (Pool x)) (plast (Pool x))")
  case True
  from assms(1) have "lrp_ok (Pool p)" by (simp add: ippool_ok_def)
  from this True obtain q where "LazyReusePool_Reserve (pfirst (Pool x)) (plast (Pool x)) (Pool p) = Inr q"
    "lrp_ok q" "pool_order q = filter (outside (pfirst (Pool x)) (plast (Pool x))) (pool_order (Pool p))"
    "pfirst q = pfirst (Pool p)" "plast q = plast (Pool p)" by (rule Reserve_spec)
  with assms True show ?thesis
    by (auto simp: ippool_withdraw_def IPPool_Exclude_def LazyReusePool_Min_def LazyReusePool_Max_def
        ippool_ok_def pool_universe_def pool_avail_def Contains_def)
next
  case False
  with assms show ?thesis
    by (simp add: ippool_withdraw_def IPPool_Exclude_def LazyReusePool_Min_def LazyReusePool_Max_def
        LazyReusePool_Reserve_def)
qed

interpretation ippool: managed_pool ippool_ok "\<lambda>p. pool_universe (Pool p)" "\<lambda>p. pool_avail (Pool p)"
  ippool_alloc ippool_release ippool_grant ippool_withdraw
proof unfold_locales
  fix p v p' q x X answer
  assume ok: "ippool_ok p"
  then have lok: "lrp_ok (Pool p)" by (simp add: ippool_ok_def)
  show "finite (pool_universe (Pool p))" using lok by (rule lrp.finite_universe)
  show "pool_avail (Pool p) \<subseteq> pool_universe (Pool p)" using lok by (rule lrp.avail_universe)
  show "ippool_alloc p = None \<longleftrightarrow> pool_avail (Pool p) = {}"
    using lrp.alloc_None [OF lok] by (simp add: ippool_alloc_eq [OF ok])
  { assume "ippool_grant q p = (p', answer)"
    from ippool_grant_facts [OF ok this]
    show "ippool_ok p' \<and> pool_universe (Pool p') = pool_universe (Pool p)"
      "set_option answer \<subseteq> free_addrs p \<and> free_addrs p' = free_addrs p - set_option answer" by blast+ }
  { assume "ippool_withdraw x p = (p', X)"
    from ippool_withdraw_facts [OF ok this]
    show "ippool_ok p' \<and> pool_universe (Pool p') = pool_universe (Pool p)"
      "X \<subseteq> pool_universe (Pool p) \<and> free_addrs p' = free_addrs p - X" by blast+ }
  { assume "ippool_alloc p = Some (v, p')"
    then obtain pool where a: "lrp_alloc (Pool p) = Some (v, pool)" "p' = p\<lparr>Pool := pool\<rparr>"
      by (auto simp: ippool_alloc_eq [OF ok])
    show "ippool_ok p'" "v \<in> pool_avail (Pool p) \<and> pool_avail (Pool p') = pool_avail (Pool p) - {v}"
      "pool_universe (Pool p') = pool_universe (Pool p)"
      using lrp_alloc_Some [OF lok a(1)] lrp.alloc_avail [OF lok a(1)] lrp.alloc_universe [OF lok a(1)] ok a(2)
      by (simp_all add: ippool_ok_def) }
  { assume v: "v \<in> pool_universe (Pool p)" "v \<notin> pool_avail (Pool p)"
    then have "0 \<le> v" "v < 2 ^ 32" using ok by (auto simp: pool_universe_def ippool_ok_def)
    then have r: "ippool_release v p = p\<lparr>Pool := lrp_release v (Pool p)\<rparr>" by (rule ippool_release_eq)
    have u: "pool_universe (lrp_release v (Pool p)) = pool_universe (Pool p)"
      "lrp_ok (lrp_release v (Pool p))"
      using lrp.release_universe [OF lok v] lrp.release_ok [OF lok v] by auto
    show "pool_universe (Pool (ippool_release v p)) = pool_universe (Pool p)"
      "pool_avail (Pool (ippool_release v p)) = insert v (pool_avail (Pool p))"
      using u lrp.release_avail [OF lok v] by (simp_all add: r)
    have "pfirst (Pool p) \<le> plast (Pool p)" using lok by (simp add: lrp_ok_def bounds_ok_def)
    with u(1) have "pfirst (lrp_release v (Pool p)) = pfirst (Pool p)"
      "plast (lrp_release v (Pool p)) = plast (Pool p)"
      by (simp_all add: pool_universe_def Icc_eq_Icc)
    with ok u(2) show "ippool_ok (ippool_release v p)" by (simp add: ippool_ok_def r) }
qed

section \<open>Address ranges\<close>

lemma PutUint32_and: "PutUint32 (a AND b) = masked (PutUint32 a) (PutUint32 b)"
  by (simp add: PutUint32_def drop_bit_and unsigned_and_eq)

lemma PutUint32_or_not: "PutUint32 (a OR NOT b) = map2 (\<lambda>x m. x OR NOT m) (PutUint32 a) (PutUint32 b)"
  by (simp add: PutUint32_def)
    (auto intro!: bit_word_eqI simp: bit_simps)

lemma min_less_max:
  fixes b m :: "32 word"
  assumes "m \<noteq> - 1" shows "b AND m < b OR NOT m"
proof -
  have "b AND m \<le> b OR NOT m" using word_and_le2 [of b m] le_word_or2 [of b "NOT m"] by (rule order_trans)
  moreover have "b AND m \<noteq> b OR NOT m"
  proof
    assume e: "b AND m = b OR NOT m"
    have "m = - 1"
    proof (rule bit_word_eqI)
      fix i assume "i < LENGTH(32)"
      then show "bit m i = bit (- 1 :: 32 word) i"
        using arg_cong [OF e, of "\<lambda>w. bit w i"] by (auto simp: bit_simps)
    qed
    with assms show False by simp
  qed
  ultimately show ?thesis by simp
qed

lemma Uint32_CIDRMask: "k \<le> 32 \<Longrightarrow> Uint32 (CIDRMask k 32) = Returns (NOT (mask (32 - k)))"
proof -
  have "\<forall>k\<in>set [0..<33]. Uint32 (CIDRMask k 32) = Returns (NOT (mask (32 - k)))" by code_simp
  then show "k \<le> 32 \<Longrightarrow> Uint32 (CIDRMask k 32) = Returns (NOT (mask (32 - k)))" by simp
qed

text \<open>The numbers between a network address and its broadcast address are in the subnet.\<close>

lemma in_subnet:
  fixes w v :: "32 word"
  assumes "w AND NOT (mask j) = w" "w \<le> v" "v \<le> w OR mask j"
  shows "v AND NOT (mask j) = w"
proof -
  have drop: "drop_bit j (w OR mask j) = drop_bit j w"
    by (rule bit_word_eqI) (auto simp: bit_simps)
  have "drop_bit j w \<le> drop_bit j v" "drop_bit j v \<le> drop_bit j (w OR mask j)"
    using assms(2,3)
    by (simp_all only: word_le_nat_alt unat_drop_bit_eq drop_bit_eq_div [where ?'a = nat] div_le_mono)
  with drop have "drop_bit j v = drop_bit j w" by simp
  then have "push_bit j (drop_bit j v) = push_bit j (drop_bit j w)" by simp
  moreover have "push_bit j (drop_bit j x) = x AND NOT (mask j)" for x :: "32 word"
    by (rule bit_word_eqI) (auto simp: bit_simps)
  ultimately show ?thesis using assms(1) by simp
qed

lemma uint_mask_32: "j \<le> 32 \<Longrightarrow> uint (mask j :: 32 word) = mask j"
  by (rule bit_eqI) (auto simp: bit_simps)

lemma Uint32_4:
  assumes "length b = 4" obtains w where "Uint32 b = Returns w" "PutUint32 w = b"
  using PutUint32_Uint32 [OF assms] by blast

lemma bounds_ok_32: "0 \<le> a \<Longrightarrow> a \<le> b \<Longrightarrow> b < 2 ^ 32 \<Longrightarrow> bounds_ok a b"
  by (simp add: bounds_ok_def MinInt64_def MaxInt64_def)

lemma upto_ends: "a < b \<Longrightarrow> [a..b] = a # [a + 1..b - 1] @ [b]" for a b :: int
  using upto_rec1 [of a b] upto_rec2 [of "a + 1" b] by simp

lemma reserve_ends_spec:
  assumes "0 \<le> a" "a < b" "b < 2 ^ 32" "NewLazyReusePool a b = Inr pool"
  obtains pool' where "reserve_ends a b pool = Inr pool'" "lrp_ok pool'" "pfirst pool' = a" "plast pool' = b"
    "pool_order pool' = [a + 1..b - 1]"
proof -
  have "bounds_ok a b" using assms by (simp add: bounds_ok_32)
  note pool = NewLazyReusePool_ok [OF this assms(4)]
  have order: "pool_order pool = [a..b]"
    using assms(2,4) by (auto simp: NewLazyReusePool_def pool_order_def seg_list_def)
  have "Contains pool a a" using pool assms by (simp add: Contains_def)
  with pool(1) obtain p1 where p1: "LazyReusePool_Reserve a a pool = Inr p1" "lrp_ok p1"
    "pool_order p1 = filter (outside a a) (pool_order pool)" "pfirst p1 = a" "plast p1 = b"
    using Reserve_spec [of pool a a] pool(3,4) by metis
  have "Contains p1 b b" using p1 assms by (simp add: Contains_def)
  with p1 obtain p2 where p2: "LazyReusePool_Reserve b b p1 = Inr p2" "lrp_ok p2"
    "pool_order p2 = filter (outside b b) (pool_order p1)" "pfirst p2 = a" "plast p2 = b"
    using Reserve_spec [of p1 b b] by metis
  have "pool_order p2 = [a + 1..b - 1]"
    using assms(2) by (auto simp: p2(3) p1(3) order upto_ends filter_id_conv)
  with p1(1) p2 show thesis by (intro that [of p2]) (simp_all add: reserve_ends_def)
qed

lemma NewIPPool_v4:
  assumes cidr: "ParseCIDR cidr = Some (a, n)" and len: "length (net_Mask n) = 4"
  obtains k w where "k \<le> 32" "net_Mask n = CIDRMask k 32" "net_IP n = PutUint32 w"
    "w AND NOT (mask (32 - k)) = w"
    "k = 32 \<Longrightarrow> NewIPPool cidr = Returns (Inl MaskInvalid)"
    "k < 32 \<Longrightarrow> \<exists>p. NewIPPool cidr = Returns (Inr p) \<and> ippool_ok p \<and> IPSubnet p = n \<and>
       pfirst (Pool p) = uint w \<and> plast (Pool p) = uint (w OR mask (32 - k)) \<and>
       pool_order (Pool p) = [uint w + 1..uint (w OR mask (32 - k)) - 1]"
  using cidr
proof (cases rule: ParseCIDR_shape)
  case (v6 b k)
  with len show thesis by simp
next
  case (v4 b k)
  let ?m = "NOT (mask (32 - k)) :: 32 word"
  have um: "Uint32 (net_Mask n) = Returns ?m" using v4 by (simp add: Uint32_CIDRMask)
  obtain w where w: "Uint32 (net_IP n) = Returns w" "PutUint32 w = net_IP n"
    using v4 by (elim Uint32_4 [rotated]) simp
  obtain c where c: "Uint32 (net_Mask n) = Returns c" "PutUint32 c = net_Mask n"
    using v4 by (elim Uint32_4 [rotated]) simp
  have "PutUint32 (w AND ?m) = masked (net_IP n) (net_Mask n)"
    using w c um by (simp add: PutUint32_and)
  also have "\<dots> = net_IP n" using v4 by (simp add: masked_idem)
  finally have wm: "w AND ?m = w"
    using w(2) Uint32_PutUint32 [of _ "[]"] by (metis append_Nil2 exec.inject(2))
  show thesis
  proof (rule that [OF v4(2), of w])
    show "net_Mask n = CIDRMask k 32" using v4 by simp
    show "net_IP n = PutUint32 w" using w by simp
    show "w AND ?m = w" by (fact wm)
    show "NewIPPool cidr = Returns (Inl MaskInvalid)" if "k = 32"
      using that cidr um w wm by (simp add: NewIPPool_def calcAddrRange_def)
    show "\<exists>p. NewIPPool cidr = Returns (Inr p) \<and> ippool_ok p \<and> IPSubnet p = n \<and>
       pfirst (Pool p) = uint w \<and> plast (Pool p) = uint (w OR mask (32 - k)) \<and>
       pool_order (Pool p) = [uint w + 1..uint (w OR mask (32 - k)) - 1]" if "k < 32"
    proof -
      have "\<not> bit ?m 0" using that by (simp add: bit_simps)
      then have "?m \<noteq> - 1" by auto
      from min_less_max [OF this, of w] have lt: "w < w OR mask (32 - k)" by (simp add: wm)
      let ?mx = "w OR mask (32 - k)"
      have r: "calcAddrRange n = Returns (Inr (w, ?mx))"
        using um w wm lt by (simp add: calcAddrRange_def Let_def)
      have lt': "0 \<le> uint w" "uint w < uint ?mx" "uint ?mx < 2 ^ 32"
        using lt uint_lt2p [of ?mx] by (simp_all add: word_less_def)
      then obtain pool where pool: "NewLazyReusePool (uint w) (uint ?mx) = Inr pool"
        by (simp add: NewLazyReusePool_def)
      obtain pool' where "reserve_ends (uint w) (uint ?mx) pool = Inr pool'" "lrp_ok pool'"
        "pfirst pool' = uint w" "plast pool' = uint ?mx" "pool_order pool' = [uint w + 1..uint ?mx - 1]"
        using reserve_ends_spec [OF lt' pool] by blast
      with cidr r pool lt' show ?thesis by (simp add: NewIPPool_def ippool_ok_def)
    qed
  qed
qed

section \<open>Properties\<close>

text \<open>C21. \<^verbatim>\<open>NewIPPool\<close> on an IPv4 prefix: a \<open>/32\<close> is refused as an invalid mask; for every other
  prefix length \<open>k\<close> the pool offers exactly the addresses strictly between the network address and the
  broadcast address, in increasing order, \<open>2^(32 - k) - 2\<close> of them.\<close>

theorem ippool_new:
  assumes "ParseCIDR cidr = Some (a, n)" and "length (net_Mask n) = 4"
  shows "\<exists>k w. k \<le> 32 \<and> net_Mask n = CIDRMask k 32 \<and> net_IP n = PutUint32 w \<and>
    (if k = 32 then NewIPPool cidr = Returns (Inl MaskInvalid)
     else \<exists>p. NewIPPool cidr = Returns (Inr p) \<and> ippool_ok p \<and>
       pool_order (Pool p) = [uint w + 1..uint (w OR mask (32 - k)) - 1] \<and>
       LazyReusePool_Remain (Pool p) = 2 ^ (32 - k) - 2)"
proof -
  obtain k w where kw: "k \<le> 32" "net_Mask n = CIDRMask k 32" "net_IP n = PutUint32 w"
    "w AND NOT (mask (32 - k)) = w"
    "k = 32 \<Longrightarrow> NewIPPool cidr = Returns (Inl MaskInvalid)"
    "k < 32 \<Longrightarrow> \<exists>p. NewIPPool cidr = Returns (Inr p) \<and> ippool_ok p \<and> IPSubnet p = n \<and>
       pfirst (Pool p) = uint w \<and> plast (Pool p) = uint (w OR mask (32 - k)) \<and>
       pool_order (Pool p) = [uint w + 1..uint (w OR mask (32 - k)) - 1]"
    using NewIPPool_v4 [OF assms] by blast
  have "w AND mask (32 - k) = 0"
    using kw(4) by (metis and.assoc and_zero_eq bit.conj_cancel_left)
  then have "uint w AND uint (mask (32 - k) :: 32 word) = 0" by (simp flip: uint_and)
  then have "uint (w OR mask (32 - k)) = uint w + uint (mask (32 - k) :: 32 word)"
    by (simp add: uint_or disjunctive_add_eq_or)
  then have size: "uint (w OR mask (32 - k)) = uint w + (2 ^ (32 - k) - 1)"
    by (simp only: uint_mask_32 diff_le_self mask_eq_exp_minus_1 [where ?'a = int])
  have "(2 :: int) \<le> 2 ^ (32 - k)" if "k < 32" using that by (simp add: self_le_power)
  then have "LazyReusePool_Remain (Pool p) = 2 ^ (32 - k) - 2"
    if "k < 32" "ippool_ok p" "pool_order (Pool p) = [uint w + 1..uint (w OR mask (32 - k)) - 1]" for p
    using that by (simp add: ippool_ok_def lrp_ok_def LazyReusePool_Remain_def size)
  with kw show ?thesis by (intro exI [of _ k] exI [of _ w]) auto
qed

lemma CIDR_10_60: "ParseCIDR ''10.60.0.0/30'' =
    Some (v4InV6Prefix @ [10, 60, 0, 0], \<lparr>net_IP = [10, 60, 0, 0], net_Mask = [255, 255, 255, 252]\<rparr>)"
proof -
  have m: "CIDRMask 30 32 = [255, 255, 255, 252]" by code_simp
  have b: "masked [10, 60, 0, 0] [255, 255, 255, 252 :: byte] = [10, 60, 0, 0]" by code_simp
  have "string4 [10, 60, 0, 0] @ ''/'' @ Itoa 30 = ''10.60.0.0/30''" by code_simp
  with CIDR_string4 [of "[10, 60, 0, 0]" 30] show ?thesis by (simp add: m b)
qed

theorem ippool_new_witness:
  "\<exists>k w. k \<le> 32 \<and> [255, 255, 255, 252] = CIDRMask k 32 \<and> [10, 60, 0, 0] = PutUint32 w \<and>
    (if k = 32 then NewIPPool ''10.60.0.0/30'' = Returns (Inl MaskInvalid)
     else \<exists>p. NewIPPool ''10.60.0.0/30'' = Returns (Inr p) \<and> ippool_ok p \<and>
       pool_order (Pool p) = [uint w + 1..uint (w OR mask (32 - k)) - 1] \<and>
       LazyReusePool_Remain (Pool p) = 2 ^ (32 - k) - 2)"
  using ippool_new [OF CIDR_10_60] by simp

lemma Allocate_None_cases:
  assumes "ippool_ok p"
  shows "IPPool_Allocate None p = (case ippool_alloc p of
      None \<Rightarrow> Returns (p\<lparr>Pool := fst (LazyReusePool_Allocate (Pool p))\<rparr>, Inl PoolEmpty)
    | Some (v, p') \<Rightarrow> Returns (p', Inr (ip_of v)))"
  by (cases "LazyReusePool_Allocate (Pool p)")
    (simp add: ippool_alloc_eq [OF assms] IPPool_Allocate_def lrp_alloc_def ip_of_def)

definition broadcast :: "IPNet \<Rightarrow> byte list" where
  "broadcast n = map2 (\<lambda>x m. x OR NOT m) (net_IP n) (net_Mask n)"

lemma subnet_addr:
  assumes n: "k \<le> 32" "net_Mask n = CIDRMask k 32" "net_IP n = PutUint32 w"
    and w: "w AND NOT (mask (32 - k)) = w" and v: "uint w < v" "v < uint (w OR mask (32 - k))"
  shows "masked (ip_of v) (net_Mask n) = net_IP n" "ip_of v \<noteq> net_IP n" "ip_of v \<noteq> broadcast n"
proof -
  let ?mx = "w OR mask (32 - k)"
  obtain c where "Uint32 (net_Mask n) = Returns c" "PutUint32 c = net_Mask n"
    using n by (elim Uint32_4 [rotated]) simp
  with n have c: "net_Mask n = PutUint32 (NOT (mask (32 - k)))" by (simp add: Uint32_CIDRMask)
  have b: "0 \<le> uint w" "uint ?mx < 2 ^ 32" using uint_lt2p [of ?mx] by simp_all
  with v have bv: "0 \<le> v" "v < 2 ^ 32" by linarith+
  have "w \<le> word_of_int v" "word_of_int v \<le> ?mx" using v bv by (simp_all add: word_le_def)
  from in_subnet [OF w this] show "masked (ip_of v) (net_Mask n) = net_IP n"
    by (simp add: ip_of_def uint32ToIP_def n(3) c flip: PutUint32_and)
  have ends: "net_IP n = ip_of (uint w)" "broadcast n = ip_of (uint ?mx)"
    by (simp_all add: ip_of_def uint32ToIP_def n(3) broadcast_def c flip: PutUint32_or_not)
  show "ip_of v \<noteq> net_IP n" using ip_of_inj [of v "uint w"] bv b v ends by auto
  show "ip_of v \<noteq> broadcast n" using ip_of_inj [of v "uint ?mx"] bv b v ends by auto
qed

text \<open>
  The histories of an address pool: every sequence of the four calls that change it, with any
  arguments, where only an address that is held is released. \<open>H\<close> are the numbers of the addresses
  handed out and not released since; \<^verbatim>\<open>Reallocate\<close> hands its address out when it was not in use.
  \<open>R\<close> are the numbers \<^verbatim>\<open>Exclude\<close> withdrew.
\<close>

inductive ippool_history :: "IPPool \<Rightarrow> IPPool \<Rightarrow> int set \<Rightarrow> int set \<Rightarrow> bool"
  for p0 :: IPPool where
  ippool_start: "ippool_history p0 p0 {} {}"
| ippool_Allocate: "ippool_history p0 p H R \<Longrightarrow> IPPool_Allocate request p = Returns (p', Inr ip) \<Longrightarrow>
    ippool_history p0 p' (insert (addr_num ip) H) R"
| ippool_refused: "ippool_history p0 p H R \<Longrightarrow> IPPool_Allocate request p = Returns (p', Inl e) \<Longrightarrow>
    ippool_history p0 p' H R"
| ippool_Reallocate: "ippool_history p0 p H R \<Longrightarrow>
    IPPool_Reallocate request p = Returns (p', got, used) \<Longrightarrow>
    ippool_history p0 p' (if used then H else addr_num ` set_option got \<union> H) R"
| ippool_Release: "ippool_history p0 p H R \<Longrightarrow> 4 \<le> length ip \<Longrightarrow> addr_num ip \<in> H \<Longrightarrow>
    IPPool_Release ip p = Returns (p', e) \<Longrightarrow> ippool_history p0 p' (H - {addr_num ip}) R"
| ippool_Exclude: "ippool_history p0 p H R \<Longrightarrow> IPPool_Exclude ex p = Inr p' \<Longrightarrow>
    ippool_history p0 p' H (R \<union> ({LazyReusePool_Min (Pool ex)..LazyReusePool_Max (Pool ex)} - H))"

lemma Release_addr_num:
  assumes "4 \<le> length ip"
  shows "IPPool_Release ip p =
    Returns (ippool_release (addr_num ip) p,
      if snd (LazyReusePool_Free (addr_num ip) (Pool p)) then None else Some ReleaseFailed)"
proof -
  obtain w where "Uint32 ip = Returns w" using Uint32_take [OF assms] by blast
  then show ?thesis using assms uint_lt2p [of w]
    by (simp add: IPPool_Release_def ippool_release_eq lrp_release_def split_beta)
qed

lemma ippool_history_managed:
  assumes "ippool_ok p0" and "ippool_history p0 p H R"
  shows "managed_client ippool_alloc ippool_grant ippool_withdraw ippool_release p0 p H R"
  using assms(2)
proof (induction rule: ippool_history.induct)
  case ippool_start
  show ?case by (rule managed_start)
next
  case (ippool_Allocate p H R request p' ip)
  note ok = ippool.managed_invariant [OF assms(1) ippool_Allocate.IH]
  show ?case
  proof (cases request)
    case None
    then obtain v where v: "ippool_alloc p = Some (v, p')" "ip = ip_of v"
      using ippool_Allocate.hyps(2) ok by (auto simp: Allocate_None_cases split: option.splits)
    have "0 \<le> v \<and> v < 2 ^ 32"
      using ippool.alloc_avail [OF _ v(1)] pool_avail_32 [of p v] ok by blast
    with managed_alloc [OF ippool_Allocate.IH v(1)] v(2) show ?thesis by simp
  next
    case (Some a)
    with ippool_Allocate.hyps(2) have "ippool_grant (False, a) p = (p', Some (addr_num ip))"
      by (simp add: ippool_grant_def)
    from managed_request [OF ippool_Allocate.IH this] show ?thesis by simp
  qed
next
  case (ippool_refused p H R request p' e)
  note ok = ippool.managed_invariant [OF assms(1) ippool_refused.IH]
  show ?case
  proof (cases request)
    case None
    with ippool_refused.hyps(2) have "p' = p"
      by (auto simp: IPPool_Allocate_def LazyReusePool_Allocate_def Let_def split: list.splits)
    with ippool_refused.IH show ?thesis by simp
  next
    case (Some a)
    with ippool_refused.hyps(2) have "ippool_grant (False, a) p = (p', None)"
      by (simp add: ippool_grant_def)
    from managed_request [OF ippool_refused.IH this] show ?thesis by simp
  qed
next
  case (ippool_Reallocate p H R request p' got used)
  show ?case
  proof (cases request)
    case None
    with ippool_Reallocate.hyps(2) ippool_Reallocate.IH show ?thesis by (auto simp: IPPool_Reallocate_def)
  next
    case (Some a)
    with ippool_Reallocate.hyps(2)
    have "ippool_grant (True, a) p = (p', if used then None else map_option addr_num got)"
      by (simp add: ippool_grant_def)
    from managed_request [OF ippool_Reallocate.IH this] show ?thesis
      by (auto simp: option.set_map split: if_splits)
  qed
next
  case (ippool_Release p H R ip p' e)
  then have "p' = ippool_release (addr_num ip) p" by (simp add: Release_addr_num)
  with managed_free [OF ippool_Release.IH ippool_Release.hyps(3)] show ?case by simp
next
  case (ippool_Exclude p H R ex p')
  then have "ippool_withdraw ex p =
      (p', {LazyReusePool_Min (Pool ex)..LazyReusePool_Max (Pool ex)})" by (simp add: ippool_withdraw_def)
  from managed_withdraw [OF ippool_Exclude.IH this] show ?case .
qed

text \<open>An address a client may be given: in the subnet, not one of its two ends, and not in use.\<close>

definition assignable :: "IPNet \<Rightarrow> int set \<Rightarrow> byte list \<Rightarrow> bool" where
  "assignable n taken ip \<longleftrightarrow> length ip = 4 \<and> masked ip (net_Mask n) = net_IP n \<and> ip \<noteq> net_IP n \<and>
     ip \<noteq> broadcast n \<and> ip \<notin> ip_of ` taken"

lemma fresh_assignable:
  assumes "ParseCIDR cidr = Some (a, n)" and "length (net_Mask n) = 4"
    and "NewIPPool cidr = Returns (Inr p0)" and "v \<in> free_addrs p0 - T" and "T \<subseteq> pool_universe (Pool p0)"
  shows "assignable n T (ip_of v)"
proof -
  obtain k w where kw: "k \<le> 32" "net_Mask n = CIDRMask k 32" "net_IP n = PutUint32 w"
    "w AND NOT (mask (32 - k)) = w"
    "k = 32 \<Longrightarrow> NewIPPool cidr = Returns (Inl MaskInvalid)"
    "k < 32 \<Longrightarrow> \<exists>p. NewIPPool cidr = Returns (Inr p) \<and> ippool_ok p \<and> IPSubnet p = n \<and>
       pfirst (Pool p) = uint w \<and> plast (Pool p) = uint (w OR mask (32 - k)) \<and>
       pool_order (Pool p) = [uint w + 1..uint (w OR mask (32 - k)) - 1]"
    using NewIPPool_v4 [OF assms(1,2)] by blast
  have p0: "ippool_ok p0" "pool_order (Pool p0) = [uint w + 1..uint (w OR mask (32 - k)) - 1]"
    using kw(1,5,6) assms(3) by (cases "k = 32"; auto)+
  have v: "uint w < v" "v < uint (w OR mask (32 - k))" using assms(4) p0(2) by (auto simp: pool_avail_def)
  have b: "0 \<le> v \<and> v < 2 ^ 32" using pool_avail_32 [OF p0(1)] assms(4) by blast
  have "0 \<le> x \<and> x < 2 ^ 32" if "x \<in> T" for x
    using assms(5) that p0(1) by (auto simp: pool_universe_def ippool_ok_def)
  then have "ip_of v \<notin> ip_of ` T" using ip_of_inj [of v] b assms(4) by blast
  then show ?thesis using subnet_addr [OF kw(1-4) v] by (simp add: assignable_def)
qed

lemma NewIPPool_v4_ok:
  assumes "ParseCIDR cidr = Some (a, n)" and "length (net_Mask n) = 4" and "NewIPPool cidr = Returns (Inr p0)"
  shows "ippool_ok p0"
  by (rule NewIPPool_v4 [OF assms(1,2)]) (use assms(3) in \<open>auto simp: le_less\<close>)


definition example_subnet :: IPPool where
  "example_subnet = \<lparr>IPSubnet = \<lparr>net_IP = [10, 60, 0, 0], net_Mask = [255, 255, 255, 252]\<rparr>,
     Pool = \<lparr>head = [\<lparr>sfirst = 171704321, slast = 171704322\<rparr>], pfirst = 171704320,
       plast = 171704323, remain = 2\<rparr>\<rparr>"

definition example_granted :: IPPool where
  "example_granted = example_subnet\<lparr>Pool := (Pool example_subnet)
     \<lparr>head := [\<lparr>sfirst = 171704321, slast = 171704321\<rparr>], remain := 1\<rparr>\<rparr>"

lemma example_subnet_new: "NewIPPool ''10.60.0.0/30'' = Returns (Inr example_subnet)"
proof -
  let ?p = "\<lparr>head = [\<lparr>sfirst = 171704320, slast = 171704323\<rparr>], pfirst = 171704320,
     plast = 171704323, remain = 4\<rparr> :: LazyReusePool"
  have "calcAddrRange \<lparr>net_IP = [10, 60, 0, 0], net_Mask = [255, 255, 255, 252]\<rparr> =
      Returns (Inr (171704320, 171704323))" by code_simp
  moreover have "NewLazyReusePool 171704320 171704323 = Inr ?p" by code_simp
  moreover have "reserve_ends 171704320 171704323 ?p = Inr (Pool example_subnet)" by code_simp
  ultimately show ?thesis by (simp add: NewIPPool_def CIDR_10_60) (simp add: example_subnet_def)
qed

lemma example_subnet_history:
  "ippool_history example_subnet example_granted {addr_num [10, 60, 0, 2]} {}"
proof -
  have "IPPool_Allocate (Some [10, 60, 0, 2]) example_subnet = Returns (example_granted, Inr [10, 60, 0, 2])"
    by code_simp
  from ippool_Allocate [OF ippool_start this] show ?thesis .
qed


text \<open>C22. A requested address is granted exactly when it is free: \<^verbatim>\<open>Allocate(request)\<close> reads the first
  four octets, returns them and takes that address alone out of the pool, or reports that it is used and
  leaves the pool's free addresses as they are. \<^verbatim>\<open>Reallocate\<close> does the same and returns the address
  in both cases. A request of fewer than four octets panics in both.\<close>

theorem ippool_request:
  assumes "ippool_ok p"
  shows "if length ip < 4
    then IPPool_Allocate (Some ip) p = Panics IndexOutOfRange \<and> IPPool_Reallocate (Some ip) p = Panics IndexOutOfRange
    else \<exists>w p'. Uint32 ip = Returns w \<and> ippool_ok p' \<and> free_addrs p' = free_addrs p - {uint w} \<and>
      IPPool_Allocate (Some ip) p =
        Returns (p', if uint w \<in> free_addrs p then Inr (take 4 ip) else Inl (IPUsed ip)) \<and>
      IPPool_Reallocate (Some ip) p = Returns (p', Some (take 4 ip), uint w \<notin> free_addrs p)"
proof (cases "length ip < 4")
  case True
  then show ?thesis by (simp add: IPPool_Allocate_def IPPool_Reallocate_def Uint32_short)
next
  case False
  then obtain w where w: "Uint32 ip = Returns w" "PutUint32 w = take 4 ip" using Uint32_take [of ip] by auto
  from assms obtain q where "LazyReusePool_Use (uint w) (Pool p) = (q, uint w \<in> free_addrs p)"
    "ippool_ok (p\<lparr>Pool := q\<rparr>)" "pool_avail q = free_addrs p - {uint w}" by (rule ippool_Use)
  with False w show ?thesis
    by (intro if_not_P [THEN iffD2, OF False] exI [of _ w] exI [of _ "p\<lparr>Pool := q\<rparr>"])
      (simp add: IPPool_Allocate_def IPPool_Reallocate_def uint32ToIP_def)
qed

definition example_ippool :: IPPool where
  "example_ippool = \<lparr>IPSubnet = \<lparr>net_IP = [0, 0, 0, 0], net_Mask = [255, 255, 255, 240]\<rparr>, Pool = example_pool\<rparr>"

lemma example_ippool_ok: "ippool_ok example_ippool"
  by (simp add: ippool_ok_def example_ippool_def example_pool_ok) (simp add: example_pool_def)

lemma example_ippool_free: "free_addrs example_ippool = {1..10}"
  by (auto simp: example_ippool_def pool_avail_def example_pool_order) presburger

theorem ippool_request_witness:
  "\<exists>p'. IPPool_Allocate (Some [0, 0, 0, 8]) example_ippool = Returns (p', Inr [0, 0, 0, 8]) \<and>
    free_addrs p' = {1..10} - {8}"
proof -
  have "Uint32 [0, 0, 0, 8] = Returns 8" by code_simp
  with ippool_request [OF example_ippool_ok, of "[0, 0, 0, 8]"] show ?thesis
    by (auto simp: example_ippool_free)
qed

text \<open>The 16-octet form of an IPv4 address, which \<^verbatim>\<open>net.ParseIP\<close> returns, is never granted: its
  first four octets are zero, so unless the pool starts at \<^verbatim>\<open>0.0.0.0\<close> every such request is refused as
  used, whatever the address, and every such release fails.\<close>

lemma ippool_16_octet_request_refused:
  assumes "ippool_ok p" and "0 < pfirst (Pool p)" and "ParseIP s = Some ip" and "To4 ip \<noteq> None"
  shows "(\<exists>p'. IPPool_Allocate (Some ip) p = Returns (p', Inl (IPUsed ip))) \<and>
    IPPool_Release ip p = Returns (p, Some ReleaseFailed)"
proof -
  obtain b where ip: "ip = v4InV6Prefix @ b" using To4_Some16 [OF ParseIP_length] assms(3,4) by blast
  have u: "Uint32 ip = Returns 0" unfolding ip v4InV6Prefix_def by (simp add: Uint32_def be32_def)
  have "0 \<notin> free_addrs p"
    using assms(1,2) pool_avail_universe [of "Pool p"] by (auto simp: ippool_ok_def pool_universe_def)
  moreover from assms(1) obtain q where "LazyReusePool_Use 0 (Pool p) = (q, 0 \<in> free_addrs p)" by (rule ippool_Use)
  moreover have "LazyReusePool_Free 0 (Pool p) = (Pool p, False)" using assms(2) by (simp add: LazyReusePool_Free_def)
  ultimately show ?thesis using u ParseIP_length [OF assms(3)]
    by (simp add: IPPool_Allocate_def IPPool_Release_def)
qed

lemma ippool_16_octet_request_refused_example:
  "IPPool_Release (v4InV6Prefix @ [0, 0, 0, 8]) example_ippool = Returns (example_ippool, Some ReleaseFailed)"
proof -
  have "ParseIP (IP_String (v4InV6Prefix @ [0, 0, 0, 8])) = Some (v4InV6Prefix @ [0, 0, 0, 8])"
    by (rule ParseIP_IP_String) (simp add: v4InV6Prefix_def)
  moreover have "To4 (v4InV6Prefix @ [0, 0, 0, 8]) \<noteq> None" by (simp add: To4_def v4InV6Prefix_def)
  moreover have "0 < pfirst (Pool example_ippool)" by (simp add: example_ippool_def example_pool_def)
  ultimately show ?thesis using ippool_16_octet_request_refused [OF example_ippool_ok] by blast
qed

text \<open>The release of an address that is in the range of the pool and not free.\<close>

lemma ippool_release_taken:
  assumes "ippool_ok p" and "Uint32 ip = Returns w"
    and "uint w \<in> pool_universe (Pool p)" and "uint w \<notin> free_addrs p"
  shows "\<exists>p'. IPPool_Release ip p = Returns (p', None) \<and> ippool_ok p' \<and>
    free_addrs p' = insert (uint w) (free_addrs p) \<and>
    (\<exists>p''. IPPool_Allocate (Some ip) p' = Returns (p'', Inr (take 4 ip)))"
proof -
  have len: "4 \<le> length ip" using assms(2) Uint32_returns by blast
  let ?p = "ippool_release (uint w) p"
  obtain q where q: "LazyReusePool_Free (uint w) (Pool p) = (q, True)"
    using Free_spec [of "Pool p" "uint w"] assms unfolding ippool_ok_def by blast
  have rel: "IPPool_Release ip p = Returns (?p, None)" using assms(2) q by (simp add: Release_addr_num [OF len])
  have p': "ippool_ok ?p" "free_addrs ?p = insert (uint w) (free_addrs p)"
    using ippool.release_ok [OF assms(1,3,4)] ippool.release_avail [OF assms(1,3,4)] by simp_all
  from p'(1) len have "\<exists>p''. IPPool_Allocate (Some ip) ?p = Returns (p'', Inr (take 4 ip))"
    by (rule ippool_requests) (use assms(2) p'(2) in simp)
  with rel p' show ?thesis by blast
qed

lemma NewIPPool_network:
  assumes "ParseCIDR cidr = Some (a, n)" and "length (net_Mask n) = 4" and "NewIPPool cidr = Returns (Inr p0)"
  obtains w where "ippool_ok p0" "Uint32 (net_IP n) = Returns w" "uint w \<in> pool_universe (Pool p0)"
    "uint w \<notin> free_addrs p0" "length (net_IP n) = 4"
proof -
  have lt: "k < 32" if "k \<le> 32" "k = 32 \<Longrightarrow> NewIPPool cidr = Returns (Inl MaskInvalid)" for k :: nat
    using that assms(3) by (cases "k = 32") auto
  obtain k and w :: "32 word" where kw: "k < 32" "net_IP n = PutUint32 w"
    "pfirst (Pool p0) = uint w" "plast (Pool p0) = uint (w OR mask (32 - k))"
    "pool_order (Pool p0) = [uint w + 1..uint (w OR mask (32 - k)) - 1]"
    by (rule NewIPPool_v4 [OF assms(1,2)]) (use assms(3) lt in fastforce)
  have ok: "ippool_ok p0" using assms by (rule NewIPPool_v4_ok)
  then have "pfirst (Pool p0) \<le> plast (Pool p0)" by (simp add: ippool_ok_def lrp_ok_def bounds_ok_def)
  with ok kw show thesis
    using that [of w] Uint32_PutUint32 [of w "[]"] by (simp add: pool_universe_def pool_avail_def)
qed

text \<open>C23. Releasing an address of the pool's range that is not free makes exactly it free again, and a
  request for it then succeeds; an address outside the range or shorter than four octets is an error and the pool
  stays as it is. The range includes the two reserved addresses: in a new pool the network address of the
  prefix is not free, and yet its release succeeds and a request for it is then granted.\<close>

theorem ippool_release:
  assumes "ippool_ok p" and "ParseCIDR cidr = Some (a, n)" and "length (net_Mask n) = 4"
    and "NewIPPool cidr = Returns (Inr p0)"
  shows "(length ip < 4 \<longrightarrow> IPPool_Release ip p = Returns (p, Some InvalidAddress)) \<and>
    (\<forall>w. Uint32 ip = Returns w \<longrightarrow>
      (uint w \<notin> {pfirst (Pool p)..plast (Pool p)} \<longrightarrow> IPPool_Release ip p = Returns (p, Some ReleaseFailed)) \<and>
      (uint w \<in> {pfirst (Pool p)..plast (Pool p)} - free_addrs p \<longrightarrow>
        (\<exists>p'. IPPool_Release ip p = Returns (p', None) \<and> ippool_ok p' \<and>
           free_addrs p' = insert (uint w) (free_addrs p) \<and>
           (\<exists>p''. IPPool_Allocate (Some ip) p' = Returns (p'', Inr (take 4 ip)))))) \<and>
    (\<exists>w p' p''. Uint32 (net_IP n) = Returns w \<and> uint w \<notin> free_addrs p0 \<and>
      IPPool_Release (net_IP n) p0 = Returns (p', None) \<and> free_addrs p' = insert (uint w) (free_addrs p0) \<and>
      IPPool_Allocate (Some (net_IP n)) p' = Returns (p'', Inr (net_IP n)))"
proof (intro conjI impI allI)
  show "length ip < 4 \<Longrightarrow> IPPool_Release ip p = Returns (p, Some InvalidAddress)"
    by (simp add: IPPool_Release_def)
next
  fix w
  assume w: "Uint32 ip = Returns w"
  { assume "uint w \<notin> {pfirst (Pool p)..plast (Pool p)}"
    moreover have "4 \<le> length ip" using w Uint32_returns by blast
    ultimately show "IPPool_Release ip p = Returns (p, Some ReleaseFailed)"
      using w by (auto simp: IPPool_Release_def LazyReusePool_Free_def) }
  { assume "uint w \<in> {pfirst (Pool p)..plast (Pool p)} - free_addrs p"
    then have "uint w \<in> pool_universe (Pool p)" "uint w \<notin> free_addrs p" by (auto simp: pool_universe_def)
    with ippool_release_taken [OF assms(1) w]
    show "\<exists>p'. IPPool_Release ip p = Returns (p', None) \<and> ippool_ok p' \<and>
           free_addrs p' = insert (uint w) (free_addrs p) \<and>
           (\<exists>p''. IPPool_Allocate (Some ip) p' = Returns (p'', Inr (take 4 ip)))" by blast }
next
  from assms(2-4) obtain w where w: "ippool_ok p0" "Uint32 (net_IP n) = Returns w"
    "uint w \<in> pool_universe (Pool p0)" "uint w \<notin> free_addrs p0" "length (net_IP n) = 4"
    by (rule NewIPPool_network)
  from ippool_release_taken [OF w(1-4)] w
  show "\<exists>w p' p''. Uint32 (net_IP n) = Returns w \<and> uint w \<notin> free_addrs p0 \<and>
      IPPool_Release (net_IP n) p0 = Returns (p', None) \<and> free_addrs p' = insert (uint w) (free_addrs p0) \<and>
      IPPool_Allocate (Some (net_IP n)) p' = Returns (p'', Inr (net_IP n))" by auto
qed

theorem ippool_release_witness:
  "(\<exists>p' p''. IPPool_Release [10, 60, 0, 2] example_granted = Returns (p', None) \<and>
      free_addrs p' = insert 171704322 (free_addrs example_granted) \<and>
      IPPool_Allocate (Some [10, 60, 0, 2]) p' = Returns (p'', Inr [10, 60, 0, 2])) \<and>
    (\<exists>p' p''. IPPool_Release [10, 60, 0, 0] example_subnet = Returns (p', None) \<and>
      IPPool_Allocate (Some [10, 60, 0, 0]) p' = Returns (p'', Inr [10, 60, 0, 0]))"
proof -
  have u: "Uint32 [10, 60, 0, 2] = Returns 171704322" by code_simp
  have r: "171704322 \<in> {pfirst (Pool example_granted)..plast (Pool example_granted)} - free_addrs example_granted"
    by (simp add: example_granted_def example_subnet_def pool_avail_def pool_order_def)
  have ok: "ippool_ok example_granted"
    by (simp add: ippool_ok_def lrp_ok_def bounds_ok_def seg_ok_def MinInt64_def MaxInt64_def
        example_granted_def example_subnet_def pool_order_def seg_list_def)
  from ippool_release [OF ok CIDR_10_60 _ example_subnet_new, of "[10, 60, 0, 2]"] u r show ?thesis by auto
qed

text \<open>\<^verbatim>\<open>Exclude\<close> of a pool whose range lies inside takes all addresses of that range, its
  network and broadcast address included, out of the pool and no others; otherwise it is an error.\<close>

lemma ippool_exclude:
  assumes "ippool_ok p" and "ippool_ok ex"
  shows "if pfirst (Pool p) \<le> pfirst (Pool ex) \<and> plast (Pool ex) \<le> plast (Pool p)
    then \<exists>p'. IPPool_Exclude ex p = Inr p' \<and> ippool_ok p' \<and>
      free_addrs p' = free_addrs p - {pfirst (Pool ex)..plast (Pool ex)}
    else IPPool_Exclude ex p = Inl (ExcludeFailed (ReserveOutOfRange (pfirst (Pool p)) (plast (Pool p))))"
proof (cases "Contains (Pool p) (pfirst (Pool ex)) (plast (Pool ex))")
  case True
  from assms(1) have "lrp_ok (Pool p)" by (simp add: ippool_ok_def)
  from this True obtain q where q: "LazyReusePool_Reserve (pfirst (Pool ex)) (plast (Pool ex)) (Pool p) = Inr q"
    "lrp_ok q" "pool_order q = filter (outside (pfirst (Pool ex)) (plast (Pool ex))) (pool_order (Pool p))"
    "pfirst q = pfirst (Pool p)" "plast q = plast (Pool p)" by (rule Reserve_spec)
  then have "pool_avail q = free_addrs p - {pfirst (Pool ex)..plast (Pool ex)}" by (auto simp: pool_avail_def)
  with q assms(1) True show ?thesis
    by (auto simp: IPPool_Exclude_def LazyReusePool_Min_def LazyReusePool_Max_def ippool_ok_def Contains_def)
next
  case False
  moreover have "pfirst (Pool ex) \<le> plast (Pool ex)"
    using assms(2) by (simp add: ippool_ok_def lrp_ok_def bounds_ok_def)
  ultimately show ?thesis
    by (auto simp: IPPool_Exclude_def LazyReusePool_Min_def LazyReusePool_Max_def
        LazyReusePool_Reserve_def Contains_def)
qed

lemma ippool_exclude_example:
  "\<exists>p'. IPPool_Exclude example_ippool example_ippool = Inr p' \<and> free_addrs p' = {}"
  using ippool_exclude [OF example_ippool_ok example_ippool_ok]
  by (auto simp: example_ippool_free) (auto simp: example_ippool_def example_pool_def)

end
