(* ===== verification/Pfcp.thy ===== *)
theory Pfcp
  imports Prelude
begin

text \<open>
  \<^verbatim>\<open>lib/util/pfcp/outer_header.go\<close>: the parser of the PFCP Outer Header Creation
  information element, with its 24-bit VLAN tags. The reference is an encoder of the
  element written from the layout table in the code's comment; the parser is its inverse.
\<close>

section \<open>Parser\<close>

record OuterHeaderCreationFields =
  OuterHeaderCreationDescription :: "16 word"
  TEID :: "32 word"
  IPv4Address :: "byte list option"
  IPv6Address :: "byte list option"
  PortNumber :: "16 word"
  CTag :: "32 word"
  STag :: "32 word"

datatype ohc_field = FieldTEID | FieldIPv4 | FieldIPv6 | FieldPort | FieldCTag | FieldSTag

datatype ohc_error = PayloadTooShort | InsufficientBytes ohc_field nat

text \<open>The conditions on the flag octet, as the code repeats them.\<close>

definition needs_TEID :: "byte \<Rightarrow> bool" where
  "needs_TEID oct5 \<longleftrightarrow> oct5 AND 0x01 \<noteq> 0 \<or> oct5 AND 0x02 \<noteq> 0"

definition needs_IPv4 :: "byte \<Rightarrow> bool" where
  "needs_IPv4 oct5 \<longleftrightarrow> oct5 AND 0x01 \<noteq> 0 \<or> oct5 AND 0x04 \<noteq> 0 \<or> oct5 AND 0x10 \<noteq> 0"

definition needs_IPv6 :: "byte \<Rightarrow> bool" where
  "needs_IPv6 oct5 \<longleftrightarrow> oct5 AND 0x02 \<noteq> 0 \<or> oct5 AND 0x08 \<noteq> 0 \<or> oct5 AND 0x20 \<noteq> 0"

definition needs_Port :: "byte \<Rightarrow> bool" where
  "needs_Port oct5 \<longleftrightarrow> oct5 AND 0x04 \<noteq> 0 \<or> oct5 AND 0x08 \<noteq> 0"

definition needs_CTag :: "byte \<Rightarrow> bool" where
  "needs_CTag oct5 \<longleftrightarrow> oct5 AND 0x40 \<noteq> 0"

definition needs_STag :: "byte \<Rightarrow> bool" where
  "needs_STag oct5 \<longleftrightarrow> oct5 AND 0x80 \<noteq> 0"

text \<open>
  One definition per block of the parser. Each takes the payload, the flag octet and the
  local variables \<open>f\<close> and \<open>offset\<close>, and returns them updated.
\<close>

type_synonym ohc_locals = "OuterHeaderCreationFields \<times> nat"

definition parse_TEID :: "byte list \<Rightarrow> byte \<Rightarrow> ohc_locals \<Rightarrow> ohc_error + ohc_locals" where
  "parse_TEID payload oct5 = (\<lambda>(f, offset).
     if needs_TEID oct5 then
       if length payload < offset + 4 then Inl (InsufficientBytes FieldTEID offset)
       else Inr (f\<lparr>TEID := be32 (payload ! offset) (payload ! (offset + 1))
                            (payload ! (offset + 2)) (payload ! (offset + 3))\<rparr>, offset + 4)
     else Inr (f, offset))"

definition parse_IPv4 :: "byte list \<Rightarrow> byte \<Rightarrow> ohc_locals \<Rightarrow> ohc_error + ohc_locals" where
  "parse_IPv4 payload oct5 = (\<lambda>(f, offset).
     if needs_IPv4 oct5 then
       if length payload < offset + 4 then Inl (InsufficientBytes FieldIPv4 offset)
       else Inr (f\<lparr>IPv4Address := Some (take 4 (drop offset payload))\<rparr>, offset + 4)
     else Inr (f, offset))"

definition parse_IPv6 :: "byte list \<Rightarrow> byte \<Rightarrow> ohc_locals \<Rightarrow> ohc_error + ohc_locals" where
  "parse_IPv6 payload oct5 = (\<lambda>(f, offset).
     if needs_IPv6 oct5 then
       if length payload < offset + 16 then Inl (InsufficientBytes FieldIPv6 offset)
       else Inr (f\<lparr>IPv6Address := Some (take 16 (drop offset payload))\<rparr>, offset + 16)
     else Inr (f, offset))"

definition parse_Port :: "byte list \<Rightarrow> byte \<Rightarrow> ohc_locals \<Rightarrow> ohc_error + ohc_locals" where
  "parse_Port payload oct5 = (\<lambda>(f, offset).
     if needs_Port oct5 then
       if length payload < offset + 2 then Inl (InsufficientBytes FieldPort offset)
       else Inr (f\<lparr>PortNumber := be16 (payload ! offset) (payload ! (offset + 1))\<rparr>, offset + 2)
     else Inr (f, offset))"

definition parse_CTag :: "byte list \<Rightarrow> byte \<Rightarrow> ohc_locals \<Rightarrow> ohc_error + ohc_locals" where
  "parse_CTag payload oct5 = (\<lambda>(f, offset).
     if needs_CTag oct5 then
       if length payload < offset + 3 then Inl (InsufficientBytes FieldCTag offset)
       else Inr (f\<lparr>CTag := be24 (payload ! offset) (payload ! (offset + 1)) (payload ! (offset + 2))\<rparr>,
                 offset + 3)
     else Inr (f, offset))"

text \<open>The last block does not advance the offset.\<close>

definition parse_STag :: "byte list \<Rightarrow> byte \<Rightarrow> ohc_locals \<Rightarrow> ohc_error + ohc_locals" where
  "parse_STag payload oct5 = (\<lambda>(f, offset).
     if needs_STag oct5 then
       if length payload < offset + 3 then Inl (InsufficientBytes FieldSTag offset)
       else Inr (f\<lparr>STag := be24 (payload ! offset) (payload ! (offset + 1)) (payload ! (offset + 2))\<rparr>,
                 offset)
     else Inr (f, offset))"

definition empty_OuterHeaderCreationFields :: OuterHeaderCreationFields where
  "empty_OuterHeaderCreationFields =
     \<lparr>OuterHeaderCreationDescription = 0, TEID = 0, IPv4Address = None, IPv6Address = None,
      PortNumber = 0, CTag = 0, STag = 0\<rparr>"

definition ParseOuterHeaderCreation :: "byte list \<Rightarrow> ohc_error + OuterHeaderCreationFields" where
  "ParseOuterHeaderCreation payload =
     (if length payload < 2 then Inl PayloadTooShort
      else
        let f = empty_OuterHeaderCreationFields
                  \<lparr>OuterHeaderCreationDescription := be16 (payload ! 0) (payload ! 1)\<rparr>;
            oct5 = payload ! 0
        in err_bind (parse_TEID payload oct5 (f, 2)) (\<lambda>v.
           err_bind (parse_IPv4 payload oct5 v) (\<lambda>v.
           err_bind (parse_IPv6 payload oct5 v) (\<lambda>v.
           err_bind (parse_Port payload oct5 v) (\<lambda>v.
           err_bind (parse_CTag payload oct5 v) (\<lambda>v.
           err_bind (parse_STag payload oct5 v) (\<lambda>v. Inr (fst v))))))))"

definition description_oct5 :: "OuterHeaderCreationFields \<Rightarrow> byte" where
  "description_oct5 f = ucast (drop_bit 8 (OuterHeaderCreationDescription f AND 0xff00))"

definition HasTEID :: "OuterHeaderCreationFields \<Rightarrow> bool" where
  "HasTEID f \<longleftrightarrow> description_oct5 f AND 0x01 \<noteq> 0 \<or> description_oct5 f AND 0x02 \<noteq> 0"

definition HasIPv4 :: "OuterHeaderCreationFields \<Rightarrow> bool" where
  "HasIPv4 f \<longleftrightarrow> description_oct5 f AND 0x01 \<noteq> 0 \<or> description_oct5 f AND 0x04 \<noteq> 0 \<or>
     description_oct5 f AND 0x10 \<noteq> 0"

section \<open>Reference layout\<close>

text \<open>
  The table of the element: the bits of the flag octet that ask for each field, counted
  from the least significant one. TEID: GTP-U over IPv4 or IPv6; addresses: GTP-U, UDP or plain IP;
  port: UDP; tags: one bit each.
\<close>

fun flag_bits :: "ohc_field \<Rightarrow> nat list" where
  "flag_bits FieldTEID = [0, 1]"
| "flag_bits FieldIPv4 = [0, 2, 4]"
| "flag_bits FieldIPv6 = [1, 3, 5]"
| "flag_bits FieldPort = [2, 3]"
| "flag_bits FieldCTag = [6]"
| "flag_bits FieldSTag = [7]"

definition present :: "ohc_field \<Rightarrow> byte \<Rightarrow> bool" where
  "present fld oct5 \<longleftrightarrow> list_ex (bit oct5) (flag_bits fld)"

text \<open>The octets of each field, in the order of the element, empty when the flags leave it out.\<close>

definition enc_TEID :: "byte \<Rightarrow> OuterHeaderCreationFields \<Rightarrow> byte list" where
  "enc_TEID oct5 f = (if present FieldTEID oct5 then PutUint32 (TEID f) else [])"

definition enc_IPv4 :: "byte \<Rightarrow> OuterHeaderCreationFields \<Rightarrow> byte list" where
  "enc_IPv4 oct5 f = (if present FieldIPv4 oct5 then the (IPv4Address f) else [])"

definition enc_IPv6 :: "byte \<Rightarrow> OuterHeaderCreationFields \<Rightarrow> byte list" where
  "enc_IPv6 oct5 f = (if present FieldIPv6 oct5 then the (IPv6Address f) else [])"

definition enc_Port :: "byte \<Rightarrow> OuterHeaderCreationFields \<Rightarrow> byte list" where
  "enc_Port oct5 f = (if present FieldPort oct5 then PutUint16 (PortNumber f) else [])"

definition enc_CTag :: "byte \<Rightarrow> OuterHeaderCreationFields \<Rightarrow> byte list" where
  "enc_CTag oct5 f = (if present FieldCTag oct5 then PutUint24 (CTag f) else [])"

definition enc_STag :: "byte \<Rightarrow> OuterHeaderCreationFields \<Rightarrow> byte list" where
  "enc_STag oct5 f = (if present FieldSTag oct5 then PutUint24 (STag f) else [])"

definition oct5_of :: "OuterHeaderCreationFields \<Rightarrow> byte" where
  "oct5_of f = ucast (drop_bit 8 (OuterHeaderCreationDescription f))"

definition ohc_encode :: "OuterHeaderCreationFields \<Rightarrow> byte list" where
  "ohc_encode f = (let o5 = oct5_of f in
     PutUint16 (OuterHeaderCreationDescription f) @ enc_TEID o5 f @ enc_IPv4 o5 f @ enc_IPv6 o5 f @
     enc_Port o5 f @ enc_CTag o5 f @ enc_STag o5 f)"

text \<open>
  A well-formed value: exactly the fields the flags name are filled in, addresses have their
  lengths and tags fit 24 bits.
\<close>

definition ohc_wf :: "OuterHeaderCreationFields \<Rightarrow> bool" where
  "ohc_wf f = (let o5 = oct5_of f in
     (\<not> present FieldTEID o5 \<longrightarrow> TEID f = 0) \<and>
     (if present FieldIPv4 o5 then \<exists>a. IPv4Address f = Some a \<and> length a = 4 else IPv4Address f = None) \<and>
     (if present FieldIPv6 o5 then \<exists>a. IPv6Address f = Some a \<and> length a = 16 else IPv6Address f = None) \<and>
     (\<not> present FieldPort o5 \<longrightarrow> PortNumber f = 0) \<and>
     (if present FieldCTag o5 then drop_bit 24 (CTag f) = 0 else CTag f = 0) \<and>
     (if present FieldSTag o5 then drop_bit 24 (STag f) = 0 else STag f = 0))"

text \<open>The number of octets a flag octet asks for.\<close>

definition ohc_length :: "byte \<Rightarrow> nat" where
  "ohc_length o5 = 2 + (if present FieldTEID o5 then 4 else 0) + (if present FieldIPv4 o5 then 4 else 0) +
     (if present FieldIPv6 o5 then 16 else 0) + (if present FieldPort o5 then 2 else 0) +
     (if present FieldCTag o5 then 3 else 0) + (if present FieldSTag o5 then 3 else 0)"

text \<open>The masks of the code select the bits of the table.\<close>

lemma mask_bit: "w AND 2 ^ n \<noteq> 0 \<longleftrightarrow> bit w n" for w :: byte
  by (simp add: and_exp_eq_0_iff_not_bit)

lemma present_simps [simp]:
  "present FieldTEID o5 \<longleftrightarrow> needs_TEID o5" "present FieldIPv4 o5 \<longleftrightarrow> needs_IPv4 o5"
  "present FieldIPv6 o5 \<longleftrightarrow> needs_IPv6 o5" "present FieldPort o5 \<longleftrightarrow> needs_Port o5"
  "present FieldCTag o5 \<longleftrightarrow> needs_CTag o5" "present FieldSTag o5 \<longleftrightarrow> needs_STag o5"
  using mask_bit [of o5 0] mask_bit [of o5 1] mask_bit [of o5 2] mask_bit [of o5 3] mask_bit [of o5 4]
    mask_bit [of o5 5] mask_bit [of o5 6] mask_bit [of o5 7]
  by (simp_all add: present_def needs_TEID_def needs_IPv4_def needs_IPv6_def needs_Port_def needs_CTag_def
      needs_STag_def)

lemmas parse_defs = parse_TEID_def parse_IPv4_def parse_IPv6_def parse_Port_def parse_CTag_def parse_STag_def
lemmas enc_defs = enc_TEID_def enc_IPv4_def enc_IPv6_def enc_Port_def enc_CTag_def enc_STag_def

section \<open>The parser inverts the encoder\<close>

lemma parse_TEID_enc:
  "parse_TEID (pre @ enc_TEID o5 f @ rest) o5 (g, length pre) =
     Inr (if needs_TEID o5 then g\<lparr>TEID := TEID f\<rparr> else g, length (pre @ enc_TEID o5 f))"
  by (simp add: parse_TEID_def enc_TEID_def PutUint32_def nth_append byte_simps)

lemma parse_IPv4_enc:
  assumes "needs_IPv4 o5 \<Longrightarrow> \<exists>a. IPv4Address f = Some a \<and> length a = 4"
  shows "parse_IPv4 (pre @ enc_IPv4 o5 f @ rest) o5 (g, length pre) =
     Inr (if needs_IPv4 o5 then g\<lparr>IPv4Address := IPv4Address f\<rparr> else g, length (pre @ enc_IPv4 o5 f))"
  using assms by (auto simp: parse_IPv4_def enc_IPv4_def)

lemma parse_IPv6_enc:
  assumes "needs_IPv6 o5 \<Longrightarrow> \<exists>a. IPv6Address f = Some a \<and> length a = 16"
  shows "parse_IPv6 (pre @ enc_IPv6 o5 f @ rest) o5 (g, length pre) =
     Inr (if needs_IPv6 o5 then g\<lparr>IPv6Address := IPv6Address f\<rparr> else g, length (pre @ enc_IPv6 o5 f))"
  using assms by (auto simp: parse_IPv6_def enc_IPv6_def)

lemma parse_Port_enc:
  "parse_Port (pre @ enc_Port o5 f @ rest) o5 (g, length pre) =
     Inr (if needs_Port o5 then g\<lparr>PortNumber := PortNumber f\<rparr> else g, length (pre @ enc_Port o5 f))"
  by (simp add: parse_Port_def enc_Port_def PutUint16_def nth_append byte_simps)

lemma parse_CTag_enc:
  assumes "needs_CTag o5 \<Longrightarrow> drop_bit 24 (CTag f) = 0"
  shows "parse_CTag (pre @ enc_CTag o5 f @ rest) o5 (g, length pre) =
     Inr (if needs_CTag o5 then g\<lparr>CTag := CTag f\<rparr> else g, length (pre @ enc_CTag o5 f))"
  using assms by (simp add: parse_CTag_def enc_CTag_def PutUint24_def nth_append byte_simps)

lemma parse_STag_enc:
  assumes "needs_STag o5 \<Longrightarrow> drop_bit 24 (STag f) = 0"
  shows "parse_STag (pre @ enc_STag o5 f @ rest) o5 (g, length pre) =
     Inr (if needs_STag o5 then g\<lparr>STag := STag f\<rparr> else g, length pre)"
  using assms by (simp add: parse_STag_def enc_STag_def PutUint24_def nth_append byte_simps)

lemma ohc_encode_split:
  "ohc_encode f @ rest = PutUint16 (OuterHeaderCreationDescription f) @ enc_TEID (oct5_of f) f @
     enc_IPv4 (oct5_of f) f @ enc_IPv6 (oct5_of f) f @ enc_Port (oct5_of f) f @
     enc_CTag (oct5_of f) f @ enc_STag (oct5_of f) f @ rest"
  by (simp add: ohc_encode_def Let_def)

lemma parse_encode:
  assumes wf: "ohc_wf f"
  shows "ParseOuterHeaderCreation (ohc_encode f @ rest) = Inr f"
proof -
  define p where "p = ohc_encode f @ rest"
  define o5 where "o5 = oct5_of f"
  define g where "g = empty_OuterHeaderCreationFields
    \<lparr>OuterHeaderCreationDescription := OuterHeaderCreationDescription f\<rparr>"
  define p0 where "p0 = PutUint16 (OuterHeaderCreationDescription f)"
  define p1 where "p1 = p0 @ enc_TEID o5 f"
  define p2 where "p2 = p1 @ enc_IPv4 o5 f"
  define p3 where "p3 = p2 @ enc_IPv6 o5 f"
  define p4 where "p4 = p3 @ enc_Port o5 f"
  define p5 where "p5 = p4 @ enc_CTag o5 f"
  have p: "p = p0 @ enc_TEID o5 f @ enc_IPv4 o5 f @ enc_IPv6 o5 f @ enc_Port o5 f @
      enc_CTag o5 f @ enc_STag o5 f @ rest"
    by (simp add: p_def o5_def p0_def ohc_encode_split)
  have w: "needs_IPv4 o5 \<Longrightarrow> \<exists>a. IPv4Address f = Some a \<and> length a = 4"
    "needs_IPv6 o5 \<Longrightarrow> \<exists>a. IPv6Address f = Some a \<and> length a = 16"
    "needs_CTag o5 \<Longrightarrow> drop_bit 24 (CTag f) = 0" "needs_STag o5 \<Longrightarrow> drop_bit 24 (STag f) = 0"
    and z: "\<not> needs_TEID o5 \<Longrightarrow> TEID f = 0" "\<not> needs_IPv4 o5 \<Longrightarrow> IPv4Address f = None"
    "\<not> needs_IPv6 o5 \<Longrightarrow> IPv6Address f = None" "\<not> needs_Port o5 \<Longrightarrow> PortNumber f = 0"
    "\<not> needs_CTag o5 \<Longrightarrow> CTag f = 0" "\<not> needs_STag o5 \<Longrightarrow> STag f = 0"
    using wf by (simp_all add: ohc_wf_def o5_def Let_def)
  have s1: "parse_TEID p o5 (h, 2) = Inr (if needs_TEID o5 then h\<lparr>TEID := TEID f\<rparr> else h, length p1)" for h
    using parse_TEID_enc [of p0 o5 f _ h] by (simp add: p p1_def) (simp add: p0_def)
  have s2: "parse_IPv4 p o5 (h, length p1) =
      Inr (if needs_IPv4 o5 then h\<lparr>IPv4Address := IPv4Address f\<rparr> else h, length p2)" for h
    using parse_IPv4_enc [OF w(1), where pre = p1 and g = h] by (simp add: p p1_def p2_def)
  have s3: "parse_IPv6 p o5 (h, length p2) =
      Inr (if needs_IPv6 o5 then h\<lparr>IPv6Address := IPv6Address f\<rparr> else h, length p3)" for h
    using parse_IPv6_enc [OF w(2), where pre = p2 and g = h] by (simp add: p p1_def p2_def p3_def)
  have s4: "parse_Port p o5 (h, length p3) =
      Inr (if needs_Port o5 then h\<lparr>PortNumber := PortNumber f\<rparr> else h, length p4)" for h
    using parse_Port_enc [of p3 o5 f _ h] by (simp add: p p1_def p2_def p3_def p4_def)
  have s5: "parse_CTag p o5 (h, length p4) =
      Inr (if needs_CTag o5 then h\<lparr>CTag := CTag f\<rparr> else h, length p5)" for h
    using parse_CTag_enc [OF w(3), where pre = p4 and g = h] by (simp add: p p1_def p2_def p3_def p4_def p5_def)
  have s6: "parse_STag p o5 (h, length p5) =
      Inr (if needs_STag o5 then h\<lparr>STag := STag f\<rparr> else h, length p5)" for h
    using parse_STag_enc [OF w(4), where pre = p5 and g = h]
    by (simp add: p p1_def p2_def p3_def p4_def p5_def)
  have head: "\<not> length p < 2" "p ! 0 = o5" "be16 (p ! 0) (p ! 1) = OuterHeaderCreationDescription f"
    by (simp_all add: p p0_def PutUint16_def o5_def oct5_of_def byte_simps)
  then have "ParseOuterHeaderCreation p = Inr f"
    using z by (simp add: ParseOuterHeaderCreation_def Let_def s1 s2 s3 s4 s5 s6
        empty_OuterHeaderCreationFields_def)
  then show ?thesis by (simp add: p_def)
qed

section \<open>What a successful parse returns\<close>

lemma slice_nth:
  "off + 2 \<le> length p \<Longrightarrow> take 2 (drop off p) = [p ! off, p ! (off + 1)]"
  "off + 3 \<le> length p \<Longrightarrow> take 3 (drop off p) = [p ! off, p ! (off + 1), p ! (off + 2)]"
  "off + 4 \<le> length p \<Longrightarrow> take 4 (drop off p) = [p ! off, p ! (off + 1), p ! (off + 2), p ! (off + 3)]"
  by (simp_all add: numeral_eq_Suc Cons_nth_drop_Suc [symmetric])

text \<open>
  Every block keeps the prefix it has read: after it, the octets up to the offset are the
  octets before it followed by the encoding of the field.
\<close>

lemma parse_TEID_take:
  assumes "parse_TEID p o5 (g, off) = Inr (h, off')" "off \<le> length p"
  shows "off' \<le> length p \<and> take off' p = take off p @ enc_TEID o5 h \<and>
    (\<exists>x. h = g\<lparr>TEID := x\<rparr> \<and> (\<not> needs_TEID o5 \<longrightarrow> x = TEID g))"
  using assms by (auto simp: parse_TEID_def enc_TEID_def take_add_drop slice_nth byte_simps split: if_splits)

lemma parse_IPv4_take:
  assumes "parse_IPv4 p o5 (g, off) = Inr (h, off')" "off \<le> length p"
  shows "off' \<le> length p \<and> take off' p = take off p @ enc_IPv4 o5 h \<and>
    (\<exists>x. h = g\<lparr>IPv4Address := x\<rparr> \<and> (\<not> needs_IPv4 o5 \<longrightarrow> x = IPv4Address g)) \<and>
    (needs_IPv4 o5 \<longrightarrow> (\<exists>a. IPv4Address h = Some a \<and> length a = 4))"
  using assms by (auto simp: parse_IPv4_def enc_IPv4_def take_add_drop split: if_splits)

lemma parse_IPv6_take:
  assumes "parse_IPv6 p o5 (g, off) = Inr (h, off')" "off \<le> length p"
  shows "off' \<le> length p \<and> take off' p = take off p @ enc_IPv6 o5 h \<and>
    (\<exists>x. h = g\<lparr>IPv6Address := x\<rparr> \<and> (\<not> needs_IPv6 o5 \<longrightarrow> x = IPv6Address g)) \<and>
    (needs_IPv6 o5 \<longrightarrow> (\<exists>a. IPv6Address h = Some a \<and> length a = 16))"
  using assms by (auto simp: parse_IPv6_def enc_IPv6_def take_add_drop split: if_splits)

lemma parse_Port_take:
  assumes "parse_Port p o5 (g, off) = Inr (h, off')" "off \<le> length p"
  shows "off' \<le> length p \<and> take off' p = take off p @ enc_Port o5 h \<and>
    (\<exists>x. h = g\<lparr>PortNumber := x\<rparr> \<and> (\<not> needs_Port o5 \<longrightarrow> x = PortNumber g))"
  using assms
  by (auto simp: parse_Port_def enc_Port_def PutUint16_def take_Suc_conv_app_nth byte_simps split: if_splits)

lemma parse_CTag_take:
  assumes "parse_CTag p o5 (g, off) = Inr (h, off')" "off \<le> length p"
  shows "off' \<le> length p \<and> take off' p = take off p @ enc_CTag o5 h \<and>
    (\<exists>x. h = g\<lparr>CTag := x\<rparr> \<and> (\<not> needs_CTag o5 \<longrightarrow> x = CTag g)) \<and>
    (needs_CTag o5 \<longrightarrow> drop_bit 24 (CTag h) = 0)"
  using assms
  by (auto simp: parse_CTag_def enc_CTag_def PutUint24_def take_add_drop slice_nth byte_simps split: if_splits)

lemma parse_STag_take:
  assumes "parse_STag p o5 (g, off) = Inr (h, off')" "off \<le> length p"
  shows "\<exists>n. n \<le> length p \<and> take n p = take off p @ enc_STag o5 h \<and>
    (\<exists>x. h = g\<lparr>STag := x\<rparr> \<and> (\<not> needs_STag o5 \<longrightarrow> x = STag g)) \<and>
    (needs_STag o5 \<longrightarrow> drop_bit 24 (STag h) = 0)"
proof (cases "needs_STag o5")
  case True
  with assms show ?thesis
    by (intro exI [of _ "off + 3"])
      (auto simp: parse_STag_def enc_STag_def PutUint24_def take_add_drop slice_nth byte_simps split: if_splits)
next
  case False
  with assms show ?thesis
    by (intro exI [of _ off]) (auto simp: parse_STag_def enc_STag_def)
qed

lemma length_ohc_encode: "ohc_wf f \<Longrightarrow> length (ohc_encode f) = ohc_length (oct5_of f)"
  by (auto simp: ohc_wf_def ohc_encode_def ohc_length_def enc_defs Let_def split: if_splits)

lemma parse_sound:
  assumes "ParseOuterHeaderCreation p = Inr f"
  shows "ohc_wf f \<and> oct5_of f = p ! 0 \<and> (\<exists>rest. p = ohc_encode f @ rest)"
proof -
  let ?o5 = "p ! 0"
  let ?g = "empty_OuterHeaderCreationFields\<lparr>OuterHeaderCreationDescription := be16 (p ! 0) (p ! 1)\<rparr>"
  from assms obtain f1 o1 f2 o2 f3 o3 f4 o4 f5 o5 o6 where len: "2 \<le> length p"
    and st: "parse_TEID p ?o5 (?g, 2) = Inr (f1, o1)" "parse_IPv4 p ?o5 (f1, o1) = Inr (f2, o2)"
      "parse_IPv6 p ?o5 (f2, o2) = Inr (f3, o3)" "parse_Port p ?o5 (f3, o3) = Inr (f4, o4)"
      "parse_CTag p ?o5 (f4, o4) = Inr (f5, o5)" "parse_STag p ?o5 (f5, o5) = Inr (f, o6)"
    by (auto simp: ParseOuterHeaderCreation_def Let_def exec_simps split: if_splits)
  note t1 = parse_TEID_take [OF st(1) len]
  note t2 = parse_IPv4_take [OF st(2) t1 [THEN conjunct1]]
  note t3 = parse_IPv6_take [OF st(3) t2 [THEN conjunct1]]
  note t4 = parse_Port_take [OF st(4) t3 [THEN conjunct1]]
  note t5 = parse_CTag_take [OF st(5) t4 [THEN conjunct1]]
  obtain n where n: "take n p = take o5 p @ enc_STag ?o5 f"
    and t6: "\<exists>x. f = f5\<lparr>STag := x\<rparr> \<and> (\<not> needs_STag ?o5 \<longrightarrow> x = STag f5)"
    "needs_STag ?o5 \<longrightarrow> drop_bit 24 (STag f) = 0"
    using parse_STag_take [OF st(6) t5 [THEN conjunct1]] by blast
  from t1 obtain x1 where x1: "f1 = ?g\<lparr>TEID := x1\<rparr>" "\<not> needs_TEID ?o5 \<longrightarrow> x1 = TEID ?g" by blast
  from t2 obtain x2 where x2: "f2 = f1\<lparr>IPv4Address := x2\<rparr>" "\<not> needs_IPv4 ?o5 \<longrightarrow> x2 = IPv4Address f1" by blast
  from t3 obtain x3 where x3: "f3 = f2\<lparr>IPv6Address := x3\<rparr>" "\<not> needs_IPv6 ?o5 \<longrightarrow> x3 = IPv6Address f2" by blast
  from t4 obtain x4 where x4: "f4 = f3\<lparr>PortNumber := x4\<rparr>" "\<not> needs_Port ?o5 \<longrightarrow> x4 = PortNumber f3" by blast
  from t5 obtain x5 where x5: "f5 = f4\<lparr>CTag := x5\<rparr>" "\<not> needs_CTag ?o5 \<longrightarrow> x5 = CTag f4" by blast
  from t6 obtain x6 where x6: "f = f5\<lparr>STag := x6\<rparr>" "\<not> needs_STag ?o5 \<longrightarrow> x6 = STag f5" by blast
  note x = x1(1) x2(1) x3(1) x4(1) x5(1) x6(1) empty_OuterHeaderCreationFields_def
  have o5: "oct5_of f = ?o5" by (simp add: x oct5_of_def byte_simps)
  have a: "needs_IPv4 ?o5 \<longrightarrow> (\<exists>a. x2 = Some a \<and> length a = 4)"
    "needs_IPv6 ?o5 \<longrightarrow> (\<exists>a. x3 = Some a \<and> length a = 16)"
    "needs_CTag ?o5 \<longrightarrow> drop_bit 24 x5 = 0" "needs_STag ?o5 \<longrightarrow> drop_bit 24 x6 = 0"
    using t2 t3 t5 t6(2) x2(1) x3(1) x5(1) x6(1) by simp_all
  have z: "\<not> needs_TEID ?o5 \<longrightarrow> x1 = 0" "\<not> needs_IPv4 ?o5 \<longrightarrow> x2 = None"
    "\<not> needs_IPv6 ?o5 \<longrightarrow> x3 = None" "\<not> needs_Port ?o5 \<longrightarrow> x4 = 0"
    "\<not> needs_CTag ?o5 \<longrightarrow> x5 = 0" "\<not> needs_STag ?o5 \<longrightarrow> x6 = 0"
    using x1(2) x2(2) x3(2) x4(2) x5(2) x6(2) by (simp_all add: x)
  have "TEID f = x1" "IPv4Address f = x2" "IPv6Address f = x3" "PortNumber f = x4" "CTag f = x5" "STag f = x6"
    by (simp_all add: x)
  then have "ohc_wf f" using a z by (simp add: ohc_wf_def o5 Let_def)
  moreover have "take 2 p = PutUint16 (OuterHeaderCreationDescription f)"
    using slice_nth(1) [of 0 p] len by (simp add: x PutUint16_def byte_simps)
  moreover have "enc_TEID ?o5 f1 = enc_TEID ?o5 f" "enc_IPv4 ?o5 f2 = enc_IPv4 ?o5 f"
    "enc_IPv6 ?o5 f3 = enc_IPv6 ?o5 f" "enc_Port ?o5 f4 = enc_Port ?o5 f" "enc_CTag ?o5 f5 = enc_CTag ?o5 f"
    unfolding enc_defs x6(1) x5(1) x4(1) x3(1) x2(1) x1(1) by simp_all
  moreover note t1 [THEN conjunct2, THEN conjunct1] t2 [THEN conjunct2, THEN conjunct1]
    t3 [THEN conjunct2, THEN conjunct1] t4 [THEN conjunct2, THEN conjunct1]
    t5 [THEN conjunct2, THEN conjunct1] n
  ultimately have "ohc_wf f" "take n p = ohc_encode f"
    by (simp_all only: ohc_encode_def o5 Let_def append_assoc)
  moreover from this have "p = ohc_encode f @ drop n p" by (metis append_take_drop_id)
  ultimately show ?thesis using o5 by blast
qed

section \<open>Properties\<close>

lemma description_oct5_eq: "description_oct5 f = oct5_of f"
proof -
  have m: "0xff00 = (push_bit 8 (mask 8) :: 16 word)"
    by (simp add: mask_eq_exp_minus_1 push_bit_eq_mult)
  show ?thesis unfolding description_oct5_def oct5_of_def m
    by (rule bit_word_eqI) (auto simp add: bit_simps simp del: push_bit_numeral mask_numeral)
qed

lemma HasTEID_iff: "HasTEID f \<longleftrightarrow> needs_TEID (oct5_of f)"
  by (simp add: HasTEID_def needs_TEID_def description_oct5_eq)

lemma HasIPv4_iff: "HasIPv4 f \<longleftrightarrow> needs_IPv4 (oct5_of f)"
  by (simp add: HasIPv4_def needs_IPv4_def description_oct5_eq)

lemma drop_bit_24_less: "drop_bit 24 (v :: 32 word) = 0 \<Longrightarrow> unat v < 2 ^ 24"
  by (metis drop_bit_eq_div div_eq_0_iff power_eq_0_iff unat_div unat_drop_bit_eq unsigned_0
      zero_neq_numeral)

lemma ohc_wf_tags: "ohc_wf f \<Longrightarrow> unat (CTag f) < 2 ^ 24 \<and> unat (STag f) < 2 ^ 24"
  using drop_bit_24_less [of "CTag f"] drop_bit_24_less [of "STag f"]
  by (cases "needs_CTag (oct5_of f)"; cases "needs_STag (oct5_of f)") (simp_all add: ohc_wf_def Let_def)

text \<open>C15. \<^verbatim>\<open>ParseOuterHeaderCreation\<close> accepts exactly the encodings of well-formed values, with
  anything after them, and returns the value encoded: parsing and the TS 29.244 layout are
  inverse to each other, and no octets are read twice or skipped (the three-octet tags included).\<close>

theorem ohc_parse_iff_encoding:
  "ParseOuterHeaderCreation p = Inr f \<longleftrightarrow> ohc_wf f \<and> (\<exists>rest. p = ohc_encode f @ rest)"
  using parse_sound [of p f] parse_encode [of f] by auto

text \<open>The parser fails exactly on the payloads that are shorter than the flag octet asks for,
  and then reports either the two-octet minimum or a field whose octets run past the end.\<close>

lemma ohc_error_iff_short:
  "(case ParseOuterHeaderCreation p of
      Inr f \<Rightarrow> 2 \<le> length p \<and> ohc_length (p ! 0) \<le> length p
    | Inl PayloadTooShort \<Rightarrow> length p < 2
    | Inl (InsufficientBytes fld off) \<Rightarrow>
        2 \<le> length p \<and> 2 \<le> off \<and> off \<le> length p \<and> length p < ohc_length (p ! 0) \<and>
        length p < off + (case fld of FieldTEID \<Rightarrow> 4 | FieldIPv4 \<Rightarrow> 4 | FieldIPv6 \<Rightarrow> 16 | FieldPort \<Rightarrow> 2
                            | FieldCTag \<Rightarrow> 3 | FieldSTag \<Rightarrow> 3))"
proof (cases "length p < 2")
  case False
  then show ?thesis
    unfolding ParseOuterHeaderCreation_def Let_def parse_defs ohc_length_def
    by (cases "needs_TEID (p ! 0)"; cases "needs_IPv4 (p ! 0)"; cases "needs_IPv6 (p ! 0)";
        cases "needs_Port (p ! 0)"; cases "needs_CTag (p ! 0)"; cases "needs_STag (p ! 0)") simp_all
qed (simp add: ParseOuterHeaderCreation_def)

text \<open>On a parsed value the accessors agree with the fields: \<^verbatim>\<open>HasIPv4\<close> holds exactly when an
  IPv4 address was filled in (four octets long), \<^verbatim>\<open>HasTEID\<close> exactly when one of the two GTP-U flags is set,
  and both tags are below \<open>2^24\<close>.\<close>

lemma ohc_accessors:
  assumes "ParseOuterHeaderCreation p = Inr f"
  shows "(HasIPv4 f \<longleftrightarrow> IPv4Address f \<noteq> None) \<and>
    (\<forall>a. IPv4Address f = Some a \<longrightarrow> length a = 4) \<and>
    (HasTEID f \<longleftrightarrow> p ! 0 AND 3 \<noteq> 0) \<and> (\<not> HasTEID f \<longrightarrow> TEID f = 0) \<and>
    unat (CTag f) < 2 ^ 24 \<and> unat (STag f) < 2 ^ 24"
proof -
  have wf: "ohc_wf f" and o5: "oct5_of f = p ! 0" using parse_sound [OF assms] by auto
  have "needs_TEID b \<longleftrightarrow> b AND 3 \<noteq> 0" for b
  proof -
    have "b AND 3 = (b AND 1) OR (b AND 2)" by (simp add: bit.conj_disj_distrib [symmetric])
    then show ?thesis by (simp add: needs_TEID_def or_eq_0_iff)
  qed
  with wf o5 have "(HasIPv4 f \<longleftrightarrow> IPv4Address f \<noteq> None) \<and>
    (\<forall>a. IPv4Address f = Some a \<longrightarrow> length a = 4)"
    "(HasTEID f \<longleftrightarrow> p ! 0 AND 3 \<noteq> 0) \<and> (\<not> HasTEID f \<longrightarrow> TEID f = 0)"
    by (auto simp: ohc_wf_def HasTEID_iff HasIPv4_iff Let_def split: if_splits)
  with ohc_wf_tags [OF wf] show ?thesis by blast
qed

lemma ohc_accessors_example:
  "HasIPv4 \<lparr>OuterHeaderCreationDescription = 0x4100, TEID = 0x01020304, IPv4Address = Some [10, 0, 0, 1],
     IPv6Address = None, PortNumber = 0, CTag = 0x0a0b0c, STag = 0\<rparr>"
proof -
  have "ParseOuterHeaderCreation [0x41, 0, 1, 2, 3, 4, 10, 0, 0, 1, 0x0a, 0x0b, 0x0c] =
    Inr \<lparr>OuterHeaderCreationDescription = 0x4100, TEID = 0x01020304, IPv4Address = Some [10, 0, 0, 1],
     IPv6Address = None, PortNumber = 0, CTag = 0x0a0b0c, STag = 0\<rparr>"
    by code_simp
  from ohc_accessors [OF this] show ?thesis by simp
qed

end
