(* ===== verification/GoOS.thy ===== *)
theory GoOS
  imports GoStrings
begin

text \<open>
  The part of Go's \<^verbatim>\<open>os\<close> and \<^verbatim>\<open>path/filepath\<close> (on Unix) the packages use. The state of the operating system
  holds the contents of files, the directories and their entries, the owners and the environment; which calls fail
  is part of the state, so that every error path can be taken.
\<close>

section \<open>Paths\<close>

text \<open>\<^verbatim>\<open>filepath.Split\<close>: the directory keeps its final slash.\<close>

definition filepath_Split :: "string \<Rightarrow> string \<times> string" where
  "filepath_Split p =
     (let fileName = rev (takeWhile (\<lambda>c. c \<noteq> CHR ''/'') (rev p))
      in (take (length p - length fileName) p, fileName))"

definition clean_step :: "bool \<Rightarrow> string list \<Rightarrow> string \<Rightarrow> string list" where
  "clean_step rooted out c =
     (if c = [] \<or> c = ''.'' then out
      else if c = ''..'' then
        (if out \<noteq> [] \<and> last out \<noteq> ''..'' then butlast out else if rooted then out else out @ [''..''])
      else out @ [c])"

definition rooted :: "string \<Rightarrow> bool" where
  "rooted p \<longleftrightarrow> p \<noteq> [] \<and> hd p = CHR ''/''"

definition clean_parts :: "string \<Rightarrow> string list" where
  "clean_parts p = foldl (clean_step (rooted p)) [] (Split CHR ''/'' p)"

definition path_of :: "bool \<Rightarrow> string list \<Rightarrow> string" where
  "path_of r parts = (if r then ''/'' @ Join parts ''/'' else if parts = [] then ''.'' else Join parts ''/'')"

definition filepath_Clean :: "string \<Rightarrow> string" where
  "filepath_Clean p = path_of (rooted p) (clean_parts p)"

text \<open>\<^verbatim>\<open>filepath.Join\<close> of two elements, the first of which is not empty.\<close>

definition filepath_Join :: "string \<Rightarrow> string \<Rightarrow> string" where
  "filepath_Join a b = filepath_Clean (if b = [] then a else a @ ''/'' @ b)"

lemma filepath_Split_append:
  "fst (filepath_Split p) @ snd (filepath_Split p) = p"
proof -
  let ?n = "takeWhile (\<lambda>c. c \<noteq> CHR ''/'') (rev p)"
  have "rev p = ?n @ dropWhile (\<lambda>c. c \<noteq> CHR ''/'') (rev p)" by simp
  then have "p = rev (dropWhile (\<lambda>c. c \<noteq> CHR ''/'') (rev p)) @ rev ?n" by (metis rev_append rev_rev_ident)
  then have "take (length p - length ?n) p = rev (dropWhile (\<lambda>c. c \<noteq> CHR ''/'') (rev p))"
    by (metis append_eq_conv_conj diff_add_inverse2 length_append length_rev)
  with \<open>p = _\<close> show ?thesis by (simp add: filepath_Split_def Let_def)
qed

lemma filepath_Split_name: "CHR ''/'' \<notin> set (snd (filepath_Split p))"
  by (auto simp: filepath_Split_def Let_def dest: set_takeWhileD)

lemma filepath_Split_unique:
  assumes "CHR ''/'' \<notin> set n" and "d = [] \<or> last d = CHR ''/''"
  shows "filepath_Split (d @ n) = (d, n)"
proof -
  have "takeWhile (\<lambda>c. c \<noteq> CHR ''/'') (rev (d @ n)) = rev n"
    using assms by (cases d rule: rev_cases) (auto simp: takeWhile_append)
  then show ?thesis by (simp add: filepath_Split_def Let_def)
qed

lemma filepath_Split_dir: "fst (filepath_Split p) = [] \<or> last (fst (filepath_Split p)) = CHR ''/''"
proof -
  let ?r = "dropWhile (\<lambda>c. c \<noteq> CHR ''/'') (rev p)"
  let ?n = "rev (takeWhile (\<lambda>c. c \<noteq> CHR ''/'') (rev p))"
  have "fst (filepath_Split p) @ ?n = rev ?r @ ?n"
    using filepath_Split_append [of p] by (simp add: filepath_Split_def Let_def flip: rev_append)
  then have "fst (filepath_Split p) = rev ?r" by simp
  then show ?thesis using hd_dropWhile [of "\<lambda>c. c \<noteq> CHR ''/''" "rev p"] by (cases ?r) auto
qed

text \<open>A proper file name is one component of a path.\<close>

definition proper_name :: "string \<Rightarrow> bool" where
  "proper_name n \<longleftrightarrow> n \<noteq> [] \<and> n \<noteq> ''.'' \<and> n \<noteq> ''..'' \<and> CHR ''/'' \<notin> set n"

lemma Split_snoc: "sep \<notin> set n \<Longrightarrow> Split sep (d @ sep # n) = Split sep d @ [n]"
  by (induction d) (auto simp: Split_no_sep split: list.splits)

lemma Join_snoc: "ps \<noteq> [] \<Longrightarrow> Join (ps @ [n]) sep = Join ps sep @ sep @ n"
  by (induction ps rule: induct_list012) auto

lemma filepath_Clean_name:
  assumes "proper_name n" and "d = [] \<or> last d = CHR ''/''"
  shows "filepath_Clean (d @ n) = path_of (rooted d) (clean_parts d @ [n])"
proof (cases "d = []")
  case True
  with assms(1) show ?thesis
    by (cases n) (auto simp: filepath_Clean_def clean_parts_def rooted_def Split_no_sep clean_step_def proper_name_def)
next
  case False
  with assms obtain e where d: "d = e @ [CHR ''/'']" by (metis append_butlast_last_id)
  have "rooted (d @ n) = rooted d" using False by (simp add: rooted_def)
  moreover have "Split CHR ''/'' d = Split CHR ''/'' e @ [[]]" using Split_snoc [of "CHR ''/''" "[]" e] d by simp
  ultimately show ?thesis using assms(1) Split_snoc [of "CHR ''/''" n e]
    by (simp add: d filepath_Clean_def clean_parts_def clean_step_def proper_name_def)
qed

lemma path_of_snoc: "path_of r (ps @ [n]) = path_of r (ps @ [m]) \<longleftrightarrow> n = m"
  by (cases "ps = []") (simp_all add: path_of_def Join_snoc)

lemma filepath_Clean_inject:
  assumes "proper_name n" "proper_name m" "d = [] \<or> last d = CHR ''/''"
  shows "filepath_Clean (d @ n) = filepath_Clean (d @ m) \<longleftrightarrow> n = m"
  using assms by (simp add: filepath_Clean_name path_of_snoc)

text \<open>What a cleaned path looks like: parent steps first, and only in a relative path, then proper names.\<close>

definition clean_list :: "bool \<Rightarrow> string list \<Rightarrow> bool" where
  "clean_list r ps \<longleftrightarrow> (\<exists>k ns. ps = replicate k ''..'' @ ns \<and> (r \<longrightarrow> k = 0) \<and> list_all proper_name ns)"

lemma clean_listE:
  assumes "clean_list r ps"
  obtains k ns where "ps = replicate k ''..'' @ ns" "r \<longrightarrow> k = 0" "list_all proper_name ns"
  using assms by (auto simp: clean_list_def)

lemma clean_list_Nil: "clean_list r []"
  by (auto simp: clean_list_def intro: exI [of _ 0])

lemma clean_list_snoc:
  "clean_list r (ps @ [c]) \<longleftrightarrow> clean_list r ps \<and> (proper_name c \<or> c = ''..'' \<and> \<not> r \<and> (ps = [] \<or> last ps = ''..''))"
proof
  assume "clean_list r (ps @ [c])"
  then obtain k ns where eq: "ps @ [c] = replicate k ''..'' @ ns" and r: "r \<longrightarrow> k = 0" and ns: "list_all proper_name ns"
    by (rule clean_listE)
  show "clean_list r ps \<and> (proper_name c \<or> c = ''..'' \<and> \<not> r \<and> (ps = [] \<or> last ps = ''..''))"
  proof (cases ns rule: rev_cases)
    case Nil
    with eq obtain j where j: "k = Suc j" by (cases k) auto
    with eq Nil have "ps @ [c] = replicate j ''..'' @ [''..'']" by (simp add: replicate_append_same)
    then have "ps = replicate j ''..''" "c = ''..''" by simp_all
    with r j show ?thesis by (cases j) (auto simp: clean_list_def intro!: exI [of _ j] exI [of _ "[]"])
  next
    case (snoc ms m)
    with eq have "ps = replicate k ''..'' @ ms" "c = m" by (metis append_assoc append1_eq_conv)+
    with snoc r ns show ?thesis by (auto simp: clean_list_def)
  qed
next
  assume *: "clean_list r ps \<and> (proper_name c \<or> c = ''..'' \<and> \<not> r \<and> (ps = [] \<or> last ps = ''..''))"
  from conjunct1 [OF this] obtain k ns
    where ps: "ps = replicate k ''..'' @ ns" and r: "r \<longrightarrow> k = 0" and ns: "list_all proper_name ns"
    by (rule clean_listE)
  show "clean_list r (ps @ [c])"
  proof (cases "proper_name c")
    case True
    with ps r ns show ?thesis by (auto simp: clean_list_def intro!: exI [of _ k] exI [of _ "ns @ [c]"])
  next
    case False
    with * have c: "c = ''..''" "\<not> r" "ps = [] \<or> last ps = ''..''" by auto
    then have "ns = []" using ps ns by (cases ns rule: rev_cases) (auto simp: proper_name_def)
    with ps c show ?thesis
      by (auto simp: clean_list_def replicate_append_same intro!: exI [of _ "Suc k"] exI [of _ "[]"])
  qed
qed

lemma clean_step_clean:
  assumes "clean_list r out" and "CHR ''/'' \<notin> set c"
  shows "clean_list r (clean_step r out c)"
proof -
  consider "c = [] \<or> c = ''.''" | "c = ''..''" | "proper_name c" using assms(2) by (auto simp: proper_name_def)
  then show ?thesis
  proof cases
    case 1
    with assms show ?thesis by (auto simp: clean_step_def)
  next
    case 2
    show ?thesis
    proof (cases out rule: rev_cases)
      case Nil
      with 2 clean_list_snoc [of r "[]" c] show ?thesis by (cases r) (simp_all add: clean_step_def clean_list_Nil)
    next
      case (snoc ps q)
      with 2 assms clean_list_snoc [of r out c] clean_list_snoc [of r ps q] show ?thesis
        by (cases r; cases "q = ''..''") (simp_all add: clean_step_def)
    qed
  next
    case 3
    then have "clean_step r out c = out @ [c]" by (auto simp: clean_step_def proper_name_def)
    with 3 assms show ?thesis by (simp add: clean_list_snoc)
  qed
qed

lemma Split_no_sep_inside: "w \<in> set (Split sep s) \<Longrightarrow> sep \<notin> set w"
  by (induction s arbitrary: w) (auto split: if_splits list.splits)

lemma clean_parts_clean: "clean_list (rooted p) (clean_parts p)"
proof -
  have "clean_list r (foldl (clean_step r) out cs)" if "clean_list r out" "\<forall>c\<in>set cs. CHR ''/'' \<notin> set c" for r out cs
    using that by (induction cs arbitrary: out) (auto simp: clean_step_clean)
  then show ?thesis using Split_no_sep_inside by (auto simp: clean_parts_def clean_list_Nil)
qed

lemma foldl_clean_step_clean: "clean_list r ps \<Longrightarrow> foldl (clean_step r) [] ps = ps"
  by (induction ps rule: rev_induct) (auto simp: clean_list_snoc clean_step_def proper_name_def)

lemma foldl_clean_step_filter:
  "foldl (clean_step r) out cs = foldl (clean_step r) out (filter (\<lambda>c. c \<noteq> [] \<and> c \<noteq> ''.'') cs)"
  by (induction cs arbitrary: out) (auto simp: clean_step_def)

lemma filepath_CleanI:
  assumes "clean_list r ps" "rooted q = r" "filter (\<lambda>c. c \<noteq> [] \<and> c \<noteq> ''.'') (Split CHR ''/'' q) = ps"
  shows "filepath_Clean q = path_of r ps"
  using assms foldl_clean_step_filter [of r "[]" "Split CHR ''/'' q"]
  by (simp add: filepath_Clean_def clean_parts_def foldl_clean_step_clean)

lemma clean_list_components:
  assumes "clean_list r ps" "c \<in> set ps" shows "c \<noteq> []" "c \<noteq> ''.''" "CHR ''/'' \<notin> set c"
  using assms by (auto elim!: clean_listE simp: list_all_iff proper_name_def)

lemma rooted_Join:
  assumes "clean_list r ps" shows "\<not> rooted (Join ps ''/'' @ s) \<or> ps = []"
proof (cases ps)
  case (Cons c cs)
  then have "c \<noteq> []" "CHR ''/'' \<notin> set c" using clean_list_components [OF assms] by auto
  with Cons show ?thesis by (cases c; cases cs) (auto simp: rooted_def)
qed simp

lemma Split_clean:
  assumes "clean_list r ps" "ps \<noteq> []"
  shows "Split CHR ''/'' (Join ps ''/'') = ps" "Split CHR ''/'' (Join ps ''/'' @ ''/'') = ps @ [[]]"
    "filter (\<lambda>c. c \<noteq> [] \<and> c \<noteq> ''.'') ps = ps"
proof -
  show 1: "Split CHR ''/'' (Join ps ''/'') = ps"
    using Split_Join [of ps "CHR ''/''"] clean_list_components(3) [OF assms(1)] assms(2) by auto
  show "Split CHR ''/'' (Join ps ''/'' @ ''/'') = ps @ [[]]" using Split_snoc [of "CHR ''/''" "[]" "Join ps ''/''"] 1 by simp
  show "filter (\<lambda>c. c \<noteq> [] \<and> c \<noteq> ''.'') ps = ps" using clean_list_components(1,2) [OF assms(1)] by simp
qed

lemma filepath_Clean_path_of:
  assumes "clean_list r ps" shows "filepath_Clean (path_of r ps) = path_of r ps"
proof (rule filepath_CleanI [OF assms])
  show "rooted (path_of r ps) = r"
    using rooted_Join [OF assms, of "[]"] by (cases "ps = []") (auto simp: path_of_def rooted_def)
  show "filter (\<lambda>c. c \<noteq> [] \<and> c \<noteq> ''.'') (Split CHR ''/'' (path_of r ps)) = ps"
    using Split_clean [OF assms] by (cases "ps = []") (auto simp: path_of_def)
qed

lemma filepath_Clean_idem [simp]: "filepath_Clean (filepath_Clean p) = filepath_Clean p"
  using filepath_Clean_path_of [OF clean_parts_clean] by (simp add: filepath_Clean_def)

section \<open>Files\<close>

text \<open>
  Files, directories and owners are found under the cleaned path. \<open>entries\<close> lists the names in a directory, each with
  whether it is a directory itself; \<open>has_dir\<close> says which directories exist.
\<close>

record file_system =
  creatable :: "string \<Rightarrow> bool"
  write_fails :: bool
  close_fails :: bool
  files :: "string \<rightharpoonup> string"
  entries :: "string \<Rightarrow> (string \<times> bool) list"
  has_dir :: "string \<Rightarrow> bool"
  mkdir_ok :: "string \<Rightarrow> bool"
  readdir_ok :: "string \<Rightarrow> bool"
  rename_ok :: "string \<Rightarrow> bool"
  chown_ok :: "string \<Rightarrow> bool"
  owner :: "string \<rightharpoonup> int \<times> int"
  env :: "string \<Rightarrow> string"

datatype file_error =
    CreateFailed | WriteFailed | CloseFailed | MkdirFailed | ReadDirFailed | RenameFailed | ChownFailed

definition file_at :: "file_system \<Rightarrow> string \<Rightarrow> string option" where
  "file_at fs p = files fs (filepath_Clean p)"

definition dir_of :: "string \<Rightarrow> string" where
  "dir_of p = filepath_Clean (fst (filepath_Split p))"

text \<open>
  \<^verbatim>\<open>os.OpenFile\<close> with \<^verbatim>\<open>O_CREATE\<close>: the file exists afterwards; with \<^verbatim>\<open>O_TRUNC\<close> it is empty, without it keeps
  its contents. A new name is entered in its directory.
\<close>

definition add_entry :: "string \<Rightarrow> file_system \<Rightarrow> file_system" where
  "add_entry p fs =
     (let e = (snd (filepath_Split p), False); d = dir_of p
      in if e \<in> set (entries fs d) then fs else fs\<lparr>entries := (entries fs)(d := entries fs d @ [e])\<rparr>)"

definition can_create :: "string \<Rightarrow> file_system \<Rightarrow> bool" where
  "can_create p fs \<longleftrightarrow> has_dir fs (dir_of p) \<and> creatable fs (filepath_Clean p)"

definition open_create :: "bool \<Rightarrow> string \<Rightarrow> file_system \<Rightarrow> file_system \<times> file_error option" where
  "open_create trunc p fs =
     (if \<not> can_create p fs then (fs, Some CreateFailed)
      else
        let old = (case file_at fs p of None \<Rightarrow> [] | Some c \<Rightarrow> c)
        in (add_entry p (fs\<lparr>files := (files fs)(filepath_Clean p \<mapsto> (if trunc then [] else old))\<rparr>), None))"

datatype open_flag = O_CREATE | O_APPEND | O_RDWR | O_TRUNC

definition os_OpenFile :: "string \<Rightarrow> open_flag list \<Rightarrow> file_system \<Rightarrow> file_system \<times> file_error option" where
  "os_OpenFile p flag fs =
     (if O_CREATE \<notin> set flag \<and> file_at fs p = None then (fs, Some CreateFailed)
      else open_create (O_TRUNC \<in> set flag) p fs)"

text \<open>\<^verbatim>\<open>File.WriteString\<close> on a file opened just now or with \<^verbatim>\<open>O_APPEND\<close> writes at the end of the file.\<close>

definition os_WriteString :: "string \<Rightarrow> string \<Rightarrow> file_system \<Rightarrow> file_system \<times> file_error option" where
  "os_WriteString p s fs =
     (if write_fails fs then (fs, Some WriteFailed)
      else
        let old = (case file_at fs p of None \<Rightarrow> [] | Some c \<Rightarrow> c)
        in (fs\<lparr>files := (files fs)(filepath_Clean p \<mapsto> old @ s)\<rparr>, None))"

definition os_Chown :: "string \<Rightarrow> int \<Rightarrow> int \<Rightarrow> file_system \<Rightarrow> file_system \<times> file_error option" where
  "os_Chown p uid gid fs =
     (if \<not> chown_ok fs (filepath_Clean p) then (fs, Some ChownFailed)
      else (fs\<lparr>owner := (owner fs)(filepath_Clean p \<mapsto> (uid, gid))\<rparr>, None))"

text \<open>
  \<^verbatim>\<open>os.Rename\<close> of a file replaces a file that has the new name.
\<close>

definition os_Rename :: "string \<Rightarrow> string \<Rightarrow> file_system \<Rightarrow> file_system \<times> file_error option" where
  "os_Rename p q fs =
     (if \<not> rename_ok fs (filepath_Clean p) then (fs, Some RenameFailed)
      else case file_at fs p of
        None \<Rightarrow> (fs, Some RenameFailed)
      | Some c \<Rightarrow>
          (let e = (snd (filepath_Split p), False)
           in (add_entry q (fs\<lparr>files := (files fs)(filepath_Clean p := None, filepath_Clean q \<mapsto> c),
                 entries := (entries fs)(dir_of p := filter (\<lambda>x. x \<noteq> e) (entries fs (dir_of p)))\<rparr>), None)))"

text \<open>\<^verbatim>\<open>os.MkdirAll\<close> makes the directory and the directories above it.\<close>

definition dirs_above :: "string \<Rightarrow> string list" where
  "dirs_above d = map (\<lambda>k. path_of (rooted d) (take k (clean_parts d))) [0..<Suc (length (clean_parts d))]"

definition os_MkdirAll :: "string \<Rightarrow> file_system \<Rightarrow> file_system \<times> file_error option" where
  "os_MkdirAll d fs =
     (if \<not> mkdir_ok fs (filepath_Clean d) then (fs, Some MkdirFailed)
      else (fs\<lparr>has_dir := (\<lambda>q. q \<in> set (dirs_above d) \<or> has_dir fs q)\<rparr>, None))"

definition os_ReadDir :: "string \<Rightarrow> file_system \<Rightarrow> file_error + (string \<times> bool) list" where
  "os_ReadDir d fs =
     (if d \<noteq> [] \<and> readdir_ok fs (filepath_Clean d) then Inr (entries fs (filepath_Clean d)) else Inl ReadDirFailed)"

lemma add_entry_fields [simp]:
  "files (add_entry p fs) = files fs" "has_dir (add_entry p fs) = has_dir fs" "owner (add_entry p fs) = owner fs"
  "creatable (add_entry p fs) = creatable fs" "close_fails (add_entry p fs) = close_fails fs"
  "write_fails (add_entry p fs) = write_fails fs" "chown_ok (add_entry p fs) = chown_ok fs"
  "rename_ok (add_entry p fs) = rename_ok fs" "readdir_ok (add_entry p fs) = readdir_ok fs"
  by (simp_all add: add_entry_def Let_def)

text \<open>The directory of a cleaned path is the directory the path was in.\<close>

lemma dir_of_Clean:
  assumes "proper_name n" and "d = [] \<or> last d = CHR ''/''"
  shows "dir_of (filepath_Clean (d @ n)) = filepath_Clean d"
proof -
  let ?r = "rooted d" and ?ps = "clean_parts d"
  let ?d = "(if ?r then ''/'' else []) @ (if ?ps = [] then [] else Join ?ps ''/'' @ ''/'')"
  note clean = clean_parts_clean [of d]
  have "filepath_Clean (d @ n) = ?d @ n"
    using filepath_Clean_name [OF assms] by (auto simp: path_of_def Join_snoc)
  moreover have "filepath_Split (?d @ n) = (?d, n)"
    by (rule filepath_Split_unique) (use assms(1) in \<open>auto simp: proper_name_def\<close>)
  moreover have "filepath_Clean ?d = path_of ?r ?ps"
  proof (rule filepath_CleanI [OF clean])
    show "rooted ?d = ?r" using rooted_Join [OF clean, of "''/''"] by (auto simp: rooted_def)
    show "filter (\<lambda>c. c \<noteq> [] \<and> c \<noteq> ''.'') (Split CHR ''/'' ?d) = ?ps" using Split_clean [OF clean] by auto
  qed
  ultimately show ?thesis by (simp add: dir_of_def filepath_Clean_def)
qed

lemma dirs_above_self: "filepath_Clean d \<in> set (dirs_above d)"
  by (auto simp: dirs_above_def filepath_Clean_def image_iff intro!: bexI [of _ "length (clean_parts d)"])

end
