(* ===== verification/FSM.thy ===== *)
theory FSM
  imports GoOS
begin

text \<open>
  \<^verbatim>\<open>lib/util/fsm\<close>: the table-driven state machine the network functions use for their
  UE contexts. A callback is client code with an arbitrary effect on the \<^verbatim>\<open>State\<close> object it
  is given and on the rest of the program, the world \<open>'w\<close>; it may panic. A \<^verbatim>\<open>nil\<close> function
  value, which is also what a lookup of a missing map key yields, is \<open>None\<close>. Ranging over a Go map
  visits the entries in some order; the model takes that order as a list.
\<close>

section \<open>State objects\<close>

type_synonym StateType = string
type_synonym EventType = string

record State =
  current :: StateType

definition NewState :: "StateType \<Rightarrow> State" where
  "NewState initState = \<lparr>current = initState\<rparr>"

definition State_Current :: "State \<Rightarrow> StateType" where
  "State_Current state = current state"

definition State_Is :: "StateType \<Rightarrow> State \<Rightarrow> bool" where
  "State_Is target state \<longleftrightarrow> current state = target"

definition State_Set :: "StateType \<Rightarrow> State \<Rightarrow> State" where
  "State_Set next state = state\<lparr>current := next\<rparr>"

section \<open>Machines\<close>

text \<open>The values of an argument map; only the strings matter to the package.\<close>

datatype go_value = VString string | VOther

type_synonym ArgsType = "string \<rightharpoonup> go_value"

type_synonym 'w Callback = "State \<Rightarrow> EventType \<Rightarrow> ArgsType \<Rightarrow> 'w \<Rightarrow> (State \<times> 'w) exec"

type_synonym 'w metricFunc = "string \<Rightarrow> string \<Rightarrow> 'w \<Rightarrow> 'w exec"

record Transition =
  Event :: EventType
  From :: StateType
  To :: StateType

type_synonym eventKey = "EventType \<times> StateType"

definition ArgCallerInfo :: string where "ArgCallerInfo = ''CallerInfo''"
definition EntryEvent :: EventType where "EntryEvent = ''Entry event''"
definition ExitEvent :: EventType where "ExitEvent = ''Exit event''"

record 'w FSM =
  transitions :: "eventKey \<rightharpoonup> Transition"
  callbacks :: "StateType \<Rightarrow> 'w Callback option"

datatype fsm_error =
    DuplicateTransition Transition
  | UnknownState StateType
  | UnknownTransition StateType EventType

text \<open>The two loops of \<^verbatim>\<open>NewFSM\<close>; the first also collects \<^verbatim>\<open>allStates\<close>.\<close>

fun register_transitions ::
    "Transition list \<Rightarrow> (eventKey \<rightharpoonup> Transition) \<Rightarrow> StateType set \<Rightarrow>
      fsm_error + (eventKey \<rightharpoonup> Transition) \<times> StateType set" where
  "register_transitions [] m allStates = Inr (m, allStates)"
| "register_transitions (transition # ts) m allStates =
     (let key = (Event transition, From transition) in
      case m key of
        Some _ \<Rightarrow> Inl (DuplicateTransition transition)
      | None \<Rightarrow> register_transitions ts (m(key \<mapsto> transition))
                  (insert (To transition) (insert (From transition) allStates)))"

fun register_callbacks ::
    "(StateType \<times> 'w Callback option) list \<Rightarrow> StateType set \<Rightarrow> (StateType \<Rightarrow> 'w Callback option) \<Rightarrow>
      fsm_error + (StateType \<Rightarrow> 'w Callback option)" where
  "register_callbacks [] allStates m = Inr m"
| "register_callbacks ((state, callback) # cs) allStates m =
     (if state \<notin> allStates then Inl (UnknownState state)
      else register_callbacks cs allStates (m(state := callback)))"

text \<open>
  \<^verbatim>\<open>NewFSM\<close> also replaces the package variable \<^verbatim>\<open>stateTransitionMetricFunc\<close> when it is given a
  function; the model passes its old value in and its new value out.
\<close>

definition NewFSM ::
    "Transition list \<Rightarrow> (StateType \<times> 'w Callback option) list \<Rightarrow> 'w metricFunc option \<Rightarrow>
      'w metricFunc option \<Rightarrow> 'w metricFunc option \<times> (fsm_error + 'w FSM)" where
  "NewFSM ts cs callbackMetricFunc stateTransitionMetricFunc =
     (case register_transitions ts Map.empty {} of
        Inl e \<Rightarrow> (stateTransitionMetricFunc, Inl e)
      | Inr (m, allStates) \<Rightarrow>
          (case register_callbacks cs allStates (\<lambda>_. None) of
             Inl e \<Rightarrow> (stateTransitionMetricFunc, Inl e)
           | Inr c \<Rightarrow>
               (case callbackMetricFunc of None \<Rightarrow> stateTransitionMetricFunc | Some f \<Rightarrow> Some f,
                Inr \<lparr>transitions = m, callbacks = c\<rparr>)))"

text \<open>The type assertion on the caller information.\<close>

definition caller_info :: "ArgsType \<Rightarrow> string exec" where
  "caller_info args =
     (case args ArgCallerInfo of
        None \<Rightarrow> Returns []
      | Some (VString s) \<Rightarrow> Returns (''['' @ s @ ''] '')
      | Some VOther \<Rightarrow> Panics TypeAssertionFailed)"

definition call_callback ::
    "'w FSM \<Rightarrow> StateType \<Rightarrow> EventType \<Rightarrow> ArgsType \<Rightarrow> State \<times> 'w \<Rightarrow> (State \<times> 'w) exec" where
  "call_callback fsm key event args = (\<lambda>(state, w).
     case callbacks fsm key of
       None \<Rightarrow> Panics NilDereference
     | Some f \<Rightarrow> f state event args w)"

definition call_metric :: "'w metricFunc option \<Rightarrow> StateType \<Rightarrow> StateType \<Rightarrow> 'w \<Rightarrow> 'w exec" where
  "call_metric metric from to w = (case metric of None \<Rightarrow> Returns w | Some f \<Rightarrow> f from to w)"

definition SendEvent ::
    "'w FSM \<Rightarrow> 'w metricFunc option \<Rightarrow> EventType \<Rightarrow> ArgsType \<Rightarrow> State \<times> 'w \<Rightarrow>
      ((State \<times> 'w) \<times> fsm_error option) exec" where
  "SendEvent fsm metric event args = (\<lambda>(state, w).
     case transitions fsm (event, State_Current state) of
       None \<Rightarrow> Returns ((state, w), Some (UnknownTransition (State_Current state) event))
     | Some tr \<Rightarrow>
         exec_bind (caller_info args) (\<lambda>_.
         exec_bind (call_callback fsm (From tr) event args (state, w)) (\<lambda>(state1, w1).
         if From tr = To tr then Returns ((state1, w1), None)
         else
           exec_bind (call_metric metric (From tr) (To tr) w1) (\<lambda>w2.
           exec_bind (call_callback fsm (From tr) ExitEvent args (state1, w2)) (\<lambda>(state2, w3).
           exec_bind (call_callback fsm (To tr) EntryEvent args (State_Set (To tr) state2, w3))
             (\<lambda>sw. Returns (sw, None)))))))"

section \<open>Export\<close>

text \<open>
  The export creates a file and writes to it; \<open>order\<close> is the order in which the loop visits the machine's
  transitions.
\<close>

definition dot_header :: string where
  "dot_header = ''digraph FSM {'' @ [CHR 0x0A, CHR 0x09] @ ''rankdir=LR'' @ [CHR 0x0A, CHR 0x09] @
     ''size='' @ [CHR 0x22] @ ''100'' @ [CHR 0x22] @ [CHR 0x0A] @
     ''    node[width=1 fixedsize=false shape=ellipse style=filled fillcolor='' @ [CHR 0x22] @ ''skyblue'' @
     [CHR 0x22] @ '']'' @ [CHR 0x0A, CHR 0x09]"

definition dot_link :: "Transition \<Rightarrow> string" where
  "dot_link tr = [CHR 0x09] @ From tr @ '' -> '' @ To tr @ '' [label='' @ [CHR 0x22] @
     Event tr @ [CHR 0x22] @ '']''"

definition dot_text :: "Transition list \<Rightarrow> string" where
  "dot_text order = foldl (\<lambda>dot tr. dot @ [CHR 0x0D, CHR 0x0A] @ dot_link tr) dot_header order @
     [CHR 0x0D, CHR 0x0A] @ ''}'' @ [CHR 0x0A]"

definition HasSuffix :: "string \<Rightarrow> string \<Rightarrow> bool" where
  "HasSuffix s p \<longleftrightarrow> length p \<le> length s \<and> drop (length s - length p) s = p"

definition ExportDot :: "Transition list \<Rightarrow> string \<Rightarrow> file_system \<Rightarrow> file_system \<times> file_error option" where
  "ExportDot order outfile0 fs =
     (let dot = dot_text order;
          outfile = (if \<not> HasSuffix outfile0 ''.dot'' then outfile0 @ ''.dot'' else outfile0)
      in case open_create True outfile fs of
           (fs1, Some err) \<Rightarrow> (fs1, Some err)
         | (fs1, None) \<Rightarrow>
             (case os_WriteString outfile dot fs1 of
                (fs2, Some err) \<Rightarrow> (fs2, Some err)
              | (fs2, None) \<Rightarrow> (fs2, if close_fails fs2 then Some CloseFailed else None)))"

section \<open>Construction\<close>

abbreviation tkey :: "Transition \<Rightarrow> eventKey" where
  "tkey t \<equiv> (Event t, From t)"

abbreviation states_of :: "Transition list \<Rightarrow> StateType set" where
  "states_of ts \<equiv> From ` set ts \<union> To ` set ts"

lemma register_transitions_Inr:
  assumes "register_transitions ts m A = Inr (m', A')"
  shows "distinct (map tkey ts) \<and> (\<forall>t\<in>set ts. m (tkey t) = None) \<and>
    m' = m ++ map_of (map (\<lambda>t. (tkey t, t)) ts) \<and> A' = A \<union> states_of ts"
  using assms
proof (induction ts arbitrary: m A)
  case (Cons t ts)
  let ?m = "m(tkey t \<mapsto> t)"
  from Cons.prems have m: "m (tkey t) = None"
    and r: "register_transitions ts ?m (insert (To t) (insert (From t) A)) = Inr (m', A')"
    by (auto simp: Let_def split: option.splits)
  note IH = Cons.IH [OF r]
  then have fresh: "tkey t \<notin> tkey ` set ts" by fastforce
  then have "tkey t \<notin> dom (map_of (map (\<lambda>t. (tkey t, t)) ts))" by (auto simp: dom_map_of_conv_image_fst)
  then have "?m ++ map_of (map (\<lambda>t. (tkey t, t)) ts) = m ++ map_of (map (\<lambda>t. (tkey t, t)) (t # ts))"
    by (simp add: map_add_upd_left)
  with IH have "m' = m ++ map_of (map (\<lambda>t. (tkey t, t)) (t # ts))" by metis
  moreover have "\<forall>u\<in>set (t # ts). m (tkey u) = None" using IH fresh m by (auto split: if_splits)
  moreover have "distinct (map tkey (t # ts))" "A' = A \<union> states_of (t # ts)" using IH fresh by auto
  ultimately show ?case by blast
qed simp

lemma register_transitions_Inl:
  assumes "register_transitions ts m A = Inl e"
  shows "\<exists>pre t post. ts = pre @ t # post \<and> e = DuplicateTransition t \<and> distinct (map tkey pre) \<and>
    (\<forall>u\<in>set pre. m (tkey u) = None) \<and> (tkey t \<in> tkey ` set pre \<or> m (tkey t) \<noteq> None)"
  using assms
proof (induction ts arbitrary: m A)
  case (Cons t ts)
  show ?case
  proof (cases "m (tkey t)")
    case None
    with Cons.prems have "register_transitions ts (m(tkey t \<mapsto> t)) (insert (To t) (insert (From t) A)) = Inl e"
      by (simp add: Let_def)
    from Cons.IH [OF this] obtain pre u post where IH: "ts = pre @ u # post" "e = DuplicateTransition u"
      "distinct (map tkey pre)" "\<forall>v\<in>set pre. (m(tkey t \<mapsto> t)) (tkey v) = None"
      "tkey u \<in> tkey ` set pre \<or> (m(tkey t \<mapsto> t)) (tkey u) \<noteq> None" by blast
    then have "tkey t \<notin> tkey ` set pre" "\<forall>v\<in>set pre. m (tkey v) = None" by (auto split: if_splits)
    with IH None show ?thesis
      by (intro exI [of _ "t # pre"] exI [of _ u] exI [of _ post]) (auto split: if_splits)
  next
    case (Some u)
    with Cons.prems show ?thesis
      by (intro exI [of _ "[]"] exI [of _ t] exI [of _ ts]) (auto simp: Let_def)
  qed
qed simp

lemma register_callbacks_spec:
  "register_callbacks cs A m =
    (case find (\<lambda>(s, c). s \<notin> A) cs of
       Some (s, c) \<Rightarrow> Inl (UnknownState s)
     | None \<Rightarrow> Inr (\<lambda>s. case map_of (rev cs) s of Some c \<Rightarrow> c | None \<Rightarrow> m s))"
proof (induction cs arbitrary: m)
  case (Cons sc cs)
  obtain s c where sc: "sc = (s, c)" by (cases sc)
  have "(\<lambda>x. case map_of (rev cs) x of None \<Rightarrow> (m(s := c)) x | Some c \<Rightarrow> c) =
      (\<lambda>x. case map_of (rev (sc # cs)) x of None \<Rightarrow> m x | Some c \<Rightarrow> c)"
    by (auto simp: sc fun_eq_iff map_add_def split: option.splits)
  with Cons show ?case by (simp add: sc split: option.split)
qed simp

lemma map_of_tkeys:
  assumes "distinct (map tkey ts)"
  shows "map_of (map (\<lambda>t. (tkey t, t)) ts) k = Some t \<longleftrightarrow> t \<in> set ts \<and> tkey t = k"
proof -
  have "distinct (map fst (map (\<lambda>t. (tkey t, t)) ts))" using assms by (simp add: comp_def)
  then show ?thesis by (auto simp: map_of_eq_Some_iff)
qed

definition callback_of :: "(StateType \<times> 'w Callback option) list \<Rightarrow> StateType \<Rightarrow> 'w Callback option" where
  "callback_of cs s = (case map_of cs s of Some c \<Rightarrow> c | None \<Rightarrow> None)"

lemma NewFSM_Inr:
  assumes "NewFSM ts cs mf g = (g', Inr fsm)" "distinct (map fst cs)"
  shows "distinct (map tkey ts)" "fst ` set cs \<subseteq> states_of ts"
    "transitions fsm (ev, s) = Some t \<longleftrightarrow> t \<in> set ts \<and> Event t = ev \<and> From t = s"
    "callbacks fsm = callback_of cs"
proof -
  from assms obtain m A c where r: "register_transitions ts Map.empty {} = Inr (m, A)"
    "register_callbacks cs A (\<lambda>_. None) = Inr c" "fsm = \<lparr>transitions = m, callbacks = c\<rparr>"
    by (auto simp: NewFSM_def split: sum.splits)
  note t = register_transitions_Inr [OF r(1)]
  then show "distinct (map tkey ts)" by simp
  from t show "transitions fsm (ev, s) = Some t \<longleftrightarrow> t \<in> set ts \<and> Event t = ev \<and> From t = s"
    by (auto simp: r(3) map_of_tkeys)
  from r(2) have f: "find (\<lambda>(s, c). s \<notin> A) cs = None"
    and c: "c = (\<lambda>s. case map_of (rev cs) s of Some c \<Rightarrow> c | None \<Rightarrow> None)"
    by (auto simp: register_callbacks_spec split: option.splits prod.splits)
  from f t show "fst ` set cs \<subseteq> states_of ts" by (auto simp: find_None_iff)
  have "map_of (rev cs) = map_of cs" using assms(2) by (simp add: map_of_inject_set rev_map [symmetric])
  then show "callbacks fsm = callback_of cs" by (simp add: r(3) c callback_of_def fun_eq_iff)
qed

section \<open>Properties\<close>

text \<open>\<^verbatim>\<open>NewFSM\<close> accepts exactly the tables in which no event has two transitions from one state and
  every callback belongs to a state of the table. The machine then holds exactly the given transitions, each under
  its own event and source, and the given callbacks; otherwise the error names a transition that repeats an
  earlier key, or a callback's state that no transition mentions.\<close>

lemma fsm_new:
  assumes "distinct (map fst cs)"
  shows "case snd (NewFSM ts cs mf g) of
      Inr fsm \<Rightarrow> distinct (map tkey ts) \<and> fst ` set cs \<subseteq> states_of ts \<and>
        (\<forall>ev s t. transitions fsm (ev, s) = Some t \<longleftrightarrow> t \<in> set ts \<and> Event t = ev \<and> From t = s) \<and>
        callbacks fsm = callback_of cs
    | Inl (DuplicateTransition t) \<Rightarrow>
        (\<exists>pre post. ts = pre @ t # post \<and> distinct (map tkey pre) \<and> tkey t \<in> tkey ` set pre)
    | Inl (UnknownState s) \<Rightarrow> distinct (map tkey ts) \<and> s \<in> fst ` set cs - states_of ts
    | Inl (UnknownTransition s ev) \<Rightarrow> False"
proof (cases "register_transitions ts Map.empty {}")
  case (Inl e)
  from register_transitions_Inl [OF Inl] obtain pre t post where "ts = pre @ t # post"
    "e = DuplicateTransition t" "distinct (map tkey pre)" "tkey t \<in> tkey ` set pre" by auto
  then show ?thesis using Inl by (simp add: NewFSM_def) blast
next
  case (Inr mA)
  obtain m A where mA: "mA = (m, A)" by (cases mA)
  note t = register_transitions_Inr [OF Inr [unfolded mA]]
  show ?thesis
  proof (cases "register_callbacks cs A (\<lambda>_. None)")
    case (Inl e)
    then obtain s c where "find (\<lambda>(s, c). s \<notin> A) cs = Some (s, c)" "e = UnknownState s"
      by (auto simp: register_callbacks_spec split: option.splits prod.splits)
    then have "s \<in> fst ` set cs" "s \<notin> A" by (auto simp: find_Some_iff) (metis fst_conv image_eqI nth_mem)
    with Inl Inr mA t \<open>e = UnknownState s\<close> show ?thesis by (simp add: NewFSM_def)
  next
    case (Inr c)
    with \<open>register_transitions ts Map.empty {} = Inr mA\<close> mA obtain g' fsm where
      "NewFSM ts cs mf g = (g', Inr fsm)" by (simp add: NewFSM_def)
    with NewFSM_Inr [OF this assms] show ?thesis by simp
  qed
qed

text \<open>A two-state machine with callbacks that record their calls.\<close>

type_synonym call = "StateType \<times> EventType \<times> StateType"

definition recorder :: "StateType \<Rightarrow> call list Callback" where
  "recorder key = (\<lambda>state event args log. Returns (state, log @ [(key, event, State_Current state)]))"

definition door_table :: "Transition list" where
  "door_table =
     [\<lparr>Event = ''open'', From = ''closed'', To = ''opened''\<rparr>,
      \<lparr>Event = ''close'', From = ''opened'', To = ''closed''\<rparr>,
      \<lparr>Event = ''knock'', From = ''closed'', To = ''closed''\<rparr>]"

definition door_callbacks :: "(StateType \<times> call list Callback option) list" where
  "door_callbacks = [(''closed'', Some (recorder ''closed'')), (''opened'', Some (recorder ''opened''))]"

definition door :: "call list FSM" where
  "door = \<lparr>transitions = map_of (map (\<lambda>t. (tkey t, t)) door_table), callbacks = callback_of door_callbacks\<rparr>"

lemma NewFSM_door: "NewFSM door_table door_callbacks None None = (None, Inr door)"
  by (auto simp: NewFSM_def door_table_def door_callbacks_def door_def callback_of_def fun_eq_iff)

lemma fsm_new_example:
  "transitions door (''open'', ''closed'') = Some \<lparr>Event = ''open'', From = ''closed'', To = ''opened''\<rparr>"
  using fsm_new [of door_callbacks door_table None None]
  by (simp add: NewFSM_door) (simp add: door_callbacks_def door_table_def)

text \<open>
  The specification of a machine is its table read as a labelled transition system: an event without a
  transition leaves the state alone.
\<close>

definition lts_step :: "Transition list \<Rightarrow> StateType \<Rightarrow> EventType \<Rightarrow> StateType" where
  "lts_step ts s ev = (case find (\<lambda>t. Event t = ev \<and> From t = s) ts of None \<Rightarrow> s | Some t \<Rightarrow> To t)"

definition lts_enabled :: "Transition list \<Rightarrow> StateType \<Rightarrow> EventType \<Rightarrow> bool" where
  "lts_enabled ts s ev \<longleftrightarrow> (\<exists>t\<in>set ts. Event t = ev \<and> From t = s)"

text \<open>Events sent one after the other, with the error of each call.\<close>

fun send_events ::
    "'w FSM \<Rightarrow> 'w metricFunc option \<Rightarrow> ArgsType \<Rightarrow> EventType list \<Rightarrow> State \<times> 'w \<Rightarrow>
      ((State \<times> 'w) \<times> fsm_error option list) exec" where
  "send_events fsm metric args [] sw = Returns (sw, [])"
| "send_events fsm metric args (ev # evs) sw =
     exec_bind (SendEvent fsm metric ev args sw) (\<lambda>(sw', err).
     exec_bind (send_events fsm metric args evs sw') (\<lambda>(sw'', errs). Returns (sw'', err # errs)))"

text \<open>
  What a client has to respect: callbacks return and leave the state object to the machine, and so does the
  metric function; the caller information is a string.
\<close>

definition quiet_callbacks :: "(StateType \<times> 'w Callback option) list \<Rightarrow> bool" where
  "quiet_callbacks cs \<longleftrightarrow>
     (\<forall>(s, c)\<in>set cs. \<exists>f. c = Some f \<and> (\<forall>state ev args w. \<exists>w'. f state ev args w = Returns (state, w')))"

definition quiet_metric :: "'w metricFunc option \<Rightarrow> bool" where
  "quiet_metric m \<longleftrightarrow> (\<forall>f. m = Some f \<longrightarrow> (\<forall>a b w. returns (f a b w)))"

lemma find_table:
  assumes "distinct (map tkey ts)" "t \<in> set ts"
  shows "find (\<lambda>u. Event u = Event t \<and> From u = From t) ts = Some t"
  using assms by (induction ts) (auto simp: rev_image_eqI)

lemma quiet_call:
  assumes "quiet_callbacks cs" "s \<in> fst ` set cs" "callbacks fsm = callback_of cs"
  shows "\<exists>w'. call_callback fsm s ev args (state, w) = Returns (state, w')"
proof -
  from assms(2) obtain c where "map_of cs s = Some c" by (metis map_of_eq_None_iff option.exhaust)
  moreover from this have "(s, c) \<in> set cs" by (rule map_of_SomeD)
  ultimately show ?thesis
    using assms(1,3) by (fastforce simp: call_callback_def callback_of_def quiet_callbacks_def)
qed

lemma quiet_metric_call: "quiet_metric m \<Longrightarrow> \<exists>w'. call_metric m a b w = Returns w'"
  by (auto simp: quiet_metric_def call_metric_def returns_iff split: option.splits)

lemma SendEvent_quiet:
  assumes new: "NewFSM ts cs mf g = (metric, Inr fsm)" "distinct (map fst cs)"
    and client: "states_of ts \<subseteq> fst ` set cs" "quiet_callbacks cs" "quiet_metric metric" "returns (caller_info args)"
  shows "\<exists>w'. SendEvent fsm metric ev args (\<lparr>current = s\<rparr>, w) =
    Returns ((\<lparr>current = lts_step ts s ev\<rparr>, w'),
      if lts_enabled ts s ev then None else Some (UnknownTransition s ev))"
proof (cases "lts_enabled ts s ev")
  case False
  then have "find (\<lambda>t. Event t = ev \<and> From t = s) ts = None" by (auto simp: find_None_iff lts_enabled_def)
  moreover have "transitions fsm (ev, s) = None"
    using False NewFSM_Inr(3) [OF new, of ev s] by (cases "transitions fsm (ev, s)") (auto simp: lts_enabled_def)
  ultimately show ?thesis using False by (simp add: SendEvent_def lts_step_def State_Current_def)
next
  case True
  then obtain t where t: "t \<in> set ts" "Event t = ev" "From t = s" by (auto simp: lts_enabled_def)
  then have st: "lts_step ts s ev = To t"
    using find_table [OF NewFSM_Inr(1) [OF new] t(1)] by (simp add: lts_step_def)
  have tr: "transitions fsm (ev, s) = Some t" using NewFSM_Inr(3) [OF new] t by blast
  obtain i where ci: "caller_info args = Returns i" using client(4) by (auto simp: returns_iff)
  have call: "x \<in> states_of ts \<Longrightarrow> \<exists>w'. call_callback fsm x e args (state, w) = Returns (state, w')" for x e state w
    by (rule quiet_call [OF client(2) _ NewFSM_Inr(4) [OF new]]) (use client(1) in blast)
  have ft: "s \<in> states_of ts" "To t \<in> states_of ts" using t by auto
  obtain w1 where w1: "call_callback fsm s ev args (\<lparr>current = s\<rparr>, w) = Returns (\<lparr>current = s\<rparr>, w1)"
    using call [OF ft(1)] by blast
  show ?thesis
  proof (cases "To t = s")
    case True
    with st tr ci w1 t \<open>lts_enabled ts s ev\<close> show ?thesis by (simp add: SendEvent_def State_Current_def)
  next
    case False
    obtain w2 where w2: "call_metric metric s (To t) w1 = Returns w2" using quiet_metric_call [OF client(3)] by blast
    obtain w3 where w3: "call_callback fsm s ExitEvent args (\<lparr>current = s\<rparr>, w2) = Returns (\<lparr>current = s\<rparr>, w3)"
      using call [OF ft(1)] by blast
    obtain w4 where w4: "call_callback fsm (To t) EntryEvent args (\<lparr>current = To t\<rparr>, w3) =
        Returns (\<lparr>current = To t\<rparr>, w4)"
      using call [OF ft(2)] by blast
    with False st tr ci w1 w2 w3 t \<open>lts_enabled ts s ev\<close> show ?thesis
      by (auto simp: SendEvent_def State_Current_def State_Set_def)
  qed
qed

text \<open>The run of the transition system: the last state, and the error of each event.\<close>

fun lts_run :: "Transition list \<Rightarrow> StateType \<Rightarrow> EventType list \<Rightarrow> StateType \<times> fsm_error option list" where
  "lts_run ts s [] = (s, [])"
| "lts_run ts s (ev # evs) =
     (let (s', errs) = lts_run ts (lts_step ts s ev) evs
      in (s', (if lts_enabled ts s ev then None else Some (UnknownTransition s ev)) # errs))"

text \<open>C7. The machine refines its table. If every state of the table has a callback, callbacks and metric
  function return and leave the state object alone, and the caller information is a string, then any sequence of
  \<^verbatim>\<open>SendEvent\<close> calls returns without a panic, the state object follows the labelled transition system of the
  table, and a call reports an unknown transition exactly when the table has none for that state and event.\<close>

theorem fsm_refines_table:
  assumes "NewFSM ts cs mf g = (metric, Inr fsm)" and "distinct (map fst cs)"
    and "states_of ts \<subseteq> fst ` set cs" and "quiet_callbacks cs" and "quiet_metric metric"
    and "returns (caller_info args)"
  shows "\<exists>w'. send_events fsm metric args evs (NewState s, w) =
      Returns ((NewState (fst (lts_run ts s evs)), w'), snd (lts_run ts s evs))"
proof (induction evs arbitrary: s w)
  case Nil
  then show ?case by simp
next
  case (Cons ev evs)
  obtain w1 where w1: "SendEvent fsm metric ev args (NewState s, w) =
      Returns ((NewState (lts_step ts s ev), w1), if lts_enabled ts s ev then None else Some (UnknownTransition s ev))"
    using SendEvent_quiet [OF assms] unfolding NewState_def by blast
  obtain w2 where "send_events fsm metric args evs (NewState (lts_step ts s ev), w1) =
      Returns ((NewState (fst (lts_run ts (lts_step ts s ev) evs)), w2), snd (lts_run ts (lts_step ts s ev) evs))"
    using Cons.IH by blast
  with w1 show ?case by (simp add: split_beta Let_def)
qed

theorem fsm_refines_table_witness:
  "\<exists>log. send_events door None Map.empty [''open'', ''open'', ''close''] (NewState ''closed'', []) =
     Returns ((NewState ''closed'', log), [None, Some (UnknownTransition ''opened'' ''open''), None])"
proof -
  have "distinct (map fst door_callbacks)" "states_of door_table \<subseteq> fst ` set door_callbacks"
    "quiet_callbacks door_callbacks" "quiet_metric None" "returns (caller_info Map.empty)"
    by (simp_all add: door_callbacks_def door_table_def quiet_callbacks_def recorder_def quiet_metric_def caller_info_def)
  from fsm_refines_table [OF NewFSM_door this, of "[''open'', ''open'', ''close'']" "''closed''" "[]"]
  show ?thesis by (simp add: lts_step_def lts_enabled_def door_table_def)
qed

text \<open>
  For the order of the callbacks, instrument a table: every state's callback appends its key, the event and the
  current state to a log.
\<close>

definition recording :: "Transition list \<Rightarrow> (StateType \<times> call list Callback option) list" where
  "recording ts = map (\<lambda>s. (s, Some (recorder s))) (remdups (map From ts @ map To ts))"

lemma recording_facts:
  "distinct (map fst (recording ts))" "fst ` set (recording ts) = states_of ts"
  by (auto simp: recording_def comp_def image_image)

lemma callback_of_recording: "s \<in> states_of ts \<Longrightarrow> callback_of (recording ts) s = Some (recorder s)"
  by (auto simp: callback_of_def recording_def map_of_map_restrict)

text \<open>C25. Callback order: an event on a registered transition to another state runs the source's event
  callback, then the source's exit callback, both while the state object still holds the source, then moves the
  state object and runs the target's entry callback; a transition to the same state runs the event callback
  alone.\<close>

theorem fsm_callback_order:
  assumes "NewFSM ts (recording ts) None None = (None, Inr fsm)" and "t \<in> set ts"
    and "returns (caller_info args)"
  shows "SendEvent fsm None (Event t) args (NewState (From t), log) =
    Returns ((NewState (To t), log @ [(From t, Event t, From t)] @
      (if From t = To t then [] else [(From t, ExitEvent, From t), (To t, EntryEvent, To t)])), None)"
proof -
  note new = NewFSM_Inr [OF assms(1) recording_facts(1)]
  have "transitions fsm (Event t, From t) = Some t" using new(3) assms(2) by blast
  moreover obtain i where "caller_info args = Returns i" using assms(3) by (auto simp: returns_iff)
  moreover have "callbacks fsm (From t) = Some (recorder (From t))" "callbacks fsm (To t) = Some (recorder (To t))"
    using assms(2) by (auto simp: new(4) callback_of_recording)
  ultimately show ?thesis
    by (simp add: SendEvent_def NewState_def State_Current_def State_Set_def call_callback_def call_metric_def recorder_def)
qed

theorem fsm_callback_order_witness:
  "\<exists>fsm. NewFSM door_table (recording door_table) None None = (None, Inr fsm) \<and>
    SendEvent fsm None ''open'' Map.empty (NewState ''closed'', []) =
     Returns ((NewState ''opened'', [(''closed'', ''open'', ''closed''), (''closed'', ExitEvent, ''closed''),
       (''opened'', EntryEvent, ''opened'')]), None)"
proof -
  obtain fsm where n: "NewFSM door_table (recording door_table) None None = (None, Inr fsm)"
    by (simp add: NewFSM_def door_table_def recording_def)
  let ?t = "\<lparr>Event = ''open'', From = ''closed'', To = ''opened''\<rparr>"
  have "?t \<in> set door_table" "returns (caller_info Map.empty)" by (simp_all add: door_table_def caller_info_def)
  from fsm_callback_order [OF n this, of "[]"] n show ?thesis by simp
qed

text \<open>\<^verbatim>\<open>NewFSM\<close> does not ask for a callback per state, and \<^verbatim>\<open>SendEvent\<close> does not check for one:
  on a machine it accepted, an event whose source state has no callback panics on a nil function value, and so does
  one whose target state has none, after the source's callbacks have run and the state object has moved.\<close>

lemma fsm_missing_callback_panics:
  assumes "NewFSM ts cs None None = (None, Inr fsm)" and "distinct (map fst cs)" and "t \<in> set ts"
    and "returns (caller_info args)"
  shows "(From t \<notin> fst ` set cs \<longrightarrow>
      SendEvent fsm None (Event t) args (NewState (From t), w) = Panics NilDereference) \<and>
    (quiet_callbacks cs \<and> From t \<in> fst ` set cs \<and> To t \<notin> fst ` set cs \<longrightarrow>
      SendEvent fsm None (Event t) args (NewState (From t), w) = Panics NilDereference)"
proof (intro conjI impI)
  note new = NewFSM_Inr [OF assms(1,2)]
  have tr: "transitions fsm (Event t, From t) = Some t" using new(3) assms(3) by blast
  obtain i where ci: "caller_info args = Returns i" using assms(4) by (auto simp: returns_iff)
  have none: "call_callback fsm x ev args sw = Panics NilDereference" if "x \<notin> fst ` set cs" for x ev sw
    using that by (simp add: call_callback_def new(4) callback_of_def map_of_eq_None_iff [THEN iffD2] split_beta)
  show "SendEvent fsm None (Event t) args (NewState (From t), w) = Panics NilDereference" if "From t \<notin> fst ` set cs"
    using tr ci none [OF that] by (simp add: SendEvent_def NewState_def State_Current_def)
  assume q: "quiet_callbacks cs \<and> From t \<in> fst ` set cs \<and> To t \<notin> fst ` set cs"
  then have ne: "From t \<noteq> To t" by metis
  have call: "\<exists>w'. call_callback fsm (From t) ev args (state, w) = Returns (state, w')" for ev state w
    using q by (intro quiet_call [OF _ _ new(4)]) auto
  obtain w1 where "call_callback fsm (From t) (Event t) args (\<lparr>current = From t\<rparr>, w) = Returns (\<lparr>current = From t\<rparr>, w1)"
    using call by blast
  moreover obtain w2 where "call_callback fsm (From t) ExitEvent args (\<lparr>current = From t\<rparr>, w1) = Returns (\<lparr>current = From t\<rparr>, w2)"
    using call by blast
  ultimately show "SendEvent fsm None (Event t) args (NewState (From t), w) = Panics NilDereference"
    using tr ci none q ne by (simp add: SendEvent_def NewState_def State_Current_def call_metric_def)
qed

lemma fsm_missing_callback_panics_example:
  "\<exists>fsm :: call list FSM. NewFSM door_table [] None None = (None, Inr fsm) \<and>
    SendEvent fsm None ''open'' Map.empty (NewState ''closed'', []) = Panics NilDereference"
proof -
  obtain fsm :: "call list FSM" where n: "NewFSM door_table [] None None = (None, Inr fsm)"
    by (simp add: NewFSM_def door_table_def)
  let ?t = "\<lparr>Event = ''open'', From = ''closed'', To = ''opened''\<rparr>"
  have "?t \<in> set door_table" "returns (caller_info Map.empty)" by (simp_all add: door_table_def caller_info_def)
  from fsm_missing_callback_panics [OF n _ this, of "[]"] n show ?thesis by simp
qed

end
