(* ===== verification/SafeChannel.thy ===== *)
theory SafeChannel
  imports Prelude
begin

text \<open>
  \<^verbatim>\<open>lib/util/safe_channel/safe_channel.go\<close>: a channel with a closed flag behind a read-write
  mutex, used by many goroutines. The model is the interleaving of the goroutines: each has a program
  counter, and one step is one operation of the source (a lock operation, the test of the flag, the channel
  operation, the assignment, the deferred unlock). As in Go's \<^verbatim>\<open>sync.RWMutex\<close>, a goroutine that waits
  for the write lock keeps new readers out. A send to, or a close of, a closed channel panics.
\<close>

section \<open>Configurations\<close>

datatype 'a pc =
    Idle
  | SendStart 'a | SendLocked 'a | SendReady 'a | SendUnlock
  | CloseStart | ClosePending | CloseLocked | CloseReady | CloseMark | CloseUnlock
  | IsClosedStart | IsClosedLocked | IsClosedUnlock bool
  | Panicked go_panic

text \<open>
  The fields of \<^verbatim>\<open>SafeCh\<close>: the mutex (its readers and its writer), the flag, and the channel with its
  capacity, its buffer and whether it is closed. \<open>sent\<close> and \<open>rcvd\<close> record the values that went in and came out.
\<close>

record 'a SafeCh =
  readers :: "nat set"
  writer :: "nat option"
  closed :: bool
  capacity :: nat
  buf :: "'a list"
  ch_closed :: bool
  sent :: "'a list"
  rcvd :: "'a list"
  pcs :: "nat \<Rightarrow> 'a pc"

text \<open>\<^verbatim>\<open>make(chan T, size)\<close> panics on a negative size.\<close>

definition NewSafeCh :: "int \<Rightarrow> 'a SafeCh exec" where
  "NewSafeCh size0 =
     (if size0 < 0 then Panics MakeChanSizeOutOfRange
      else Returns \<lparr>readers = {}, writer = None, closed = False, capacity = nat size0, buf = [],
                    ch_closed = False, sent = [], rcvd = [], pcs = (\<lambda>_. Idle)\<rparr>)"

definition goto :: "nat \<Rightarrow> 'a pc \<Rightarrow> 'a SafeCh \<Rightarrow> 'a SafeCh" where
  "goto t p c = c\<lparr>pcs := (pcs c)(t := p)\<rparr>"

definition can_rlock :: "'a SafeCh \<Rightarrow> bool" where
  "can_rlock c \<longleftrightarrow> writer c = None \<and> (\<forall>u. pcs c u \<noteq> ClosePending)"

section \<open>Steps\<close>

text \<open>A step belongs to a goroutine inside the methods, or is a receive on the channel of \<^verbatim>\<open>GetRcvChan\<close>.\<close>

datatype label = Thread nat | Receive

inductive SafeCh_Send :: "nat \<Rightarrow> 'a SafeCh \<Rightarrow> 'a SafeCh \<Rightarrow> bool" where
  send_call: "pcs c t = Idle \<Longrightarrow> SafeCh_Send t c (goto t (SendStart e) c)"
| send_rlock: "pcs c t = SendStart e \<Longrightarrow> can_rlock c \<Longrightarrow>
    SafeCh_Send t c (goto t (SendLocked e) (c\<lparr>readers := insert t (readers c)\<rparr>))"
| send_test: "pcs c t = SendLocked e \<Longrightarrow>
    SafeCh_Send t c (goto t (if \<not> closed c then SendReady e else SendUnlock) c)"
| send_buffer: "pcs c t = SendReady e \<Longrightarrow> \<not> ch_closed c \<Longrightarrow> length (buf c) < capacity c \<Longrightarrow>
    SafeCh_Send t c (goto t SendUnlock (c\<lparr>buf := buf c @ [e], sent := sent c @ [e]\<rparr>))"
| send_handoff: "pcs c t = SendReady e \<Longrightarrow> \<not> ch_closed c \<Longrightarrow> capacity c = 0 \<Longrightarrow>
    SafeCh_Send t c (goto t SendUnlock (c\<lparr>sent := sent c @ [e], rcvd := rcvd c @ [e]\<rparr>))"
| send_panic: "pcs c t = SendReady e \<Longrightarrow> ch_closed c \<Longrightarrow>
    SafeCh_Send t c (goto t (Panicked SendOnClosedChannel) c)"
| send_runlock: "pcs c t = SendUnlock \<Longrightarrow>
    SafeCh_Send t c (goto t Idle (c\<lparr>readers := readers c - {t}\<rparr>))"

inductive SafeCh_Close :: "nat \<Rightarrow> 'a SafeCh \<Rightarrow> 'a SafeCh \<Rightarrow> bool" where
  close_call: "pcs c t = Idle \<Longrightarrow> SafeCh_Close t c (goto t CloseStart c)"
| close_request: "pcs c t = CloseStart \<Longrightarrow> SafeCh_Close t c (goto t ClosePending c)"
| close_lock: "pcs c t = ClosePending \<Longrightarrow> readers c = {} \<Longrightarrow> writer c = None \<Longrightarrow>
    SafeCh_Close t c (goto t CloseLocked (c\<lparr>writer := Some t\<rparr>))"
| close_test: "pcs c t = CloseLocked \<Longrightarrow>
    SafeCh_Close t c (goto t (if \<not> closed c then CloseReady else CloseUnlock) c)"
| close_chan: "pcs c t = CloseReady \<Longrightarrow> \<not> ch_closed c \<Longrightarrow>
    SafeCh_Close t c (goto t CloseMark (c\<lparr>ch_closed := True\<rparr>))"
| close_panic: "pcs c t = CloseReady \<Longrightarrow> ch_closed c \<Longrightarrow>
    SafeCh_Close t c (goto t (Panicked CloseOfClosedChannel) c)"
| close_mark: "pcs c t = CloseMark \<Longrightarrow> SafeCh_Close t c (goto t CloseUnlock (c\<lparr>closed := True\<rparr>))"
| close_unlock: "pcs c t = CloseUnlock \<Longrightarrow> SafeCh_Close t c (goto t Idle (c\<lparr>writer := None\<rparr>))"

inductive SafeCh_IsClosed :: "nat \<Rightarrow> 'a SafeCh \<Rightarrow> 'a SafeCh \<Rightarrow> bool" where
  isclosed_call: "pcs c t = Idle \<Longrightarrow> SafeCh_IsClosed t c (goto t IsClosedStart c)"
| isclosed_rlock: "pcs c t = IsClosedStart \<Longrightarrow> can_rlock c \<Longrightarrow>
    SafeCh_IsClosed t c (goto t IsClosedLocked (c\<lparr>readers := insert t (readers c)\<rparr>))"
| isclosed_read: "pcs c t = IsClosedLocked \<Longrightarrow> SafeCh_IsClosed t c (goto t (IsClosedUnlock (closed c)) c)"
| isclosed_runlock: "pcs c t = IsClosedUnlock b \<Longrightarrow>
    SafeCh_IsClosed t c (goto t Idle (c\<lparr>readers := readers c - {t}\<rparr>))"

inductive SafeCh_receive :: "'a SafeCh \<Rightarrow> 'a SafeCh \<Rightarrow> bool" where
  receive: "buf c = x # xs \<Longrightarrow> SafeCh_receive c (c\<lparr>buf := xs, rcvd := rcvd c @ [x]\<rparr>)"

inductive sc_step :: "label \<Rightarrow> 'a SafeCh \<Rightarrow> 'a SafeCh \<Rightarrow> bool" where
  step_send: "SafeCh_Send t c c' \<Longrightarrow> sc_step (Thread t) c c'"
| step_close: "SafeCh_Close t c c' \<Longrightarrow> sc_step (Thread t) c c'"
| step_isclosed: "SafeCh_IsClosed t c c' \<Longrightarrow> sc_step (Thread t) c c'"
| step_receive: "SafeCh_receive c c' \<Longrightarrow> sc_step Receive c c'"

text \<open>The configurations a new channel can reach.\<close>

inductive sc_reach :: "int \<Rightarrow> 'a SafeCh \<Rightarrow> bool" for size0 :: int where
  reach_new: "NewSafeCh size0 = Returns c \<Longrightarrow> sc_reach size0 c"
| reach_step: "sc_reach size0 c \<Longrightarrow> sc_step l c c' \<Longrightarrow> sc_reach size0 c'"

inductive_cases SafeCh_SendE: "SafeCh_Send t c c'"
inductive_cases SafeCh_CloseE: "SafeCh_Close t c c'"
inductive_cases SafeCh_IsClosedE: "SafeCh_IsClosed t c c'"
inductive_cases SafeCh_receiveE: "SafeCh_receive c c'"
inductive_cases sc_stepE: "sc_step l c c'"

lemma goto_simps [simp]:
  "pcs (goto t p c) = (pcs c)(t := p)" "readers (goto t p c) = readers c" "writer (goto t p c) = writer c"
  "closed (goto t p c) = closed c" "capacity (goto t p c) = capacity c" "buf (goto t p c) = buf c"
  "ch_closed (goto t p c) = ch_closed c" "sent (goto t p c) = sent c" "rcvd (goto t p c) = rcvd c"
  by (simp_all add: goto_def)

section \<open>Invariant\<close>

fun holds_read :: "'a pc \<Rightarrow> bool" where
  "holds_read (SendLocked e) = True"
| "holds_read (SendReady e) = True"
| "holds_read SendUnlock = True"
| "holds_read IsClosedLocked = True"
| "holds_read (IsClosedUnlock b) = True"
| "holds_read _ = False"

fun holds_write :: "'a pc \<Rightarrow> bool" where
  "holds_write CloseLocked = True"
| "holds_write CloseReady = True"
| "holds_write CloseMark = True"
| "holds_write CloseUnlock = True"
| "holds_write _ = False"

definition lock_inv :: "'a SafeCh \<Rightarrow> bool" where
  "lock_inv c \<longleftrightarrow> (\<forall>t. t \<in> readers c \<longleftrightarrow> holds_read (pcs c t)) \<and>
     (\<forall>t. writer c = Some t \<longleftrightarrow> holds_write (pcs c t)) \<and> (writer c \<noteq> None \<longrightarrow> readers c = {}) \<and>
     (\<forall>t p. pcs c t \<noteq> Panicked p)"

definition flag_inv :: "'a SafeCh \<Rightarrow> bool" where
  "flag_inv c \<longleftrightarrow> (\<forall>t e. pcs c t = SendReady e \<longrightarrow> \<not> closed c) \<and> (\<forall>t. pcs c t = CloseReady \<longrightarrow> \<not> closed c) \<and>
     (ch_closed c \<longleftrightarrow> closed c \<or> (\<exists>t. pcs c t = CloseMark))"

definition data_inv :: "'a SafeCh \<Rightarrow> bool" where
  "data_inv c \<longleftrightarrow> sent c = rcvd c @ buf c \<and> length (buf c) \<le> capacity c"

definition sc_inv :: "'a SafeCh \<Rightarrow> bool" where
  "sc_inv c \<longleftrightarrow> lock_inv c \<and> flag_inv c \<and> data_inv c"

lemma sender_sees_open_channel:
  assumes "lock_inv c" "flag_inv c" "pcs c t = SendReady e" shows "\<not> ch_closed c"
proof -
  have "t \<in> readers c" using assms(1,3) by (simp add: lock_inv_def)
  then have "writer c = None" using assms(1) by (auto simp: lock_inv_def)
  then have "\<forall>u. pcs c u \<noteq> CloseMark" using assms(1) by (metis holds_write.simps(3) lock_inv_def option.distinct(1))
  with assms(2,3) show ?thesis by (auto simp: flag_inv_def)
qed

lemma closer_sees_open_channel:
  assumes "lock_inv c" "flag_inv c" "pcs c t = CloseReady" shows "\<not> ch_closed c"
proof -
  have "writer c = Some t" using assms(1,3) by (simp add: lock_inv_def)
  then have "\<forall>u. pcs c u \<noteq> CloseMark"
    using assms(1,3) by (metis holds_write.simps(3) lock_inv_def option.inject pc.distinct)
  with assms(2,3) show ?thesis by (auto simp: flag_inv_def)
qed

lemma lock_inv_goto:
  assumes "lock_inv c" "holds_read p \<longleftrightarrow> holds_read (pcs c t)" "holds_write p \<longleftrightarrow> holds_write (pcs c t)"
    "\<forall>q. p \<noteq> Panicked q"
  shows "lock_inv (goto t p c)"
  using assms by (simp add: lock_inv_def)

lemma lock_inv_cong:
  "lock_inv (c\<lparr>buf := b, sent := s\<rparr>) = lock_inv c" "lock_inv (c\<lparr>sent := s, rcvd := r\<rparr>) = lock_inv c"
  "lock_inv (c\<lparr>buf := b, rcvd := r\<rparr>) = lock_inv c"
  "lock_inv (c\<lparr>ch_closed := x\<rparr>) = lock_inv c" "lock_inv (c\<lparr>closed := x\<rparr>) = lock_inv c"
  by (simp_all add: lock_inv_def)

lemma lock_inv_rlock:
  assumes "lock_inv c" "can_rlock c" "holds_read p" "\<not> holds_write p" "\<not> holds_write (pcs c t)" "\<forall>q. p \<noteq> Panicked q"
  shows "lock_inv (goto t p (c\<lparr>readers := insert t (readers c)\<rparr>))"
  using assms by (simp add: lock_inv_def can_rlock_def)

lemma lock_inv_runlock:
  assumes "lock_inv c" "\<not> holds_write (pcs c t)"
  shows "lock_inv (goto t Idle (c\<lparr>readers := readers c - {t}\<rparr>))"
  using assms by (simp add: lock_inv_def)

lemma Send_lock_inv: "SafeCh_Send t c c' \<Longrightarrow> lock_inv c \<Longrightarrow> flag_inv c \<Longrightarrow> lock_inv c'"
  by (erule SafeCh_SendE)
    (auto intro: lock_inv_goto lock_inv_rlock lock_inv_runlock simp: lock_inv_cong dest: sender_sees_open_channel)

lemma Close_lock_inv: "SafeCh_Close t c c' \<Longrightarrow> lock_inv c \<Longrightarrow> flag_inv c \<Longrightarrow> lock_inv c'"
proof (erule SafeCh_CloseE)
  assume "lock_inv c" "pcs c t = ClosePending" "readers c = {}" "writer c = None"
    "c' = goto t CloseLocked (c\<lparr>writer := Some t\<rparr>)"
  then show "lock_inv c'" by (auto simp: lock_inv_def)
next
  assume a: "lock_inv c" "pcs c t = CloseUnlock" "c' = goto t Idle (c\<lparr>writer := None\<rparr>)"
  then have w: "writer c = Some t" by (simp add: lock_inv_def)
  have "\<not> holds_write (pcs c u)" if "u \<noteq> t" for u
    using a(1) w that unfolding lock_inv_def by (metis option.inject)
  with a show "lock_inv c'" by (auto simp: lock_inv_def)
qed (auto intro!: lock_inv_goto simp: lock_inv_cong dest: closer_sees_open_channel)

lemma IsClosed_lock_inv: "SafeCh_IsClosed t c c' \<Longrightarrow> lock_inv c \<Longrightarrow> lock_inv c'"
  by (erule SafeCh_IsClosedE) (auto intro: lock_inv_goto lock_inv_rlock lock_inv_runlock)

lemma flag_inv_goto:
  assumes "flag_inv c" "\<forall>e. p = SendReady e \<longrightarrow> \<not> closed c" "p = CloseReady \<longrightarrow> \<not> closed c" "p \<noteq> CloseMark"
    "pcs c t \<noteq> CloseMark"
  shows "flag_inv (goto t p c)"
  using assms by (simp add: flag_inv_def) metis

lemma flag_inv_cong:
  "flag_inv (c\<lparr>buf := b, sent := s\<rparr>) = flag_inv c" "flag_inv (c\<lparr>sent := s, rcvd := r\<rparr>) = flag_inv c"
  "flag_inv (c\<lparr>buf := b, rcvd := r\<rparr>) = flag_inv c"
  "flag_inv (c\<lparr>readers := x\<rparr>) = flag_inv c" "flag_inv (c\<lparr>writer := y\<rparr>) = flag_inv c"
  by (simp_all add: flag_inv_def)

lemma Send_flag_inv: "SafeCh_Send t c c' \<Longrightarrow> flag_inv c \<Longrightarrow> flag_inv c'"
  by (erule SafeCh_SendE) (auto intro!: flag_inv_goto simp: flag_inv_cong)

text \<open>The writer is alone: no reader is about to send while the flag is being set.\<close>

lemma Close_flag_inv: "SafeCh_Close t c c' \<Longrightarrow> lock_inv c \<Longrightarrow> flag_inv c \<Longrightarrow> flag_inv c'"
proof (erule SafeCh_CloseE)
  assume a: "flag_inv c" "pcs c t = CloseReady" "\<not> ch_closed c" "c' = goto t CloseMark (c\<lparr>ch_closed := True\<rparr>)"
  then show "flag_inv c'" by (auto simp: flag_inv_def)
next
  assume a: "lock_inv c" "flag_inv c" "pcs c t = CloseMark" "c' = goto t CloseUnlock (c\<lparr>closed := True\<rparr>)"
  have w: "writer c = Some t" using a(1,3) by (simp add: lock_inv_def)
  then have "\<not> holds_read (pcs c u)" for u using a(1) by (metis empty_iff lock_inv_def option.distinct(1))
  then have "pcs c u \<noteq> SendReady e" for u e by (metis holds_read.simps(2))
  moreover have "pcs c u \<noteq> CloseReady" for u
    using a(1,3) w by (metis holds_write.simps(2) lock_inv_def option.inject pc.distinct)
  moreover have "ch_closed c" using a(2,3) by (auto simp: flag_inv_def)
  ultimately show "flag_inv c'" using a(4) by (simp add: flag_inv_def)
qed (auto intro!: flag_inv_goto simp: flag_inv_cong)

lemma IsClosed_flag_inv: "SafeCh_IsClosed t c c' \<Longrightarrow> flag_inv c \<Longrightarrow> flag_inv c'"
  by (erule SafeCh_IsClosedE) (auto intro!: flag_inv_goto simp: flag_inv_cong)

lemma step_data_inv:
  "SafeCh_Send t c c' \<Longrightarrow> data_inv c \<Longrightarrow> data_inv c'"
  "SafeCh_Close t c c' \<Longrightarrow> data_inv c \<Longrightarrow> data_inv c'"
  "SafeCh_IsClosed t c c' \<Longrightarrow> data_inv c \<Longrightarrow> data_inv c'"
  "SafeCh_receive c c' \<Longrightarrow> data_inv c \<Longrightarrow> data_inv c'"
  by (auto simp: data_inv_def elim!: SafeCh_SendE SafeCh_CloseE SafeCh_IsClosedE SafeCh_receiveE)

lemma step_sc_inv: "sc_step l c c' \<Longrightarrow> sc_inv c \<Longrightarrow> sc_inv c'"
  unfolding sc_inv_def
proof (erule sc_stepE)
  assume "SafeCh_receive c c'" "lock_inv c \<and> flag_inv c \<and> data_inv c"
  then show "lock_inv c' \<and> flag_inv c' \<and> data_inv c'"
    by (auto elim!: SafeCh_receiveE simp: lock_inv_cong flag_inv_cong data_inv_def)
qed (simp_all add: Send_lock_inv Send_flag_inv Close_lock_inv Close_flag_inv IsClosed_lock_inv IsClosed_flag_inv
    step_data_inv)

lemma new_sc_inv: "NewSafeCh size0 = Returns c \<Longrightarrow> sc_inv c"
  by (auto simp: NewSafeCh_def sc_inv_def lock_inv_def flag_inv_def data_inv_def split: if_splits)

lemma reach_sc_inv: "sc_reach size0 c \<Longrightarrow> sc_inv c"
  by (induction rule: sc_reach.induct) (auto intro: new_sc_inv step_sc_inv)

section \<open>Properties\<close>

text \<open>C8. In every interleaving of any number of goroutines that send, close, query and receive: no goroutine
  panics (no send on a closed channel, no second close), what was received followed by what is buffered is exactly
  what was sent, in that order, and the buffer never exceeds the size the channel was made with.\<close>

theorem safe_channel_safety:
  assumes "sc_reach size0 c"
  shows "(\<forall>t p. pcs c t \<noteq> Panicked p) \<and> sent c = rcvd c @ buf c \<and> int (length (buf c)) \<le> size0"
proof -
  have "sc_inv c" using assms by (rule reach_sc_inv)
  moreover have "int (capacity c) = size0"
    using assms
  proof (induction rule: sc_reach.induct)
    case (reach_new c)
    then show ?case by (auto simp: NewSafeCh_def split: if_splits)
  next
    case (reach_step c l c')
    have "capacity c' = capacity c"
      using reach_step.hyps(2)
      by (auto elim!: sc_stepE SafeCh_SendE SafeCh_CloseE SafeCh_IsClosedE SafeCh_receiveE)
    with reach_step.IH show ?case by simp
  qed
  ultimately show ?thesis by (auto simp: sc_inv_def lock_inv_def data_inv_def)
qed

definition empty_ch :: "nat \<Rightarrow> nat SafeCh" where
  "empty_ch n = \<lparr>readers = {}, writer = None, closed = False, capacity = n, buf = [], ch_closed = False,
     sent = [], rcvd = [], pcs = (\<lambda>_. Idle)\<rparr>"

lemma reach_empty: "sc_reach (int n) (empty_ch n)"
  by (rule reach_new) (simp add: NewSafeCh_def empty_ch_def)

theorem safe_channel_safety_witness:
  "\<forall>t p. pcs (empty_ch 3) t \<noteq> Panicked p"
  using safe_channel_safety [OF reach_empty [of 3]] by simp

text \<open>Runs whose labels satisfy a predicate.\<close>

inductive sc_steps :: "(label \<Rightarrow> bool) \<Rightarrow> 'a SafeCh \<Rightarrow> 'a SafeCh \<Rightarrow> bool" for P :: "label \<Rightarrow> bool" and c :: "'a SafeCh" where
  steps_refl: "sc_steps P c c"
| steps_step: "sc_steps P c d \<Longrightarrow> P l \<Longrightarrow> sc_step l d e \<Longrightarrow> sc_steps P c e"

lemma steps_sc_inv: "sc_steps P c d \<Longrightarrow> sc_inv c \<Longrightarrow> sc_inv d"
  by (induction rule: sc_steps.induct) (auto intro: step_sc_inv)

lemma closed_step:
  assumes "sc_step l c c'" "sc_inv c" "closed c"
  shows "closed c' \<and> sent c' = sent c"
  using assms(1)
proof (cases rule: sc_step.cases)
  case (step_send t)
  have "pcs c t \<noteq> SendReady e" for e using assms(2,3) by (auto simp: sc_inv_def flag_inv_def)
  with step_send(2) assms(3) show ?thesis by (auto elim!: SafeCh_SendE)
qed (use assms(3) in \<open>auto elim!: SafeCh_CloseE SafeCh_IsClosedE SafeCh_receiveE\<close>)

text \<open>Closing is final: from a reachable configuration in which the flag is set, after any further steps the
  flag is still set, the channel is still closed and nothing more has been sent.\<close>

lemma safe_channel_closed_is_final:
  assumes "sc_reach size0 c" and "closed c" and "sc_steps (\<lambda>_. True) c d"
  shows "closed d \<and> ch_closed d \<and> sent d = sent c"
  using assms(3)
proof (induction rule: sc_steps.induct)
  case steps_refl
  show ?case using reach_sc_inv [OF assms(1)] assms(2) by (auto simp: sc_inv_def flag_inv_def)
next
  case (steps_step d l e)
  note inv = steps_sc_inv [OF steps_step.hyps(1) reach_sc_inv [OF assms(1)]]
  from closed_step [OF steps_step.hyps(3) inv] steps_step.IH have "closed e \<and> sent e = sent c" by simp
  moreover have "sc_inv e" using step_sc_inv [OF steps_step.hyps(3) inv] .
  ultimately show ?case by (auto simp: sc_inv_def flag_inv_def)
qed

lemmas send_intros = step_send [OF send_call] step_send [OF send_rlock] step_send [OF send_test]
  step_send [OF send_buffer] step_send [OF send_runlock]
lemmas close_intros = step_close [OF close_call] step_close [OF close_request] step_close [OF close_lock]
  step_close [OF close_test] step_close [OF close_chan] step_close [OF close_mark]

text \<open>A goroutine closes the empty channel; another one fills a channel of size one and sends again.\<close>

lemma reach_closed: "\<exists>c :: nat SafeCh. sc_reach 1 c \<and> closed c"
proof -
  let ?c1 = "goto 0 CloseStart (empty_ch 1)"
  let ?c2 = "goto 0 ClosePending ?c1"
  have "sc_reach 1 (empty_ch 1)" using reach_empty [of 1] by simp
  then have "sc_reach 1 ?c1" by (rule reach_step [OF _ close_intros(1)]) (simp add: empty_ch_def)
  then have c2: "sc_reach 1 ?c2" by (rule reach_step [OF _ close_intros(2)]) simp
  let ?c3 = "goto 0 CloseLocked (?c2\<lparr>writer := Some 0\<rparr>)"
  let ?c4 = "goto 0 (if \<not> closed ?c3 then CloseReady else CloseUnlock) ?c3"
  let ?c5 = "goto 0 CloseMark (?c4\<lparr>ch_closed := True\<rparr>)"
  let ?c6 = "goto 0 CloseUnlock (?c5\<lparr>closed := True\<rparr>)"
  have "sc_reach 1 ?c3" using c2 by (rule reach_step [OF _ close_intros(3)]) (simp_all add: empty_ch_def)
  then have "sc_reach 1 ?c4" by (rule reach_step [OF _ close_intros(4)]) simp
  then have "sc_reach 1 ?c5" by (rule reach_step [OF _ close_intros(5)]) (simp_all add: empty_ch_def)
  then have "sc_reach 1 ?c6" by (rule reach_step [OF _ close_intros(6)]) simp
  moreover have "closed ?c6" by simp
  ultimately show ?thesis by blast
qed

lemma safe_channel_closed_is_final_example:
  "\<exists>c :: nat SafeCh. sc_reach 1 c \<and> closed c \<and> ch_closed c"
proof -
  obtain c :: "nat SafeCh" where "sc_reach 1 c" "closed c" using reach_closed by blast
  with safe_channel_closed_is_final [OF this steps_refl] show ?thesis by blast
qed

lemma blocked_step:
  assumes "sc_step l c c'" "l \<noteq> Receive" "sc_inv c" "0 < capacity c"
    "pcs c t = SendReady e" "length (buf c) = capacity c" "pcs c u = ClosePending"
  shows "pcs c' t = SendReady e \<and> length (buf c') = capacity c' \<and> pcs c' u = ClosePending \<and>
    0 < capacity c' \<and> (\<forall>v. holds_read (pcs c' v) \<longrightarrow> holds_read (pcs c v))"
proof -
  have r: "t \<in> readers c" using assms(3,5) by (simp add: sc_inv_def lock_inv_def)
  then have nr: "readers c \<noteq> {}" by blast
  have oc: "\<not> ch_closed c" using assms(3,5) by (meson sc_inv_def sender_sees_open_channel)
  have nl: "\<not> can_rlock c" using assms(7) by (auto simp: can_rlock_def)
  have ncl: "\<not> closed c" using assms(3,5) by (auto simp: sc_inv_def flag_inv_def)
  from assms(1) show ?thesis
  proof (cases rule: sc_step.cases)
    case (step_send x)
    from step_send(2) show ?thesis
      by (rule SafeCh_SendE) (use assms(4-7) oc nl ncl in \<open>auto\<close>)
  next
    case (step_close x)
    from step_close(2) show ?thesis
      by (rule SafeCh_CloseE) (use assms(4-7) nr in \<open>auto\<close>)
  next
    case (step_isclosed x)
    from step_isclosed(2) show ?thesis
      by (rule SafeCh_IsClosedE) (use assms(4-7) nl in \<open>auto\<close>)
  next
    case step_receive
    with assms(2) show ?thesis by simp
  qed
qed

text \<open>C26. \<^verbatim>\<open>Close\<close> can block for ever. When a goroutine is sending into a full buffer it holds the read lock;
  a goroutine that calls \<^verbatim>\<open>Close\<close> then waits for the write lock. Unless somebody receives, neither of them
  ever moves on, and no other goroutine that is not inside the methods yet gets the lock for \<^verbatim>\<open>Send\<close> or
  \<^verbatim>\<open>IsClosed\<close>.\<close>

theorem safe_channel_close_blocks:
  assumes "sc_reach size0 c" and "0 < capacity c" and "pcs c t = SendReady e"
    and "length (buf c) = capacity c" and "pcs c u = ClosePending"
    and "sc_steps (\<lambda>l. l \<noteq> Receive) c d"
  shows "pcs d t = SendReady e \<and> pcs d u = ClosePending \<and>
    (\<forall>v. holds_read (pcs d v) \<longrightarrow> holds_read (pcs c v))"
proof -
  have "pcs d t = SendReady e \<and> length (buf d) = capacity d \<and> pcs d u = ClosePending \<and> 0 < capacity d \<and>
    (\<forall>v. holds_read (pcs d v) \<longrightarrow> holds_read (pcs c v))"
    using assms(6)
  proof (induction rule: sc_steps.induct)
    case steps_refl
    then show ?case using assms(2-5) by simp
  next
    case (steps_step d l f)
    have "sc_inv d" using steps_sc_inv [OF steps_step.hyps(1) reach_sc_inv [OF assms(1)]] .
    from blocked_step [OF steps_step.hyps(3,2) this, of t e u] steps_step.IH show ?case by simp
  qed
  then show ?thesis by blast
qed

text \<open>Goroutine 0 fills the buffer of size one and sends again; goroutine 1 calls \<^verbatim>\<open>Close\<close>.\<close>

lemma reach_send:
  assumes "sc_reach n c" "pcs c t = Idle" "can_rlock c" "\<not> closed c"
  shows "sc_reach n (goto t (SendReady e) (c\<lparr>readers := insert t (readers c)\<rparr>))"
proof -
  let ?c1 = "goto t (SendStart e) c"
  let ?c2 = "goto t (SendLocked e) (?c1\<lparr>readers := insert t (readers ?c1)\<rparr>)"
  let ?c3 = "goto t (if \<not> closed ?c2 then SendReady e else SendUnlock) ?c2"
  have "sc_reach n ?c1" using assms(1) by (rule reach_step [OF _ send_intros(1)]) (fact assms(2))
  then have "sc_reach n ?c2" by (rule reach_step [OF _ send_intros(2)]) (use assms in \<open>auto simp: can_rlock_def\<close>)
  then have "sc_reach n ?c3" by (rule reach_step [OF _ send_intros(3)]) simp
  moreover have "?c3 = goto t (SendReady e) (c\<lparr>readers := insert t (readers c)\<rparr>)"
    using assms(4) by (simp add: goto_def)
  ultimately show ?thesis by simp
qed

lemma reach_blocked:
  "\<exists>c :: nat SafeCh. sc_reach 1 c \<and> 0 < capacity c \<and> pcs c 0 = SendReady 8 \<and>
    length (buf c) = capacity c \<and> pcs c 1 = ClosePending"
proof -
  let ?c1 = "goto 0 (SendReady 7) ((empty_ch 1)\<lparr>readers := insert 0 (readers (empty_ch 1))\<rparr>)"
  let ?c2 = "goto 0 SendUnlock (?c1\<lparr>buf := buf ?c1 @ [7], sent := sent ?c1 @ [7]\<rparr>)"
  let ?c3 = "goto 0 Idle (?c2\<lparr>readers := readers ?c2 - {0}\<rparr>)"
  let ?c4 = "goto 0 (SendReady 8) (?c3\<lparr>readers := insert 0 (readers ?c3)\<rparr>)"
  let ?c5 = "goto 1 CloseStart ?c4"
  let ?c6 = "goto 1 ClosePending ?c5"
  have "sc_reach 1 (empty_ch 1)" using reach_empty [of 1] by simp
  then have "sc_reach 1 ?c1" by (rule reach_send) (simp_all add: empty_ch_def can_rlock_def)
  then have "sc_reach 1 ?c2" by (rule reach_step [OF _ send_intros(4)]) (simp_all add: empty_ch_def)
  then have "sc_reach 1 ?c3" by (rule reach_step [OF _ send_intros(5)]) simp
  then have "sc_reach 1 ?c4" by (rule reach_send) (simp_all add: empty_ch_def can_rlock_def)
  then have "sc_reach 1 ?c5" by (rule reach_step [OF _ close_intros(1)]) (simp add: empty_ch_def)
  then have "sc_reach 1 ?c6" by (rule reach_step [OF _ close_intros(2)]) simp
  moreover have "0 < capacity ?c6 \<and> pcs ?c6 0 = SendReady 8 \<and> length (buf ?c6) = capacity ?c6 \<and>
      pcs ?c6 1 = ClosePending" by (simp add: empty_ch_def)
  ultimately show ?thesis by blast
qed

theorem safe_channel_close_blocks_witness:
  "\<exists>c :: nat SafeCh. sc_reach 1 c \<and> (\<forall>d. sc_steps (\<lambda>l. l \<noteq> Receive) c d \<longrightarrow> pcs d 1 = ClosePending)"
proof -
  obtain c :: "nat SafeCh" where c: "sc_reach 1 c" "0 < capacity c" "pcs c 0 = SendReady 8"
    "length (buf c) = capacity c" "pcs c 1 = ClosePending" using reach_blocked by blast
  from safe_channel_close_blocks [OF c] c(1) show ?thesis by blast
qed

end
