(* ===== verification/GoRegex.thy ===== *)
theory GoRegex
  imports GoStrings
begin

text \<open>
  The part of Go's \<^verbatim>\<open>regexp\<close> package the repository uses: \<^verbatim>\<open>MatchString\<close> of a pattern that is either
  anchored at both ends or not anchored at all. Matching is by derivatives, so that it can be evaluated; the
  language of an expression is the specification, and the two agree. A character class is a predicate on bytes:
  no pattern of the repository has a class that could tell apart the bytes of a multi-byte character.
\<close>

section \<open>Expressions\<close>

datatype rx =
    RNone
  | REps
  | RCls "char \<Rightarrow> bool"
  | RSeq rx rx
  | RAlt rx rx
  | RStar rx

datatype pattern = Anchored rx | Unanchored rx

fun nullable :: "rx \<Rightarrow> bool" where
  "nullable RNone = False"
| "nullable REps = True"
| "nullable (RCls p) = False"
| "nullable (RSeq r s) = (nullable r \<and> nullable s)"
| "nullable (RAlt r s) = (nullable r \<or> nullable s)"
| "nullable (RStar r) = True"

fun deriv :: "char \<Rightarrow> rx \<Rightarrow> rx" where
  "deriv c RNone = RNone"
| "deriv c REps = RNone"
| "deriv c (RCls p) = (if p c then REps else RNone)"
| "deriv c (RSeq r s) = (if nullable r then RAlt (RSeq (deriv c r) s) (deriv c s) else RSeq (deriv c r) s)"
| "deriv c (RAlt r s) = RAlt (deriv c r) (deriv c s)"
| "deriv c (RStar r) = RSeq (deriv c r) (RStar r)"

fun full_match :: "rx \<Rightarrow> string \<Rightarrow> bool" where
  "full_match r [] = nullable r"
| "full_match r (c # s) = full_match (deriv c r) s"

text \<open>A match that starts here and ends anywhere, and one that starts anywhere.\<close>

fun prefix_match :: "rx \<Rightarrow> string \<Rightarrow> bool" where
  "prefix_match r [] = nullable r"
| "prefix_match r (c # s) = (nullable r \<or> prefix_match (deriv c r) s)"

fun search_match :: "rx \<Rightarrow> string \<Rightarrow> bool" where
  "search_match r [] = nullable r"
| "search_match r (c # s) = (prefix_match r (c # s) \<or> search_match r s)"

fun MatchString :: "pattern \<Rightarrow> string \<Rightarrow> bool" where
  "MatchString (Anchored r) s = full_match r s"
| "MatchString (Unanchored r) s = search_match r s"

section \<open>Pattern constructs\<close>

primrec rx_lit :: "string \<Rightarrow> rx" where
  "rx_lit [] = REps"
| "rx_lit (c # s) = RSeq (RCls ((=) c)) (rx_lit s)"

primrec rx_times :: "nat \<Rightarrow> rx \<Rightarrow> rx" where
  "rx_times 0 r = REps"
| "rx_times (Suc n) r = RSeq r (rx_times n r)"

primrec rx_upto :: "nat \<Rightarrow> rx \<Rightarrow> rx" where
  "rx_upto 0 r = REps"
| "rx_upto (Suc n) r = RAlt REps (RSeq r (rx_upto n r))"

text \<open>\<^verbatim>\<open>r{m,n}\<close>, \<^verbatim>\<open>r+\<close> and \<^verbatim>\<open>r?\<close>.\<close>

definition rx_range :: "nat \<Rightarrow> nat \<Rightarrow> rx \<Rightarrow> rx" where
  "rx_range m n r = RSeq (rx_times m r) (rx_upto (n - m) r)"

definition rx_plus :: "rx \<Rightarrow> rx" where
  "rx_plus r = RSeq r (RStar r)"

definition rx_opt :: "rx \<Rightarrow> rx" where
  "rx_opt r = RAlt r REps"

text \<open>The classes: \<^verbatim>\<open>[0-9]\<close>, \<^verbatim>\<open>[a-fA-F0-9]\<close>, and the dot, which does not match a newline.\<close>

definition is_xdigit :: "char \<Rightarrow> bool" where
  "is_xdigit c \<longleftrightarrow> hex_val c \<noteq> None"

definition not_newline :: "char \<Rightarrow> bool" where
  "not_newline c \<longleftrightarrow> c \<noteq> CHR 0x0A"

abbreviation rx_digit :: rx where "rx_digit \<equiv> RCls is_digit"
abbreviation rx_xdigit :: rx where "rx_xdigit \<equiv> RCls is_xdigit"
abbreviation rx_dot :: rx where "rx_dot \<equiv> RCls not_newline"

text \<open>Concatenation of a list of expressions, as a pattern is written.\<close>

primrec rx_seq :: "rx list \<Rightarrow> rx" where
  "rx_seq [] = REps"
| "rx_seq (r # rs) = RSeq r (rx_seq rs)"

section \<open>Languages\<close>

inductive_set star_lang :: "string set \<Rightarrow> string set" for A :: "string set" where
  star_nil: "[] \<in> star_lang A"
| star_app: "u \<in> A \<Longrightarrow> v \<in> star_lang A \<Longrightarrow> u @ v \<in> star_lang A"

definition seq_lang :: "string set \<Rightarrow> string set \<Rightarrow> string set" where
  "seq_lang A B = {u @ v | u v. u \<in> A \<and> v \<in> B}"

fun lang :: "rx \<Rightarrow> string set" where
  "lang RNone = {}"
| "lang REps = {[]}"
| "lang (RCls p) = {[c] | c. p c}"
| "lang (RSeq r s) = seq_lang (lang r) (lang s)"
| "lang (RAlt r s) = lang r \<union> lang s"
| "lang (RStar r) = star_lang (lang r)"

lemma nullable_lang: "nullable r \<longleftrightarrow> [] \<in> lang r"
  by (induction r) (auto simp: seq_lang_def intro: star_nil)

lemma star_lang_Cons:
  "c # s \<in> star_lang A \<longleftrightarrow> (\<exists>u v. s = u @ v \<and> c # u \<in> A \<and> v \<in> star_lang A)"
proof
  assume "c # s \<in> star_lang A"
  then show "\<exists>u v. s = u @ v \<and> c # u \<in> A \<and> v \<in> star_lang A"
    by (induction "c # s" rule: star_lang.induct) (auto simp: append_eq_Cons_conv)
next
  assume "\<exists>u v. s = u @ v \<and> c # u \<in> A \<and> v \<in> star_lang A"
  then show "c # s \<in> star_lang A" by (metis append_Cons star_app)
qed

lemma seq_lang_Cons:
  "c # s \<in> seq_lang A B \<longleftrightarrow>
    ([] \<in> A \<and> c # s \<in> B) \<or> (\<exists>u v. s = u @ v \<and> c # u \<in> A \<and> v \<in> B)"
  by (auto simp: seq_lang_def Cons_eq_append_conv)

lemma deriv_lang: "s \<in> lang (deriv c r) \<longleftrightarrow> c # s \<in> lang r"
proof (induction r arbitrary: s)
  case (RSeq r1 r2)
  have "s \<in> seq_lang (lang (deriv c r1)) B \<longleftrightarrow> (\<exists>u v. s = u @ v \<and> c # u \<in> lang r1 \<and> v \<in> B)" for B
    by (auto simp: seq_lang_def RSeq.IH(1))
  with RSeq.IH(2) show ?case by (auto simp: seq_lang_Cons nullable_lang)
next
  case (RStar r)
  then show ?case by (auto simp: seq_lang_def star_lang_Cons)
qed auto

lemma full_match_lang: "full_match r s \<longleftrightarrow> s \<in> lang r"
  by (induction s arbitrary: r) (simp_all add: nullable_lang deriv_lang)

lemma prefix_match_lang: "prefix_match r s \<longleftrightarrow> (\<exists>u v. s = u @ v \<and> u \<in> lang r)"
proof (induction s arbitrary: r)
  case (Cons c s)
  have "(\<exists>u v. c # s = u @ v \<and> u \<in> lang r) \<longleftrightarrow> [] \<in> lang r \<or> (\<exists>u v. s = u @ v \<and> c # u \<in> lang r)"
    by (auto simp: Cons_eq_append_conv)
  with Cons show ?case by (simp add: nullable_lang deriv_lang)
qed (simp add: nullable_lang)

lemma search_match_lang: "search_match r s \<longleftrightarrow> (\<exists>t u v. s = t @ u @ v \<and> u \<in> lang r)"
proof (induction s)
  case (Cons c s)
  have "(\<exists>t u v. c # s = t @ u @ v \<and> u \<in> lang r) \<longleftrightarrow>
      (\<exists>u v. c # s = u @ v \<and> u \<in> lang r) \<or> (\<exists>t u v. s = t @ u @ v \<and> u \<in> lang r)"
    by (auto simp: Cons_eq_append_conv) blast+
  with Cons show ?case by (simp add: prefix_match_lang)
qed (simp add: nullable_lang)

text \<open>An unanchored pattern that matches the empty text matches every text.\<close>

lemma unanchored_nullable: "nullable r \<Longrightarrow> MatchString (Unanchored r) s"
  by (cases s) simp_all

lemma seq_langI: "u \<in> A \<Longrightarrow> v \<in> B \<Longrightarrow> u @ v \<in> seq_lang A B"
  by (auto simp: seq_lang_def)

lemma seq_cls: "seq_lang {[c] | c. p c} B = {c # v | c v. p c \<and> v \<in> B}"
  by (auto simp: seq_lang_def) (metis append_Cons append_Nil)

lemma lang_lit [simp]: "lang (rx_lit w) = {w}"
  by (induction w) (auto simp: seq_lang_def)

lemma lang_times_cls: "lang (rx_times n (RCls p)) = {s. length s = n \<and> (\<forall>c\<in>set s. p c)}"
  by (induction n) (auto simp: seq_cls length_Suc_conv)

lemma lang_upto_cls: "lang (rx_upto n (RCls p)) = {s. length s \<le> n \<and> (\<forall>c\<in>set s. p c)}"
proof (induction n)
  case (Suc n)
  have "s \<in> lang (rx_upto (Suc n) (RCls p)) \<longleftrightarrow> length s \<le> Suc n \<and> (\<forall>c\<in>set s. p c)" for s
    by (cases s) (auto simp: seq_cls Suc)
  then show ?case by blast
qed auto

lemma star_cls: "star_lang {[c] | c. p c} = {s. \<forall>c\<in>set s. p c}"
proof -
  have "s \<in> star_lang {[c] | c. p c} \<longleftrightarrow> (\<forall>c\<in>set s. p c)" for s
    by (induction s) (auto simp: star_lang_Cons intro: star_nil)
  then show ?thesis by blast
qed

lemma lang_range_cls:
  assumes "m \<le> n"
  shows "lang (rx_range m n (RCls p)) = {s. m \<le> length s \<and> length s \<le> n \<and> (\<forall>c\<in>set s. p c)}"
proof -
  have "s \<in> seq_lang {s. length s = m \<and> (\<forall>c\<in>set s. p c)} {s. length s \<le> n - m \<and> (\<forall>c\<in>set s. p c)} \<longleftrightarrow>
      m \<le> length s \<and> length s \<le> n \<and> (\<forall>c\<in>set s. p c)" (is "?l \<longleftrightarrow> ?r") for s
  proof
    assume ?r
    then have "take m s @ drop m s \<in> seq_lang {s. length s = m \<and> (\<forall>c\<in>set s. p c)} {s. length s \<le> n - m \<and> (\<forall>c\<in>set s. p c)}"
      by (intro seq_langI) (auto dest: in_set_takeD in_set_dropD)
    then show ?l by simp
  qed (use assms in \<open>auto simp: seq_lang_def\<close>)
  then show ?thesis by (auto simp: rx_range_def lang_times_cls lang_upto_cls)
qed

lemma lang_plus_cls: "lang (rx_plus (RCls p)) = {s. s \<noteq> [] \<and> (\<forall>c\<in>set s. p c)}"
proof -
  have "s \<in> lang (rx_plus (RCls p)) \<longleftrightarrow> s \<noteq> [] \<and> (\<forall>c\<in>set s. p c)" for s
    by (cases s) (auto simp: rx_plus_def seq_cls star_cls)
  then show ?thesis by blast
qed

lemma lang_opt [simp]: "lang (rx_opt r) = insert [] (lang r)"
  by (auto simp: rx_opt_def)

lemma in_seq_lang: "s \<in> lang (rx_seq (r # rs)) \<longleftrightarrow> (\<exists>u v. s = u @ v \<and> u \<in> lang r \<and> v \<in> lang (rx_seq rs))"
  by (simp add: seq_lang_def)

lemma lang_seq_Nil [simp]: "lang (rx_seq []) = {[]}"
  by simp

lemma seq_last: "s \<in> lang (rx_seq [r]) \<longleftrightarrow> s \<in> lang r"
  by (simp add: seq_lang_def)

text \<open>From here on a pattern is taken apart by the facts on languages only.\<close>

declare rx_lit.simps [simp del] rx_seq.simps [simp del] rx_times.simps [simp del] rx_upto.simps [simp del]

end
