(* ===== verification/Validator.thy ===== *)
theory Validator
  imports GoRegex
begin

text \<open>
  \<^verbatim>\<open>lib/util/validator\<close>: the syntactic checks on subscriber, equipment, network and session identifiers.
  Each pattern is transcribed from the source; each property gives the accepted strings in closed form.
\<close>

text \<open>A class such as \<^verbatim>\<open>[1-9]\<close>, by the values of its digits.\<close>

definition digit_in :: "nat \<Rightarrow> nat \<Rightarrow> char \<Rightarrow> bool" where
  "digit_in lo hi c \<longleftrightarrow> is_digit c \<and> lo \<le> digit_val c \<and> digit_val c \<le> hi"

section \<open>SUPI\<close>

definition supiImsiRegex :: pattern where
  "supiImsiRegex = Anchored (rx_seq [rx_lit ''imsi-'', rx_range 5 15 rx_digit])"

definition supiNaiRegex :: pattern where
  "supiNaiRegex = Anchored (rx_seq [rx_lit ''nai-'', rx_plus rx_dot, rx_lit ''@'', rx_plus rx_dot])"

definition supiGciGliRegex :: pattern where
  "supiGciGliRegex = Anchored (rx_seq [RAlt (rx_lit ''gci'') (rx_lit ''gli''), rx_lit ''-'', rx_plus rx_dot])"

definition IsValidSupi :: "string \<Rightarrow> bool" where
  "IsValidSupi supi =
     (if length supi = 0 then False
      else if HasPrefix supi ''imsi-'' then MatchString supiImsiRegex supi
      else if HasPrefix supi ''nai-'' then
        if strings_Contains supi [CHR 0x00] then False else MatchString supiNaiRegex supi
      else if HasPrefix supi ''gci-'' \<or> HasPrefix supi ''gli-'' then MatchString supiGciGliRegex supi
      else False)"

section \<open>SUCI\<close>

definition suciRegex :: pattern where
  "suciRegex = Anchored (rx_seq [rx_lit ''suci-'', RCls (digit_in 0 7),
     rx_lit ''-'', rx_times 3 rx_digit, rx_lit ''-'', rx_range 2 3 rx_digit, rx_lit ''-'', rx_range 1 4 rx_xdigit,
     rx_lit ''-'', rx_range 1 2 rx_xdigit, rx_lit ''-'', rx_range 1 2 rx_xdigit, rx_lit ''-'', rx_plus rx_xdigit])"

definition suciNaiRegex :: pattern where
  "suciNaiRegex = Anchored (rx_seq [rx_lit ''nai-'', rx_plus rx_dot, rx_lit ''@'', rx_plus rx_dot])"

definition IsValidSuci :: "string \<Rightarrow> bool" where
  "IsValidSuci suci =
     (if HasPrefix suci ''suci-'' then MatchString suciRegex suci
      else if HasPrefix suci ''nai-'' then MatchString suciNaiRegex suci
      else False)"

section \<open>GPSI\<close>

definition gpsiMsisdnRegex :: pattern where
  "gpsiMsisdnRegex = Anchored (rx_seq [rx_lit ''msisdn-'', rx_range 5 15 rx_digit])"

definition gpsiExtIdRegex :: pattern where
  "gpsiExtIdRegex = Anchored (rx_seq [rx_lit ''extid-'', rx_plus rx_dot, rx_lit ''@'', rx_plus rx_dot])"

definition IsValidGpsi :: "string \<Rightarrow> bool" where
  "IsValidGpsi gpsi =
     (if length gpsi = 0 then False
      else if HasPrefix gpsi ''msisdn-'' then MatchString gpsiMsisdnRegex gpsi
      else if HasPrefix gpsi ''extid-'' then
        if strings_Contains gpsi [CHR 0x00] then False else MatchString gpsiExtIdRegex gpsi
      else False)"

section \<open>PEI, PLMN, S-NSSAI and group identifiers\<close>

definition peiImeiRegex :: pattern where
  "peiImeiRegex = Anchored (rx_seq [rx_lit ''imei-'', rx_times 15 rx_digit])"

definition peiImeisvRegex :: pattern where
  "peiImeisvRegex = Anchored (rx_seq [rx_lit ''imeisv-'', rx_times 16 rx_digit])"

definition IsValidPei :: "string \<Rightarrow> bool" where
  "IsValidPei pei =
     (if HasPrefix pei ''imei-'' then MatchString peiImeiRegex pei
      else if HasPrefix pei ''imeisv-'' then MatchString peiImeisvRegex pei
      else False)"

definition plmnIdRegex :: pattern where
  "plmnIdRegex = Anchored (rx_range 5 6 rx_digit)"

definition IsValidPlmnId :: "string \<Rightarrow> bool" where
  "IsValidPlmnId plmnId = MatchString plmnIdRegex plmnId"

definition sstRegex :: rx where
  "sstRegex = RAlt rx_digit
     (RAlt (rx_seq [RCls (digit_in 1 9), rx_digit])
     (RAlt (rx_seq [rx_lit ''1'', rx_digit, rx_digit])
     (RAlt (rx_seq [rx_lit ''2'', RCls (digit_in 0 4), rx_digit])
           (rx_seq [rx_lit ''25'', RCls (digit_in 0 5)]))))"

definition snssaiRegex :: pattern where
  "snssaiRegex = Anchored (rx_seq [sstRegex, rx_opt (rx_seq [rx_lit ''-'', rx_times 6 rx_xdigit])])"

definition IsValidSnssai :: "string \<Rightarrow> bool" where
  "IsValidSnssai snssai = MatchString snssaiRegex snssai"

definition not_dash :: "char \<Rightarrow> bool" where
  "not_dash c \<longleftrightarrow> c \<noteq> CHR ''-''"

definition groupIdRegex :: pattern where
  "groupIdRegex = Anchored (rx_seq [rx_plus (RCls not_dash), rx_lit ''-'', rx_times 3 rx_digit, rx_lit ''-'',
     rx_range 2 3 rx_digit, rx_lit ''-'', rx_plus rx_dot])"

datatype group_error = InvalidGroupIdFormat string

definition ValidateGroupIdFormat :: "string \<Rightarrow> group_error option" where
  "ValidateGroupIdFormat groupId =
     (if \<not> MatchString groupIdRegex groupId then Some (InvalidGroupIdFormat groupId) else None)"

section \<open>PDU session identifiers\<close>

definition IsValidPduSessionID :: "string \<Rightarrow> bool" where
  "IsValidPduSessionID pduSessionID =
     (case Atoi pduSessionID of Inl e \<Rightarrow> False | Inr n \<Rightarrow> 0 \<le> n \<and> n < 256)"

definition IsPduSessionIdInPsiRange :: "32 word \<Rightarrow> bool" where
  "IsPduSessionIdInPsiRange psi \<longleftrightarrow> 0 \<le> sint psi \<and> sint psi < 16"

section \<open>Accepted strings\<close>

definition digits :: "nat \<Rightarrow> nat \<Rightarrow> string \<Rightarrow> bool" where
  "digits lo hi s \<longleftrightarrow> lo \<le> length s \<and> length s \<le> hi \<and> (\<forall>c\<in>set s. is_digit c)"

definition xdigits :: "nat \<Rightarrow> nat \<Rightarrow> string \<Rightarrow> bool" where
  "xdigits lo hi s \<longleftrightarrow> lo \<le> length s \<and> length s \<le> hi \<and> (\<forall>c\<in>set s. is_xdigit c)"

definition line :: "string \<Rightarrow> bool" where
  "line s \<longleftrightarrow> s \<noteq> [] \<and> CHR 0x0A \<notin> set s"

text \<open>Membership in the languages of the pieces the patterns are made of.\<close>

lemma lang_pieces:
  "u \<in> lang (rx_range lo hi rx_digit) \<longleftrightarrow> digits lo hi u" if "lo \<le> hi"
  using that by (simp add: digits_def lang_range_cls)

lemma lang_xpieces:
  "u \<in> lang (rx_range lo hi rx_xdigit) \<longleftrightarrow> xdigits lo hi u" if "lo \<le> hi"
  using that by (simp add: xdigits_def lang_range_cls)

lemma lang_times:
  "u \<in> lang (rx_times n rx_digit) \<longleftrightarrow> digits n n u"
  "u \<in> lang (rx_times n rx_xdigit) \<longleftrightarrow> xdigits n n u"
  by (auto simp: lang_times_cls digits_def xdigits_def)

lemma lang_line: "u \<in> lang (rx_plus rx_dot) \<longleftrightarrow> line u"
  by (auto simp: line_def not_newline_def lang_plus_cls)

lemmas lang_simps = full_match_lang in_seq_lang lang_pieces lang_xpieces lang_times lang_line

lemma Contains_NUL: "strings_Contains s [c] \<longleftrightarrow> c \<in> set s"
  by (induction s) (auto simp: HasPrefix_def)

lemma imsi_iff: "MatchString supiImsiRegex s \<longleftrightarrow> (\<exists>ds. s = ''imsi-'' @ ds \<and> digits 5 15 ds)"
  by (simp add: supiImsiRegex_def lang_simps)

lemma nai_iff: "MatchString supiNaiRegex s \<longleftrightarrow> (\<exists>u r. s = ''nai-'' @ u @ ''@'' @ r \<and> line u \<and> line r)"
  by (simp add: supiNaiRegex_def lang_simps) blast

lemma gci_gli_iff:
  "MatchString supiGciGliRegex s \<longleftrightarrow> (\<exists>b. (s = ''gci-'' @ b \<or> s = ''gli-'' @ b) \<and> line b)"
  by (simp add: supiGciGliRegex_def lang_simps conj_disj_distribR conj_disj_distribL ex_disj_distrib) blast

lemma suci_nai_iff: "MatchString suciNaiRegex s \<longleftrightarrow> (\<exists>u r. s = ''nai-'' @ u @ ''@'' @ r \<and> line u \<and> line r)"
  using nai_iff by (simp add: suciNaiRegex_def supiNaiRegex_def)

lemma msisdn_iff: "MatchString gpsiMsisdnRegex s \<longleftrightarrow> (\<exists>ds. s = ''msisdn-'' @ ds \<and> digits 5 15 ds)"
  by (simp add: gpsiMsisdnRegex_def lang_simps)

lemma extid_iff: "MatchString gpsiExtIdRegex s \<longleftrightarrow> (\<exists>u r. s = ''extid-'' @ u @ ''@'' @ r \<and> line u \<and> line r)"
  by (simp add: gpsiExtIdRegex_def lang_simps) blast

lemma pei_iffs:
  "MatchString peiImeiRegex s \<longleftrightarrow> (\<exists>ds. s = ''imei-'' @ ds \<and> digits 15 15 ds)"
  "MatchString peiImeisvRegex s \<longleftrightarrow> (\<exists>ds. s = ''imeisv-'' @ ds \<and> digits 16 16 ds)"
  by (simp_all add: peiImeiRegex_def peiImeisvRegex_def lang_simps)

lemma plmn_iff: "MatchString plmnIdRegex s \<longleftrightarrow> digits 5 6 s"
  by (simp add: plmnIdRegex_def full_match_lang lang_pieces)

lemma lang_not_dash: "u \<in> lang (rx_plus (RCls not_dash)) \<longleftrightarrow> u \<noteq> [] \<and> CHR ''-'' \<notin> set u"
  by (auto simp: lang_plus_cls not_dash_def)

lemma group_iff:
  "MatchString groupIdRegex s \<longleftrightarrow> (\<exists>p mcc mnc l. s = p @ ''-'' @ mcc @ ''-'' @ mnc @ ''-'' @ l \<and>
    p \<noteq> [] \<and> CHR ''-'' \<notin> set p \<and> digits 3 3 mcc \<and> digits 2 3 mnc \<and> line l)"
  by (simp add: groupIdRegex_def lang_simps lang_not_dash ex_simps(1,2) [symmetric] del: ex_simps)

definition suci_shape :: "string \<Rightarrow> bool" where
  "suci_shape s \<longleftrightarrow> (\<exists>t mcc mnc ri ps hn out. s = ''suci-'' @ [t] @ ''-'' @ mcc @ ''-'' @ mnc @ ''-'' @ ri @
    ''-'' @ ps @ ''-'' @ hn @ ''-'' @ out \<and> digit_in 0 7 t \<and> digits 3 3 mcc \<and> digits 2 3 mnc \<and>
    xdigits 1 4 ri \<and> xdigits 1 2 ps \<and> xdigits 1 2 hn \<and> out \<noteq> [] \<and> (\<forall>c\<in>set out. is_xdigit c))"

lemma suci_iff: "MatchString suciRegex s \<longleftrightarrow> suci_shape s"
  unfolding suci_shape_def
  by (simp add: suciRegex_def lang_simps lang_plus_cls ex_simps(1,2) [symmetric] del: ex_simps) blast

lemma suci_shape_prefix: "suci_shape s \<Longrightarrow> HasPrefix s ''suci-''"
  by (auto simp: suci_shape_def HasPrefix_def)

text \<open>The slice type is a decimal number without leading zeros.\<close>

lemma is_digit_iff: "is_digit c \<longleftrightarrow> (\<exists>d < 10. c = digit_char d)"
proof
  assume "is_digit c"
  then have "c = digit_char (digit_val c)" "digit_val c < 10"
    by (auto simp: is_digit_def digit_char_def digit_val_def)
  then show "\<exists>d < 10. c = digit_char d" by blast
qed auto

lemma digit_in_iff: "hi < 10 \<Longrightarrow> digit_in lo hi c \<longleftrightarrow> (\<exists>d. lo \<le> d \<and> d \<le> hi \<and> c = digit_char d)"
  by (auto simp: digit_in_def is_digit_iff intro: order.strict_trans1)

lemma digit_chars: "''1'' = [digit_char 1]" "''2'' = [digit_char 2]" "''25'' = [digit_char 2, digit_char 5]"
  by code_simp+

lemma sst_cases:
  "s \<in> lang sstRegex \<longleftrightarrow> (\<exists>c. s = [c] \<and> is_digit c) \<or>
    (\<exists>c d. s = [c, d] \<and> digit_in 1 9 c \<and> is_digit d) \<or>
    (\<exists>c d. s = ''1'' @ [c, d] \<and> is_digit c \<and> is_digit d) \<or>
    (\<exists>c d. s = ''2'' @ [c, d] \<and> digit_in 0 4 c \<and> is_digit d) \<or>
    (\<exists>c. s = ''25'' @ [c] \<and> digit_in 0 5 c)"
  by (simp add: sstRegex_def in_seq_lang ex_simps(1,2) [symmetric] del: ex_simps) blast

lemma Itoa_digits2: "1 \<le> a \<Longrightarrow> a < 10 \<Longrightarrow> b < 10 \<Longrightarrow> [digit_char a, digit_char b] = Itoa (10 * a + b)"
  by (simp add: Itoa_2)

lemma Itoa_digits3:
  assumes "1 \<le> a" "a < 10" "b < 10" "c < 10"
  shows "[digit_char a, digit_char b, digit_char c] = Itoa (100 * a + 10 * b + c)"
proof -
  let ?n = "100 * a + 10 * b + c"
  have n: "?n = 10 * (10 * a + b) + c" by simp
  have "(10 * k + c) mod 10 = c" "(10 * k + c) div 10 = k" for k using assms by simp_all
  then have "?n mod 10 = c" "?n div 10 = 10 * a + b" unfolding n by blast+
  moreover from this have "?n div 10 mod 10 = b" using assms by simp
  moreover have "?n div 100 = a" "100 \<le> ?n" "?n < 1000" using assms by auto
  ultimately show ?thesis using Itoa_3 [of ?n] by simp
qed

lemma sst_lang: "s \<in> lang sstRegex \<longleftrightarrow> (\<exists>n \<le> 255. s = Itoa n)"
proof
  assume "s \<in> lang sstRegex"
  then consider d where "d < 10" "s = [digit_char d]" |
    a b where "1 \<le> a" "a < 10" "b < 10" "s = [digit_char a, digit_char b]" |
    a b where "a < 10" "b < 10" "s = [digit_char 1, digit_char a, digit_char b]" |
    a b where "a \<le> 4" "b < 10" "s = [digit_char 2, digit_char a, digit_char b]" |
    b where "b \<le> 5" "s = [digit_char 2, digit_char 5, digit_char b]"
    unfolding sst_cases digit_chars by (auto simp: is_digit_iff digit_in_iff)
  then show "\<exists>n \<le> 255. s = Itoa n"
  proof cases
    case (1 d)
    then show ?thesis by (intro exI [of _ d]) (simp add: Itoa_1)
  next
    case (2 a b)
    then show ?thesis by (intro exI [of _ "10 * a + b"]) (simp add: Itoa_digits2)
  next
    case (3 a b)
    then show ?thesis using Itoa_digits3 [of 1 a b] by (intro exI [of _ "100 * 1 + 10 * a + b"]) simp
  next
    case (4 a b)
    then show ?thesis using Itoa_digits3 [of 2 a b] by (intro exI [of _ "100 * 2 + 10 * a + b"]) simp
  next
    case (5 b)
    then show ?thesis using Itoa_digits3 [of 2 5 b] by (intro exI [of _ "100 * 2 + 10 * 5 + b"]) simp
  qed
next
  assume "\<exists>n \<le> 255. s = Itoa n"
  then obtain n where n: "n \<le> 255" "s = Itoa n" by blast
  consider "n < 10" | "10 \<le> n" "n < 100" | "100 \<le> n" "n < 200" | "200 \<le> n" "n < 250" | "250 \<le> n" using n by linarith
  then show "s \<in> lang sstRegex"
  proof cases
    case 1
    with n show ?thesis by (simp add: sst_cases Itoa_1)
  next
    case 2
    then have "1 \<le> n div 10" "n div 10 < 10" by auto
    with 2 n show ?thesis by (simp add: sst_cases Itoa_2 digit_in_def)
  next
    case 3
    then have "n div 100 = 1" by auto
    with 3 n show ?thesis unfolding sst_cases digit_chars by (simp add: Itoa_3)
  next
    case 4
    then have "n div 10 \<in> set [20..<25]" by auto
    then have "n div 100 = 2" "n div 10 mod 10 \<le> 4"
      by (auto simp: div_mult2_eq [of _ 10 10, simplified] upt_rec)
    with 4 n show ?thesis unfolding sst_cases digit_chars by (simp add: Itoa_3 digit_in_def)
  next
    case 5
    with n have "n div 10 = 25" by auto
    moreover from this n have "n mod 10 \<le> 5" using div_mult_mod_eq [of n 10] by linarith
    ultimately have "n div 100 = 2" "n div 10 mod 10 = 5" "n mod 10 \<le> 5" by (auto simp: div_mult2_eq [of _ 10 10, simplified])
    with 5 n show ?thesis unfolding sst_cases digit_chars by (simp add: Itoa_3 digit_in_def)
  qed
qed

section \<open>Decimal text\<close>

definition dec_value :: "string \<Rightarrow> nat" where
  "dec_value s = foldl (\<lambda>n c. 10 * n + digit_val c) 0 s"

lemma foldl_dec_mono: "n \<le> foldl (\<lambda>n c. 10 * n + digit_val c) n s"
proof (induction s arbitrary: n)
  case (Cons c s)
  have "n \<le> 10 * n + digit_val c" by simp
  also have "\<dots> \<le> foldl (\<lambda>n c. 10 * n + digit_val c) (10 * n + digit_val c) s" by (rule Cons.IH)
  finally show ?case by simp
qed simp

lemma parse_uint_loop_value:
  assumes "n \<le> mx"
  shows "parse_uint_loop mx n s = Inr m \<longleftrightarrow>
    (\<forall>c\<in>set s. is_digit c) \<and> m = foldl (\<lambda>n c. 10 * n + digit_val c) n s \<and> m \<le> mx"
  using assms
proof (induction s arbitrary: n)
  case (Cons c s)
  let ?n = "10 * n + digit_val c"
  show ?case
  proof (cases "?n \<le> mx")
    case True
    with Cons.IH [OF True] show ?thesis by auto
  next
    case False
    with foldl_dec_mono [of ?n s] show ?thesis by auto
  qed
qed auto

lemma ParseUint_value:
  "ParseUint mx s = Inr m \<longleftrightarrow> s \<noteq> [] \<and> (\<forall>c\<in>set s. is_digit c) \<and> m = dec_value s \<and> m \<le> mx"
  by (simp add: ParseUint_def parse_uint_loop_value dec_value_def)

lemma Atoi_value:
  assumes "s = sign @ ds" "sign = [] \<or> sign = ''+'' \<or> sign = ''-''" "ds \<noteq> []" "\<forall>c\<in>set ds. is_digit c"
    "dec_value ds < 2 ^ 63"
  shows "Atoi s = Inr (if sign = ''-'' then - int (dec_value ds) else int (dec_value ds))"
proof -
  have p: "ParseUint (2 ^ 64 - 1) ds = Inr (dec_value ds)" using assms by (simp add: ParseUint_value)
  obtain c r where ds: "ds = c # r" using assms(3) by (cases ds) auto
  then have "c \<noteq> CHR ''-''" "c \<noteq> CHR ''+''" using assms(4) by (auto dest: digit_not_special(4,10))
  with p ds assms show ?thesis by (auto simp: Atoi_def)
qed

lemma Atoi_Inr:
  assumes "Atoi s = Inr n"
  shows "\<exists>sign ds. s = sign @ ds \<and> (sign = [] \<or> sign = ''+'' \<or> sign = ''-'') \<and> ds \<noteq> [] \<and>
    (\<forall>c\<in>set ds. is_digit c) \<and> n = (if sign = ''-'' then - int (dec_value ds) else int (dec_value ds))"
proof -
  obtain c r where s: "s = c # r" using assms by (cases s) (auto simp: Atoi_def ParseUint_def)
  let ?sign = "if c = CHR ''-'' \<or> c = CHR ''+'' then [c] else []"
  let ?ds = "if c = CHR ''-'' \<or> c = CHR ''+'' then r else c # r"
  obtain m where m: "ParseUint (2 ^ 64 - 1) ?ds = Inr m" "n = (if c = CHR ''-'' then - int m else int m)"
    using assms by (auto simp: s Atoi_def Let_def split: sum.splits if_splits)
  then have "?ds \<noteq> [] \<and> (\<forall>c\<in>set ?ds. is_digit c) \<and> m = dec_value ?ds" unfolding ParseUint_value by blast
  with m(2) show ?thesis by (intro exI [of _ ?sign] exI [of _ ?ds]) (auto simp: s)
qed

section \<open>Properties\<close>

lemma HasPrefix_simps:
  "HasPrefix (c # s) (d # p) \<longleftrightarrow> c = d \<and> HasPrefix s p" "HasPrefix s []" "\<not> HasPrefix [] (d # p)"
  by (auto simp: HasPrefix_def)

text \<open>C32. \<^verbatim>\<open>IsValidSupi\<close> accepts exactly \<^verbatim>\<open>imsi-\<close> with 5 to 15 digits, \<^verbatim>\<open>nai-user@realm\<close> with a
  non-empty user and realm, no newline and no NUL, and \<^verbatim>\<open>gci-\<close> or \<^verbatim>\<open>gli-\<close> with a non-empty line;
  \<^verbatim>\<open>IsValidGpsi\<close> accepts exactly \<^verbatim>\<open>msisdn-\<close> with 5 to 15 digits and \<^verbatim>\<open>extid-local@domain\<close> under
  the same conditions as the NAI.\<close>

theorem valid_supi_gpsi:
  "(IsValidSupi s \<longleftrightarrow>
     (\<exists>ds. s = ''imsi-'' @ ds \<and> digits 5 15 ds) \<or>
     (\<exists>u r. s = ''nai-'' @ u @ ''@'' @ r \<and> line u \<and> line r \<and> CHR 0x00 \<notin> set s) \<or>
     (\<exists>b. (s = ''gci-'' @ b \<or> s = ''gli-'' @ b) \<and> line b)) \<and>
   (IsValidGpsi s \<longleftrightarrow>
     (\<exists>ds. s = ''msisdn-'' @ ds \<and> digits 5 15 ds) \<or>
     (\<exists>u r. s = ''extid-'' @ u @ ''@'' @ r \<and> line u \<and> line r \<and> CHR 0x00 \<notin> set s))"
proof
  show "IsValidSupi s \<longleftrightarrow>
     (\<exists>ds. s = ''imsi-'' @ ds \<and> digits 5 15 ds) \<or>
     (\<exists>u r. s = ''nai-'' @ u @ ''@'' @ r \<and> line u \<and> line r \<and> CHR 0x00 \<notin> set s) \<or>
     (\<exists>b. (s = ''gci-'' @ b \<or> s = ''gli-'' @ b) \<and> line b)"
    unfolding IsValidSupi_def imsi_iff nai_iff gci_gli_iff Contains_NUL by (auto simp: HasPrefix_simps)
  show "IsValidGpsi s \<longleftrightarrow>
     (\<exists>ds. s = ''msisdn-'' @ ds \<and> digits 5 15 ds) \<or>
     (\<exists>u r. s = ''extid-'' @ u @ ''@'' @ r \<and> line u \<and> line r \<and> CHR 0x00 \<notin> set s)"
    unfolding IsValidGpsi_def msisdn_iff extid_iff Contains_NUL by (auto simp: HasPrefix_simps)
qed

text \<open>C33. \<^verbatim>\<open>IsValidSuci\<close> accepts exactly the concealed form (type 0 to 7, three-digit MCC, two- or
  three-digit MNC, routing indicator of up to four, protection scheme and key identifier of up to two hexadecimal
  digits, a non-empty hexadecimal output) and the NAI form. Unlike \<^verbatim>\<open>IsValidSupi\<close> it lets a NUL byte
  through in the NAI form.\<close>

theorem valid_suci:
  "(IsValidSuci s \<longleftrightarrow> suci_shape s \<or> (\<exists>u r. s = ''nai-'' @ u @ ''@'' @ r \<and> line u \<and> line r)) \<and>
   IsValidSuci (''nai-a'' @ [CHR 0x00] @ ''@r'') \<and> \<not> IsValidSupi (''nai-a'' @ [CHR 0x00] @ ''@r'')"
proof (intro conjI)
  show "IsValidSuci s \<longleftrightarrow> suci_shape s \<or> (\<exists>u r. s = ''nai-'' @ u @ ''@'' @ r \<and> line u \<and> line r)"
    unfolding IsValidSuci_def suci_iff suci_nai_iff by (auto simp: HasPrefix_simps dest: suci_shape_prefix)
  show "IsValidSuci (''nai-a'' @ [CHR 0x00] @ ''@r'')" by code_simp
  show "\<not> IsValidSupi (''nai-a'' @ [CHR 0x00] @ ''@r'')" by code_simp
qed

text \<open>C34. Equipment and network identifiers: \<^verbatim>\<open>IsValidPei\<close> accepts exactly \<^verbatim>\<open>imei-\<close> with 15 and
  \<^verbatim>\<open>imeisv-\<close> with 16 digits; \<^verbatim>\<open>IsValidPlmnId\<close> 5 or 6 digits; \<^verbatim>\<open>IsValidSnssai\<close> the decimal
  numbers 0 to 255 without leading zeros, alone or followed by a dash and six hexadecimal digits;
  \<^verbatim>\<open>ValidateGroupIdFormat\<close> a non-empty prefix without dashes, a three-digit MCC, a two- or three-digit MNC
  and a non-empty line.\<close>

theorem valid_network_ids:
  "(IsValidPei s \<longleftrightarrow> (\<exists>ds. s = ''imei-'' @ ds \<and> digits 15 15 ds) \<or> (\<exists>ds. s = ''imeisv-'' @ ds \<and> digits 16 16 ds)) \<and>
   (IsValidPlmnId s \<longleftrightarrow> digits 5 6 s) \<and>
   (IsValidSnssai s \<longleftrightarrow> (\<exists>n \<le> 255. s = Itoa n \<or> (\<exists>sd. s = Itoa n @ ''-'' @ sd \<and> xdigits 6 6 sd))) \<and>
   (ValidateGroupIdFormat s = None \<longleftrightarrow> (\<exists>p mcc mnc l. s = p @ ''-'' @ mcc @ ''-'' @ mnc @ ''-'' @ l \<and>
      p \<noteq> [] \<and> CHR ''-'' \<notin> set p \<and> digits 3 3 mcc \<and> digits 2 3 mnc \<and> line l))"
proof (intro conjI)
  show "IsValidPei s \<longleftrightarrow> (\<exists>ds. s = ''imei-'' @ ds \<and> digits 15 15 ds) \<or> (\<exists>ds. s = ''imeisv-'' @ ds \<and> digits 16 16 ds)"
    unfolding IsValidPei_def pei_iffs by (auto simp: HasPrefix_simps)
  show "IsValidPlmnId s \<longleftrightarrow> digits 5 6 s" by (simp add: IsValidPlmnId_def plmn_iff)
  have "IsValidSnssai s \<longleftrightarrow> (\<exists>u v. s = u @ v \<and> u \<in> lang sstRegex \<and> (v = [] \<or> (\<exists>sd. v = ''-'' @ sd \<and> xdigits 6 6 sd)))"
    by (simp add: IsValidSnssai_def snssaiRegex_def full_match_lang in_seq_lang lang_times)
  then show "IsValidSnssai s \<longleftrightarrow> (\<exists>n \<le> 255. s = Itoa n \<or> (\<exists>sd. s = Itoa n @ ''-'' @ sd \<and> xdigits 6 6 sd))"
    unfolding sst_lang by auto
  show "ValidateGroupIdFormat s = None \<longleftrightarrow> (\<exists>p mcc mnc l. s = p @ ''-'' @ mcc @ ''-'' @ mnc @ ''-'' @ l \<and>
      p \<noteq> [] \<and> CHR ''-'' \<notin> set p \<and> digits 3 3 mcc \<and> digits 2 3 mnc \<and> line l)"
    unfolding group_iff [symmetric] by (simp add: ValidateGroupIdFormat_def)
qed

text \<open>C35. \<^verbatim>\<open>IsValidPduSessionID\<close> accepts exactly the decimal digit strings of value below 256, of any length
  and with any number of leading zeros, optionally after a plus sign, and zero also after a minus sign.\<close>

theorem valid_pdu_session_id:
  "IsValidPduSessionID s \<longleftrightarrow>
     (\<exists>sign ds. s = sign @ ds \<and> ds \<noteq> [] \<and> list_all is_digit ds \<and> dec_value ds < 256 \<and>
        (sign = [] \<or> sign = ''+'' \<or> sign = ''-'' \<and> dec_value ds = 0))"
proof
  assume "IsValidPduSessionID s"
  then obtain n where n: "Atoi s = Inr n" "0 \<le> n" "n < 256" by (auto simp: IsValidPduSessionID_def split: sum.splits)
  from Atoi_Inr [OF n(1)] obtain sign ds where d: "s = sign @ ds" "sign = [] \<or> sign = ''+'' \<or> sign = ''-''" "ds \<noteq> []"
    "\<forall>c\<in>set ds. is_digit c" "n = (if sign = ''-'' then - int (dec_value ds) else int (dec_value ds))" by blast
  with n(2,3) have "dec_value ds < 256 \<and> (sign = [] \<or> sign = ''+'' \<or> sign = ''-'' \<and> dec_value ds = 0)"
    by (auto split: if_splits)
  with d(1,3,4) show "\<exists>sign ds. s = sign @ ds \<and> ds \<noteq> [] \<and> list_all is_digit ds \<and>
      dec_value ds < 256 \<and> (sign = [] \<or> sign = ''+'' \<or> sign = ''-'' \<and> dec_value ds = 0)"
    unfolding list_all_iff by blast
next
  assume "\<exists>sign ds. s = sign @ ds \<and> ds \<noteq> [] \<and> list_all is_digit ds \<and> dec_value ds < 256 \<and>
      (sign = [] \<or> sign = ''+'' \<or> sign = ''-'' \<and> dec_value ds = 0)"
  then obtain sign ds where d: "s = sign @ ds" "ds \<noteq> []" "\<forall>c\<in>set ds. is_digit c" "dec_value ds < 256"
    "sign = [] \<or> sign = ''+'' \<or> sign = ''-'' \<and> dec_value ds = 0" unfolding list_all_iff by blast
  have "Atoi s = Inr (if sign = ''-'' then - int (dec_value ds) else int (dec_value ds))"
    using d by (intro Atoi_value) auto
  with d(4,5) show "IsValidPduSessionID s" by (auto simp: IsValidPduSessionID_def)
qed

end
