(* ===== verification/FlowDesc.thy ===== *)
theory FlowDesc
  imports NetIP GoRegex
begin

text \<open>
  \<^verbatim>\<open>lib/util/flowdesc/ip_filter_rule.go\<close>: IPFilterRule text of RFC 3588 as TS 29.212 restricts it, its
  encoder and its decoder. A \<^verbatim>\<open>nil\<close> port list and an empty one print alike and are both \<open>[]\<close>.
\<close>

section \<open>Rules\<close>

definition ProtocolNumberAny :: "8 word" where "ProtocolNumberAny = 0xfc"

definition Permit :: string where "Permit = ''permit''"
definition Deny :: string where "Deny = ''deny''"
definition In :: string where "In = ''in''"
definition Out :: string where "Out = ''out''"
definition AnyAddr :: string where "AnyAddr = ''any''"
definition Assigned :: string where "Assigned = ''assigned''"

record PortRange =
  Start :: "16 word"
  End :: "16 word"

record IPFilterRule =
  Action :: string
  Dir :: string
  Proto :: "8 word"
  Src :: string
  SrcPorts :: "PortRange list"
  Dst :: string
  DstPorts :: "PortRange list"

definition NewIPFilterRule :: IPFilterRule where
  "NewIPFilterRule =
     \<lparr>Action = Permit, Dir = Out, Proto = ProtocolNumberAny, Src = '''', SrcPorts = [], Dst = '''', DstPorts = []\<rparr>"

datatype flow_error =
    InvalidAction
  | OnlyOutSupported
  | SourceAddressesFormat string
  | SourcePortsFormat string
  | DestinationAddressesFormat string
  | DestinationPortsFormat string
  | TooFewFields nat
  | ActionNotAllowed string
  | DirCannotBeIn
  | DirNotAllowed string
  | ParseProtoFailed num_error
  | MustHaveFrom
  | MustHaveTo
  | EmptyAddress
  | NegatedAddress
  | InvalidAddresses string
  | InvalidPortFormat
  | PortNumberError num_error

section \<open>Printing ports\<close>

definition PortRange_String :: "PortRange \<Rightarrow> string" where
  "PortRange_String p =
     (if Start p \<noteq> End p then Itoa (unat (Start p)) @ ''-'' @ Itoa (unat (End p)) else Itoa (unat (Start p)))"

text \<open>The loop with its index; a comma follows every range but the last.\<close>

fun ports_string_loop :: "nat \<Rightarrow> int \<Rightarrow> PortRange list \<Rightarrow> string" where
  "ports_string_loop i lastPortIdx [] = ''''"
| "ports_string_loop i lastPortIdx (port # ps) =
     PortRange_String port @ (if int i \<noteq> lastPortIdx then '','' else '''') @ ports_string_loop (i + 1) lastPortIdx ps"

definition PortRanges_String :: "PortRange list \<Rightarrow> string" where
  "PortRanges_String ps = ports_string_loop 0 (int (length ps) - 1) ps"

definition SwapSrcAndDst :: "IPFilterRule \<Rightarrow> IPFilterRule" where
  "SwapSrcAndDst r = r\<lparr>Src := Dst r, Dst := Src r, SrcPorts := DstPorts r, DstPorts := SrcPorts r\<rparr>"

section \<open>Checks\<close>

definition portsRegex :: pattern where
  "portsRegex = Unanchored (rx_opt (rx_seq [RCls ((=) CHR '' ''), rx_range 1 5 rx_digit,
     RStar (rx_seq [RCls (\<lambda>c. c = CHR '','' \<or> c = CHR ''-''), rx_range 1 5 rx_digit])]))"

definition validPortsFormat :: "string \<Rightarrow> bool" where
  "validPortsFormat ports = MatchString portsRegex ports"

definition validAddrsFormat :: "string \<Rightarrow> bool" where
  "validAddrsFormat addrs =
     (if addrs = '''' then False
      else if addrs ! 0 = CHR ''!'' then False
      else if addrs = AnyAddr \<or> addrs = Assigned then True
      else case ParseCIDR addrs of
        Some _ \<Rightarrow> True
      | None \<Rightarrow> ParseIP addrs \<noteq> None)"

section \<open>Encode\<close>

definition encode_addr :: "(string \<Rightarrow> flow_error) \<Rightarrow> string \<Rightarrow> flow_error + string" where
  "encode_addr err addr =
     (if addr \<noteq> '''' then (if validAddrsFormat addr then Inr addr else Inl (err addr)) else Inr AnyAddr)"

definition encode_ports :: "(string \<Rightarrow> flow_error) \<Rightarrow> PortRange list \<Rightarrow> flow_error + string list" where
  "encode_ports err ps =
     (let port = PortRanges_String ps in
      if port \<noteq> '''' then (if validPortsFormat port then Inr [port] else Inl (err port)) else Inr [])"

definition Encode :: "IPFilterRule \<Rightarrow> flow_error + string" where
  "Encode r =
     (if Action r \<noteq> Permit \<and> Action r \<noteq> Deny then Inl InvalidAction
      else if Dir r \<noteq> Out then Inl OnlyOutSupported
      else
        let action = (if Action r = Permit then ''permit'' else ''deny'');
            proto = (if Proto r = ProtocolNumberAny then ''ip'' else Itoa (unat (Proto r)))
        in err_bind (encode_addr SourceAddressesFormat (Src r)) (\<lambda>src.
           err_bind (encode_ports SourcePortsFormat (SrcPorts r)) (\<lambda>srcPort.
           err_bind (encode_addr DestinationAddressesFormat (Dst r)) (\<lambda>dst.
           err_bind (encode_ports DestinationPortsFormat (DstPorts r)) (\<lambda>dstPort.
             Inr (Join ([action, ''out'', proto, ''from'', src] @ srcPort @ [''to'', dst] @ dstPort) '' ''))))))"

section \<open>Decode\<close>

definition parseAction :: "string \<Rightarrow> flow_error + string" where
  "parseAction act = (if act = Permit \<or> act = Deny then Inr act else Inl (ActionNotAllowed act))"

definition parseDirection :: "string \<Rightarrow> flow_error + string" where
  "parseDirection dir =
     (if dir = Out then Inr dir else if dir = In then Inl DirCannotBeIn else Inl (DirNotAllowed dir))"

text \<open>\<^verbatim>\<open>uint8(proto)\<close> keeps the low eight bits of the parsed \<^verbatim>\<open>int\<close>.\<close>

definition parseProto :: "string \<Rightarrow> flow_error + 8 word" where
  "parseProto proto =
     (if proto = ''ip'' then Inr ProtocolNumberAny
      else case Atoi proto of Inl e \<Rightarrow> Inl (ParseProtoFailed e) | Inr n \<Rightarrow> Inr (word_of_int n))"

definition parseFlowDescAddrs :: "string \<Rightarrow> flow_error + string" where
  "parseFlowDescAddrs addrs =
     (if addrs = '''' then Inl EmptyAddress
      else if addrs = AnyAddr \<or> addrs = Assigned then Inr addrs
      else if addrs ! 0 = CHR ''!'' then Inl NegatedAddress
      else case ParseCIDR addrs of
        Some (_, ipnet) \<Rightarrow> Inr (IPNet_String ipnet)
      | None \<Rightarrow> (case ParseIP addrs of Some ip \<Rightarrow> Inr (IP_String ip) | None \<Rightarrow> Inl (InvalidAddresses addrs)))"

text \<open>The body of the loop of \<^verbatim>\<open>ParsePorts\<close>: only the first two parts of a dashed range count.\<close>

definition parse_uint16 :: "string \<Rightarrow> flow_error + 16 word" where
  "parse_uint16 s = (case ParseUint 65535 s of Inl e \<Rightarrow> Inl (PortNumberError e) | Inr n \<Rightarrow> Inr (of_nat n))"

definition parse_range :: "string \<Rightarrow> flow_error + PortRange" where
  "parse_range r =
     (let rangeStr = Split CHR ''-'' r in
      if length rangeStr = 1 then err_bind (parse_uint16 r) (\<lambda>p. Inr \<lparr>Start = p, End = p\<rparr>)
      else err_bind (parse_uint16 (rangeStr ! 0)) (\<lambda>p0.
           err_bind (parse_uint16 (rangeStr ! 1)) (\<lambda>p1. Inr \<lparr>Start = p0, End = p1\<rparr>)))"

fun parse_ranges :: "string list \<Rightarrow> flow_error + PortRange list" where
  "parse_ranges [] = Inr []"
| "parse_ranges (r # rs) = err_bind (parse_range r) (\<lambda>p. err_bind (parse_ranges rs) (\<lambda>ps. Inr (p # ps)))"

definition ParsePorts :: "string \<Rightarrow> flow_error + PortRange list" where
  "ParsePorts ports =
     (if \<not> validPortsFormat ports then Inl InvalidPortFormat else parse_ranges (Split CHR '','' ports))"

definition field_at :: "string list \<Rightarrow> nat \<Rightarrow> flow_error + string" where
  "field_at parts ptr = (if length parts \<le> ptr then Inl (TooFewFields (length parts)) else Inr (parts ! ptr))"

definition expect :: "flow_error \<Rightarrow> string \<Rightarrow> string \<Rightarrow> flow_error + unit" where
  "expect e word s = (if s \<noteq> word then Inl e else Inr ())"

text \<open>The optional source ports: the parsed ports and the pointer behind them.\<close>

definition source_ports :: "nat \<Rightarrow> string \<Rightarrow> PortRange list \<times> nat" where
  "source_ports ptr s = (case ParsePorts s of Inr sp \<Rightarrow> (sp, ptr + 1) | Inl _ \<Rightarrow> ([], ptr))"

text \<open>What follows the destination address is taken as ports if it parses and ignored otherwise.\<close>

definition dest_ports :: "string list \<Rightarrow> nat \<Rightarrow> PortRange list" where
  "dest_ports parts ptr =
     (if length parts \<le> ptr then [] else case ParsePorts (parts ! ptr) of Inr dp \<Rightarrow> dp | Inl _ \<Rightarrow> [])"

definition Decode :: "string \<Rightarrow> flow_error + IPFilterRule" where
  "Decode s =
     (let parts = Fields (ToLower s); r = NewIPFilterRule in
      err_bind (err_bind (field_at parts 0) parseAction) (\<lambda>act.
      err_bind (err_bind (field_at parts 1) parseDirection) (\<lambda>dir.
      err_bind (err_bind (field_at parts 2) parseProto) (\<lambda>proto.
      err_bind (err_bind (field_at parts 3) (expect MustHaveFrom ''from'')) (\<lambda>_.
      err_bind (err_bind (field_at parts 4) parseFlowDescAddrs) (\<lambda>src.
      err_bind (field_at parts 5) (\<lambda>p5.
      let (sp, ptr) = source_ports 5 p5 in
      err_bind (err_bind (field_at parts ptr) (expect MustHaveTo ''to'')) (\<lambda>_.
      err_bind (err_bind (field_at parts (ptr + 1)) parseFlowDescAddrs) (\<lambda>dst.
        Inr (r\<lparr>Action := act, Dir := dir, Proto := proto, Src := src, SrcPorts := sp, Dst := dst,
               DstPorts := dest_ports parts (ptr + 2)\<rparr>))))))))))"

section \<open>Port lists\<close>

lemma ports_string_loop_Join:
  "ps \<noteq> [] \<Longrightarrow> ports_string_loop i (int (i + length ps) - 1) ps = Join (map PortRange_String ps) '',''"
proof (induction ps arbitrary: i)
  case (Cons p ps)
  show ?case
  proof (cases "ps = []")
    case False
    have "ports_string_loop (Suc i) (int i + int (length ps)) ps = Join (map PortRange_String ps) '',''"
      using Cons.IH [OF False, of "Suc i"] by simp
    with False show ?thesis by (simp add: Join_Cons)
  qed simp
qed simp

lemma PortRanges_String_Join: "PortRanges_String ps = Join (map PortRange_String ps) '',''"
  using ports_string_loop_Join [of ps 0] by (cases "ps = []") (simp_all add: PortRanges_String_def)

lemma validPortsFormat_True: "validPortsFormat s"
  unfolding validPortsFormat_def portsRegex_def by (rule unanchored_nullable) (simp add: rx_opt_def)

lemma parse_uint16_Itoa: "parse_uint16 (Itoa (unat w)) = Inr w" for w :: "16 word"
proof -
  have "unat w < 65536" using unsigned_less [of w] by simp
  then have "unat w \<le> 65535" by simp
  then show ?thesis using ParseUint_Itoa [of 65535 "unat w"] by (simp add: parse_uint16_def)
qed

lemma Itoa_no_dash: "CHR ''-'' \<notin> set (Itoa n)" "CHR '','' \<notin> set (Itoa n)"
  using Itoa_digits [of n] digit_not_special(3,4) by blast+

lemma parse_range_String: "parse_range (PortRange_String p) = Inr p"
proof -
  have "Split CHR ''-'' (Itoa n) = [Itoa n]" for n by (simp add: Split_no_sep Itoa_no_dash)
  then show ?thesis
    by (cases "Start p = End p")
      (simp_all add: parse_range_def PortRange_String_def Split_append Itoa_no_dash parse_uint16_Itoa)
qed

lemma PortRange_String_no_comma: "CHR '','' \<notin> set (PortRange_String p)"
  using Itoa_no_dash(2) by (auto simp: PortRange_String_def)

lemma parse_ranges_String: "parse_ranges (map PortRange_String ps) = Inr ps"
  by (induction ps) (simp_all add: parse_range_String)

lemma ParsePorts_String: "ps \<noteq> [] \<Longrightarrow> ParsePorts (PortRanges_String ps) = Inr ps"
  using PortRange_String_no_comma
  by (simp add: ParsePorts_def validPortsFormat_True PortRanges_String_Join Split_Join parse_ranges_String)

section \<open>Words of a rule\<close>

text \<open>A field of an encoded rule: a non-empty lower-case word without spaces.\<close>

definition plain_word :: "string \<Rightarrow> bool" where
  "plain_word w \<longleftrightarrow> w \<noteq> [] \<and> (\<forall>c\<in>set w. \<not> is_space c \<and> \<not> is_upper c)"

lemma lower_char_id: "\<not> is_upper c \<Longrightarrow> lower_char c = c"
  by (simp add: lower_char_def)

lemma ToLower_id: "\<forall>c\<in>set s. \<not> is_upper c \<Longrightarrow> ToLower s = s"
  by (simp add: ToLower_def map_idI lower_char_id)

lemma Fields_ToLower_Join:
  assumes "\<forall>w\<in>set ws. plain_word w"
  shows "Fields (ToLower (Join ws '' '')) = ws"
proof -
  have sp: "\<not> is_upper CHR '' ''" by (simp add: is_upper_def)
  have "set (Join ws '' '') \<subseteq> (\<Union>w\<in>set ws. set w) \<union> {CHR '' ''}" using set_Join [of ws "'' ''"] by auto
  then have "\<forall>c\<in>set (Join ws '' ''). \<not> is_upper c" using assms sp by (auto simp: plain_word_def)
  then have "ToLower (Join ws '' '') = Join ws '' ''" by (rule ToLower_id)
  moreover have "Fields (Join ws '' '') = ws" using assms by (intro Fields_Join) (auto simp: plain_word_def)
  ultimately show ?thesis by simp
qed

lemma plain_words [simp]:
  "plain_word ''permit''" "plain_word ''deny''" "plain_word ''out''" "plain_word ''ip''" "plain_word ''from''"
  "plain_word ''to''" "plain_word ''any''" "plain_word ''assigned''"
  by (simp_all add: plain_word_def is_space_def is_upper_def)

lemma plain_Itoa: "plain_word (Itoa n)"
  using Itoa_digits [of n] digit_not_special(1,2) by (simp add: plain_word_def)

lemma plain_PortRange: "plain_word (PortRange_String p)"
  using plain_Itoa by (auto simp: PortRange_String_def plain_word_def is_space_def is_upper_def)

lemma plain_ports: "ps \<noteq> [] \<Longrightarrow> plain_word (PortRanges_String ps)"
proof -
  assume ne: "ps \<noteq> []"
  then obtain p qs where ps: "ps = p # qs" by (cases ps) auto
  have "set (PortRanges_String ps) \<subseteq> (\<Union>p\<in>set ps. set (PortRange_String p)) \<union> {CHR '',''}"
    using set_Join [of "map PortRange_String ps" "'',''"] by (auto simp: PortRanges_String_Join)
  moreover have "\<not> is_space CHR '',''" "\<not> is_upper CHR '',''" by (simp_all add: is_space_def is_upper_def)
  moreover have "PortRanges_String ps \<noteq> []"
    using plain_PortRange [of p] by (cases "qs = []") (auto simp: ps PortRanges_String_Join Join_Cons plain_word_def)
  ultimately show ?thesis using plain_PortRange unfolding plain_word_def by blast
qed

section \<open>Canonical addresses\<close>

lemma addr_text_facts:
  assumes "t \<noteq> []" "\<forall>c\<in>set t. addr_char c \<or> c = CHR ''/''"
  shows "plain_word t" "t ! 0 \<noteq> CHR ''!''" "t \<noteq> AnyAddr" "t \<noteq> Assigned"
proof -
  have sl: "\<not> is_space CHR ''/''" "\<not> is_upper CHR ''/''" by (simp_all add: is_space_def is_upper_def)
  show "plain_word t" using assms sl addr_char_facts(1,2) by (auto simp: plain_word_def)
  have "t ! 0 \<in> set t" using assms(1) by simp
  then show "t ! 0 \<noteq> CHR ''!''" using assms(2) addr_char_facts(5) by fastforce
  have "CHR ''n'' \<notin> set t" using assms(2) addr_char_facts(8) by fastforce
  then show "t \<noteq> AnyAddr" "t \<noteq> Assigned" by (auto simp: AnyAddr_def Assigned_def)
qed

lemma ParseCIDR_no_slash: "CHR ''/'' \<notin> set t \<Longrightarrow> ParseCIDR t = None"
proof -
  assume "CHR ''/'' \<notin> set t"
  then have "\<forall>c\<in>set t. not_slash c" by (metis not_slash_def)
  then have "dropWhile not_slash t = []" by simp
  then show "ParseCIDR t = None" unfolding ParseCIDR_def by (simp only: list.case)
qed

text \<open>Parsing an address normalises it: parsing the result again gives the same text.\<close>

lemma parseFlowDescAddrs_idem:
  assumes "parseFlowDescAddrs a = Inr b"
  shows "parseFlowDescAddrs b = Inr b \<and> plain_word b"
proof -
  consider "b = AnyAddr \<or> b = Assigned" |
    ip n where "ParseCIDR a = Some (ip, n)" "b = IPNet_String n" |
    ip where "ParseIP a = Some ip" "b = IP_String ip"
    using assms by (auto simp: parseFlowDescAddrs_def split: if_splits option.splits)
  then show ?thesis
  proof cases
    case 1
    then show ?thesis by (auto simp: parseFlowDescAddrs_def AnyAddr_def Assigned_def)
  next
    case (2 ip n)
    note f = addr_text_facts [OF IPNet_String_chars [OF 2(1), THEN conjunct1] IPNet_String_chars [OF 2(1), THEN conjunct2]]
    obtain ip' n' where "ParseCIDR (IPNet_String n) = Some (ip', n')" "IPNet_String n' = IPNet_String n"
      using CIDR_normalised [OF 2(1)] by blast
    with f 2(2) show ?thesis by (auto simp: parseFlowDescAddrs_def plain_word_def)
  next
    case (3 ip)
    have l: "length ip = 16" using ParseIP_length [OF 3(1)] .
    then have c: "\<forall>c\<in>set (IP_String ip). addr_char c" by (intro IP_String_chars) simp
    have ne: "IP_String ip \<noteq> []" using ParseIP_IP_String [OF l] by (auto simp: ParseIP_def ParseAddr_def)
    have "\<forall>c\<in>set (IP_String ip). addr_char c \<or> c = CHR ''/''" using c by blast
    note f = addr_text_facts [OF ne this]
    have "CHR ''/'' \<notin> set (IP_String ip)" using c addr_char_facts(4) by blast
    then have "ParseCIDR (IP_String ip) = None" by (rule ParseCIDR_no_slash)
    with f ne 3(2) ParseIP_IP_String [OF l] show ?thesis by (simp add: parseFlowDescAddrs_def)
  qed
qed

lemma encode_addr_canonical:
  assumes "parseFlowDescAddrs a = Inr a" shows "encode_addr err a = Inr a"
  using assms parseFlowDescAddrs_idem [OF assms]
  by (auto simp: parseFlowDescAddrs_def encode_addr_def validAddrsFormat_def AnyAddr_def Assigned_def
      split: if_splits option.splits)

lemma encode_ports_eq: "encode_ports err ps = Inr (if ps = [] then [] else [PortRanges_String ps])"
  using plain_ports [of ps]
  by (auto simp: encode_ports_def validPortsFormat_True plain_word_def Let_def PortRanges_String_def)

section \<open>Round trip\<close>

lemma parseProto_text:
  "parseProto (if p = ProtocolNumberAny then ''ip'' else Itoa (unat p)) = Inr p"
proof (cases "p = ProtocolNumberAny")
  case False
  have "Atoi (Itoa (unat p)) = Inr (int (unat p))" by (intro Atoi_Itoa less_trans [OF unat_byte_less]) simp
  moreover have "Itoa (unat p) \<noteq> ''ip''" using Itoa_digits [of "unat p"] by (auto simp: is_digit_def)
  ultimately show ?thesis using False by (simp add: parseProto_def)
qed (simp add: parseProto_def)

lemma ParsePorts_to: "\<exists>e. ParsePorts ''to'' = Inl e"
  by (simp add: ParsePorts_def validPortsFormat_True parse_range_def parse_uint16_def ParseUint_def is_digit_def)

text \<open>The decoder on the fields of an encoded rule.\<close>

definition rule_words :: "IPFilterRule \<Rightarrow> string list" where
  "rule_words r = [Action r, ''out'', if Proto r = ProtocolNumberAny then ''ip'' else Itoa (unat (Proto r)), ''from'', Src r] @
     (if SrcPorts r = [] then [] else [PortRanges_String (SrcPorts r)]) @ [''to'', Dst r] @
     (if DstPorts r = [] then [] else [PortRanges_String (DstPorts r)])"

definition canonical_rule :: "IPFilterRule \<Rightarrow> bool" where
  "canonical_rule r \<longleftrightarrow> Action r \<in> {Permit, Deny} \<and> Dir r = Out \<and>
     parseFlowDescAddrs (Src r) = Inr (Src r) \<and> parseFlowDescAddrs (Dst r) = Inr (Dst r)"

lemma Encode_words: "canonical_rule r \<Longrightarrow> Encode r = Inr (Join (rule_words r) '' '')"
  by (auto simp: Encode_def canonical_rule_def encode_addr_canonical encode_ports_eq rule_words_def Permit_def Deny_def)

lemma plain_rule_words: "canonical_rule r \<Longrightarrow> \<forall>w\<in>set (rule_words r). plain_word w"
  using parseFlowDescAddrs_idem
  by (auto simp: rule_words_def canonical_rule_def plain_ports plain_Itoa Permit_def Deny_def)

lemma Decode_words:
  assumes "canonical_rule r" "Fields (ToLower s) = rule_words r"
  shows "Decode s = Inr r"
proof -
  obtain e where e: "ParsePorts ''to'' = Inl e" using ParsePorts_to by blast
  note p = parseProto_text [of "Proto r"]
  show ?thesis
    using assms e p
    by (cases r; cases "SrcPorts r = []"; cases "DstPorts r = []")
      (auto simp: Decode_def rule_words_def field_at_def parseAction_def parseDirection_def expect_def source_ports_def
        dest_ports_def ParsePorts_String canonical_rule_def NewIPFilterRule_def Out_def)
qed

lemma Decode_canonical: "Decode s = Inr r \<Longrightarrow> canonical_rule r"
  by (auto simp: Decode_def canonical_rule_def exec_simps Let_def split_beta parseAction_def parseDirection_def
      NewIPFilterRule_def dest: parseFlowDescAddrs_idem split: if_splits)

lemma roundtrip_canonical:
  assumes "canonical_rule r" shows "\<exists>s. Encode r = Inr s \<and> Decode s = Inr r"
  using Encode_words [OF assms] Decode_words [OF assms Fields_ToLower_Join [OF plain_rule_words [OF assms]]] by blast

lemma canonical_swap: "canonical_rule r \<Longrightarrow> canonical_rule (SwapSrcAndDst r)"
  by (simp add: canonical_rule_def SwapSrcAndDst_def)

section \<open>Properties\<close>

text \<open>C14. Encoding then decoding is the identity on every rule whose action is permit or deny, whose direction is
  out and whose addresses are in the decoder's normal form, for every protocol number and all port lists; what
  \<^verbatim>\<open>SwapSrcAndDst\<close> makes of such a rule encodes to a text that decodes to the rule with source and destination,
  addresses and ports, exchanged and all else the same.\<close>

theorem flow_encode_decode:
  assumes "Action r \<in> {Permit, Deny}" and "Dir r = Out"
    and "parseFlowDescAddrs (Src r) = Inr (Src r)" and "parseFlowDescAddrs (Dst r) = Inr (Dst r)"
  shows "(\<exists>s. Encode r = Inr s \<and> Decode s = Inr r) \<and>
    (\<exists>s. Encode (SwapSrcAndDst r) = Inr s \<and> Decode s =
       Inr (r\<lparr>Src := Dst r, SrcPorts := DstPorts r, Dst := Src r, DstPorts := SrcPorts r\<rparr>))"
proof -
  have "canonical_rule r" using assms by (simp add: canonical_rule_def)
  then have "\<exists>s. Encode r = Inr s \<and> Decode s = Inr r"
    "\<exists>s. Encode (SwapSrcAndDst r) = Inr s \<and> Decode s = Inr (SwapSrcAndDst r)"
    using roundtrip_canonical canonical_swap by blast+
  moreover have "SwapSrcAndDst r = r\<lparr>Src := Dst r, SrcPorts := DstPorts r, Dst := Src r, DstPorts := SrcPorts r\<rparr>"
    by (simp add: SwapSrcAndDst_def)
  ultimately show ?thesis by (simp only:)
qed

theorem flow_encode_decode_witness:
  "\<exists>s. Encode \<lparr>Action = Permit, Dir = Out, Proto = 17, Src = AnyAddr, SrcPorts = [\<lparr>Start = 80, End = 90\<rparr>],
     Dst = Assigned, DstPorts = []\<rparr> = Inr s \<and>
   Decode s = Inr \<lparr>Action = Permit, Dir = Out, Proto = 17, Src = AnyAddr, SrcPorts = [\<lparr>Start = 80, End = 90\<rparr>],
     Dst = Assigned, DstPorts = []\<rparr>"
proof -
  have "parseFlowDescAddrs AnyAddr = Inr AnyAddr" "parseFlowDescAddrs Assigned = Inr Assigned"
    by (simp_all add: parseFlowDescAddrs_def AnyAddr_def Assigned_def)
  with flow_encode_decode [of "\<lparr>Action = Permit, Dir = Out, Proto = 17, Src = AnyAddr,
      SrcPorts = [\<lparr>Start = 80, End = 90\<rparr>], Dst = Assigned, DstPorts = []\<rparr>"]
  show ?thesis by simp
qed

text \<open>C36. Whatever \<^verbatim>\<open>Decode\<close> accepts it normalises: the decoded rule can be encoded, and decoding that text
  gives the same rule again. Addresses and prefixes, IPv6 and IPv4-mapped ones included, come back unchanged.\<close>

theorem flow_decode_normalises:
  assumes "Decode s = Inr r"
  shows "\<exists>t. Encode r = Inr t \<and> Decode t = Inr r"
  using roundtrip_canonical [OF Decode_canonical [OF assms]] .

lemma plain_samples [simp]: "plain_word ''300''" "plain_word ''-1''" "plain_word ''1-2-3''"
  by (simp_all add: plain_word_def is_space_def is_upper_def)

lemma Atoi_samples: "Atoi ''300'' = Inr 300" "Atoi ''-1'' = Inr (- 1)"
  by (simp_all add: Atoi_def ParseUint_def is_digit_def digit_val_def)

lemma any_assigned: "parseFlowDescAddrs ''any'' = Inr ''any''" "parseFlowDescAddrs ''assigned'' = Inr ''assigned''"
  by (simp_all add: parseFlowDescAddrs_def AnyAddr_def Assigned_def)

lemma ParsePorts_123: "ParsePorts ''1-2-3'' = Inr [\<lparr>Start = 1, End = 2\<rparr>]"
  by (simp add: ParsePorts_def validPortsFormat_True parse_range_def parse_uint16_def ParseUint_def is_digit_def
      digit_val_def Let_def)

lemmas decode_simps = Decode_def Fields_ToLower_Join field_at_def parseAction_def parseDirection_def expect_def
  source_ports_def dest_ports_def NewIPFilterRule_def Permit_def Deny_def Out_def In_def any_assigned

theorem flow_decode_normalises_witness:
  "\<exists>r t. Decode (Join [''permit'', ''out'', ''300'', ''from'', ''any'', ''to'', ''assigned''] '' '') = Inr r \<and>
    Encode r = Inr t \<and> Decode t = Inr r"
proof -
  obtain e where "ParsePorts ''to'' = Inl e" using ParsePorts_to by blast
  then have "Decode (Join [''permit'', ''out'', ''300'', ''from'', ''any'', ''to'', ''assigned''] '' '') =
      Inr \<lparr>Action = ''permit'', Dir = ''out'', Proto = 44, Src = ''any'', SrcPorts = [], Dst = ''assigned'', DstPorts = []\<rparr>"
    unfolding decode_simps by (subst Fields_ToLower_Join) (simp_all add: decode_simps parseProto_def Atoi_samples)
  from flow_decode_normalises [OF this] this show ?thesis by blast
qed

text \<open>Input checks that do not check. The port pattern is optional and not anchored, so
  \<^verbatim>\<open>validPortsFormat\<close> accepts every string; a protocol number is cut to eight bits without a range check, so
  \<^verbatim>\<open>300\<close> decodes as protocol 44 and \<^verbatim>\<open>-1\<close> as 255; a range with three parts keeps the first two.\<close>

lemma flow_unchecked_input:
  "validPortsFormat s \<and> parseProto ''300'' = Inr 44 \<and> parseProto ''-1'' = Inr 255 \<and>
   ParsePorts ''1-2-3'' = Inr [\<lparr>Start = 1, End = 2\<rparr>]"
  by (simp add: validPortsFormat_True ParsePorts_123 parseProto_def Atoi_samples)

end
