(* ===== verification/Aes.thy ===== *)
theory Aes
  imports Prelude
begin

text \<open>
  The block cipher of Go's \<^verbatim>\<open>crypto/aes\<close>, which MILENAGE uses as its kernel: key expansion and
  encryption of one block for 128, 192 and 256 bit keys (FIPS 197). The state is the list of the 16 octets in
  input order, which is column after column. The contract the other components rely on is the locale
  \<open>block_cipher\<close>.
\<close>

section \<open>Rounds\<close>

definition sbox :: "byte list list" where
  "sbox =
    [[0x63, 0x7c, 0x77, 0x7b, 0xf2, 0x6b, 0x6f, 0xc5, 0x30, 0x01, 0x67, 0x2b, 0xfe, 0xd7, 0xab, 0x76],
     [0xca, 0x82, 0xc9, 0x7d, 0xfa, 0x59, 0x47, 0xf0, 0xad, 0xd4, 0xa2, 0xaf, 0x9c, 0xa4, 0x72, 0xc0],
     [0xb7, 0xfd, 0x93, 0x26, 0x36, 0x3f, 0xf7, 0xcc, 0x34, 0xa5, 0xe5, 0xf1, 0x71, 0xd8, 0x31, 0x15],
     [0x04, 0xc7, 0x23, 0xc3, 0x18, 0x96, 0x05, 0x9a, 0x07, 0x12, 0x80, 0xe2, 0xeb, 0x27, 0xb2, 0x75],
     [0x09, 0x83, 0x2c, 0x1a, 0x1b, 0x6e, 0x5a, 0xa0, 0x52, 0x3b, 0xd6, 0xb3, 0x29, 0xe3, 0x2f, 0x84],
     [0x53, 0xd1, 0x00, 0xed, 0x20, 0xfc, 0xb1, 0x5b, 0x6a, 0xcb, 0xbe, 0x39, 0x4a, 0x4c, 0x58, 0xcf],
     [0xd0, 0xef, 0xaa, 0xfb, 0x43, 0x4d, 0x33, 0x85, 0x45, 0xf9, 0x02, 0x7f, 0x50, 0x3c, 0x9f, 0xa8],
     [0x51, 0xa3, 0x40, 0x8f, 0x92, 0x9d, 0x38, 0xf5, 0xbc, 0xb6, 0xda, 0x21, 0x10, 0xff, 0xf3, 0xd2],
     [0xcd, 0x0c, 0x13, 0xec, 0x5f, 0x97, 0x44, 0x17, 0xc4, 0xa7, 0x7e, 0x3d, 0x64, 0x5d, 0x19, 0x73],
     [0x60, 0x81, 0x4f, 0xdc, 0x22, 0x2a, 0x90, 0x88, 0x46, 0xee, 0xb8, 0x14, 0xde, 0x5e, 0x0b, 0xdb],
     [0xe0, 0x32, 0x3a, 0x0a, 0x49, 0x06, 0x24, 0x5c, 0xc2, 0xd3, 0xac, 0x62, 0x91, 0x95, 0xe4, 0x79],
     [0xe7, 0xc8, 0x37, 0x6d, 0x8d, 0xd5, 0x4e, 0xa9, 0x6c, 0x56, 0xf4, 0xea, 0x65, 0x7a, 0xae, 0x08],
     [0xba, 0x78, 0x25, 0x2e, 0x1c, 0xa6, 0xb4, 0xc6, 0xe8, 0xdd, 0x74, 0x1f, 0x4b, 0xbd, 0x8b, 0x8a],
     [0x70, 0x3e, 0xb5, 0x66, 0x48, 0x03, 0xf6, 0x0e, 0x61, 0x35, 0x57, 0xb9, 0x86, 0xc1, 0x1d, 0x9e],
     [0xe1, 0xf8, 0x98, 0x11, 0x69, 0xd9, 0x8e, 0x94, 0x9b, 0x1e, 0x87, 0xe9, 0xce, 0x55, 0x28, 0xdf],
     [0x8c, 0xa1, 0x89, 0x0d, 0xbf, 0xe6, 0x42, 0x68, 0x41, 0x99, 0x2d, 0x0f, 0xb0, 0x54, 0xbb, 0x16]]"

definition nibble :: "byte \<Rightarrow> nat" where
  "nibble b = unat (b AND 0x0f)"

definition SubByte :: "byte \<Rightarrow> byte" where
  "SubByte b = sbox ! nibble (drop_bit 4 b) ! nibble b"

definition ShiftRows :: "byte list \<Rightarrow> byte list" where
  "ShiftRows s = map (\<lambda>i. s ! i) [0, 5, 10, 15, 4, 9, 14, 3, 8, 13, 2, 7, 12, 1, 6, 11]"

definition xtime :: "byte \<Rightarrow> byte" where
  "xtime b = push_bit 1 b XOR (if b AND 0x80 \<noteq> 0 then 0x1b else 0)"

fun MixColumns :: "byte list \<Rightarrow> byte list" where
  "MixColumns (a # b # c # d # s) =
     (xtime a XOR xtime b XOR b XOR c XOR d) # (a XOR xtime b XOR xtime c XOR c XOR d) #
     (a XOR b XOR xtime c XOR xtime d XOR d) # (xtime a XOR a XOR b XOR c XOR xtime d) # MixColumns s"
| "MixColumns _ = []"

definition xor_bytes :: "byte list \<Rightarrow> byte list \<Rightarrow> byte list" where
  "xor_bytes a b = map2 (XOR) a b"

section \<open>Key expansion\<close>

definition rcon :: "byte list" where
  "rcon = [0x01, 0x02, 0x04, 0x08, 0x10, 0x20, 0x40, 0x80, 0x1b, 0x36]"

text \<open>The next word from the previous one, at index \<open>i\<close> of the schedule.\<close>

definition expand_word :: "nat \<Rightarrow> nat \<Rightarrow> byte list \<Rightarrow> byte list" where
  "expand_word nk i w =
     (if i mod nk = 0 then
        (case map SubByte (rotate1 w) of
           [] \<Rightarrow> [] | t # ts \<Rightarrow> (t XOR rcon ! (i div nk - 1)) # ts)
      else if 6 < nk \<and> i mod nk = 4 then map SubByte w
      else w)"

primrec expand_loop :: "nat \<Rightarrow> nat \<Rightarrow> byte list list \<Rightarrow> byte list list" where
  "expand_loop nk 0 ws = ws"
| "expand_loop nk (Suc n) ws =
     (let i = length ws in
      expand_loop nk n (ws @ [xor_bytes (ws ! (i - nk)) (expand_word nk i (last ws))]))"

fun chunks4 :: "byte list \<Rightarrow> byte list list" where
  "chunks4 (a # b # c # d # s) = [a, b, c, d] # chunks4 s"
| "chunks4 _ = []"

fun join4 :: "byte list list \<Rightarrow> byte list list" where
  "join4 (a # b # c # d # ws) = (a @ b @ c @ d) # join4 ws"
| "join4 _ = []"

text \<open>The round keys: eleven, thirteen or fifteen blocks.\<close>

definition round_keys :: "byte list \<Rightarrow> byte list list" where
  "round_keys key =
     (let nk = length key div 4 in join4 (expand_loop nk (4 * (nk + 7) - nk) (chunks4 key)))"

fun rounds :: "byte list list \<Rightarrow> byte list \<Rightarrow> byte list" where
  "rounds [] s = s"
| "rounds [rk] s = xor_bytes (ShiftRows (map SubByte s)) rk"
| "rounds (rk # rks) s = rounds rks (xor_bytes (MixColumns (ShiftRows (map SubByte s))) rk)"

definition cipher :: "byte list list \<Rightarrow> byte list \<Rightarrow> byte list" where
  "cipher rks s = (case rks of [] \<Rightarrow> s | rk # rest \<Rightarrow> rounds rest (xor_bytes s rk))"

section \<open>The package interface\<close>

text \<open>
  \<^verbatim>\<open>aes.NewCipher\<close> fails on any other key size; \<^verbatim>\<open>Encrypt\<close> reads one block and panics on less. A
  cipher is the function from blocks to blocks that \<^verbatim>\<open>Encrypt\<close> computes.
\<close>

datatype cipher_error = KeySizeError nat

type_synonym Block = "byte list \<Rightarrow> byte list exec"

definition aes_Encrypt :: "byte list list \<Rightarrow> Block" where
  "aes_Encrypt rks src =
     (if length src < 16 then Panics InputNotFullBlock else Returns (cipher rks (take 16 src)))"

definition aes_NewCipher :: "byte list \<Rightarrow> cipher_error + Block" where
  "aes_NewCipher k =
     (if length k = 16 \<or> length k = 24 \<or> length k = 32 then Inr (aes_Encrypt (round_keys k))
      else Inl (KeySizeError (length k)))"

section \<open>Contract\<close>

locale block_cipher =
  fixes newCipher :: "byte list \<Rightarrow> cipher_error + Block"
  assumes key_ok: "length k = 16 \<Longrightarrow> \<exists>E. newCipher k = Inr E"
    and block_ok: "newCipher k = Inr E \<Longrightarrow> length src = 16 \<Longrightarrow> \<exists>dst. E src = Returns dst \<and> length dst = 16"
begin

text \<open>The function a 16-octet key selects.\<close>

definition enc :: "byte list \<Rightarrow> byte list \<Rightarrow> byte list" where
  "enc k src = (case newCipher k of Inr E \<Rightarrow> (case E src of Returns dst \<Rightarrow> dst | Panics _ \<Rightarrow> []) | Inl _ \<Rightarrow> [])"

lemma enc_eq:
  assumes "newCipher k = Inr E" "length src = 16"
  shows "E src = Returns (enc k src)" "length (enc k src) = 16"
  using block_ok [OF assms] assms(1) by (auto simp: enc_def)

end

lemma length_xor_bytes [simp]: "length (xor_bytes a b) = min (length a) (length b)"
  by (simp add: xor_bytes_def)

lemma length_ShiftRows [simp]: "length (ShiftRows s) = 16"
  by (simp add: ShiftRows_def)

lemma length_MixColumns: "length s = 16 \<Longrightarrow> length (MixColumns s) = 16"
proof -
  have "length (MixColumns s) = length s" if "length s = 4 * n" for n s
    using that
  proof (induction n arbitrary: s)
    case (Suc n)
    then have "4 \<le> length s" by simp
    then obtain a b c d t where "s = a # b # c # d # t" by (rule length_ge_4E)
    with Suc show ?case by simp
  qed simp
  from this [of _ 4] show "length s = 16 \<Longrightarrow> length (MixColumns s) = 16" by simp
qed

lemma length_rounds:
  assumes "\<forall>rk\<in>set rks. length rk = 16" "length s = 16"
  shows "length (rounds rks s) = 16"
  using assms by (induction rks s rule: rounds.induct) (simp_all add: length_MixColumns)

lemma length_chunks4: "length s = 4 * n \<Longrightarrow> length (chunks4 s) = n \<and> (\<forall>w\<in>set (chunks4 s). length w = 4)"
proof (induction n arbitrary: s)
  case (Suc n)
  then have "4 \<le> length s" by simp
  then obtain a b c d t where "s = a # b # c # d # t" by (rule length_ge_4E)
  with Suc show ?case by simp
qed simp

lemma length_expand_word: "length w = 4 \<Longrightarrow> length (expand_word nk i w) = 4"
proof -
  assume "length w = 4"
  moreover from this obtain t ts where "map SubByte (rotate1 w) = t # ts" "length ts = 3"
    by (cases "map SubByte (rotate1 w)") (auto dest: arg_cong [of _ _ length])
  ultimately show ?thesis by (simp add: expand_word_def)
qed

lemma expand_loop_words:
  assumes "0 < nk" "nk \<le> length ws" "\<forall>w\<in>set ws. length w = 4"
  shows "length (expand_loop nk n ws) = length ws + n \<and> (\<forall>w\<in>set (expand_loop nk n ws). length w = 4)"
  using assms
proof (induction n arbitrary: ws)
  case (Suc n)
  let ?w = "xor_bytes (ws ! (length ws - nk)) (expand_word nk (length ws) (last ws))"
  have "last ws \<in> set ws" "ws ! (length ws - nk) \<in> set ws"
    using Suc.prems by (auto intro!: nth_mem last_in_set)
  then have w: "length ?w = 4" using Suc.prems by (simp add: length_expand_word)
  have all: "\<forall>w\<in>set (ws @ [?w]). length w = 4" using w Suc.prems(3) by simp
  have le: "nk \<le> length (ws @ [?w])" using Suc.prems(2) by simp
  show ?case using Suc.IH [OF Suc.prems(1) le all] by (simp add: Let_def)
qed simp

lemma length_join4:
  "\<forall>w\<in>set ws. length w = 4 \<Longrightarrow> rk \<in> set (join4 ws) \<Longrightarrow> length rk = 16"
  by (induction ws rule: join4.induct) auto

lemma round_keys_blocks:
  assumes "length key = 4 * nk" "0 < nk" "rk \<in> set (round_keys key)"
  shows "length rk = 16"
  using assms length_chunks4 [OF assms(1)] expand_loop_words [of nk "chunks4 key"]
  by (auto simp: round_keys_def Let_def intro: length_join4)

lemma length_cipher:
  assumes "\<forall>rk\<in>set rks. length rk = 16" "length s = 16"
  shows "length (cipher rks s) = 16"
  using assms by (cases rks) (simp_all add: cipher_def length_rounds)

lemma aes_NewCipher_Inr:
  assumes "aes_NewCipher k = Inr E"
  obtains nk where "0 < nk" "length k = 4 * nk" "E = aes_Encrypt (round_keys k)"
proof -
  from assms have "E = aes_Encrypt (round_keys k)" and "length k = 16 \<or> length k = 24 \<or> length k = 32"
    by (auto simp: aes_NewCipher_def split: if_splits)
  moreover from this have "length k = 4 * (length k div 4)" "0 < length k div 4" by auto
  ultimately show thesis using that by blast
qed

interpretation aes: block_cipher aes_NewCipher
proof
  show "\<exists>E. aes_NewCipher k = Inr E" if "length k = 16" for k
    using that by (simp add: aes_NewCipher_def)
  show "\<exists>dst. E src = Returns dst \<and> length dst = 16"
    if "aes_NewCipher k = Inr E" "length src = 16" for k E src
    using that(1)
    by (rule aes_NewCipher_Inr) (use that(2) in \<open>auto simp: aes_Encrypt_def intro!: length_cipher round_keys_blocks\<close>)
qed

end
