(* ===== verification/Milenage.thy ===== *)
theory Milenage
  imports Aes GoStrings
begin

text \<open>
  The authentication and key generation functions of \<^verbatim>\<open>src/lib/util/milenage/milenage.go\<close>. The
  unexported functions are modelled with the index and slice panics of the code (a slice's capacity is taken
  to be its length); the exported ones check every length first. A function that returns
  \<^verbatim>\<open>(\<dots>, error)\<close> has a sum type inside \<open>exec\<close>.

  The reference is TS 35.206: \<open>TEMP\<close>, \<open>OUT1\<close> and \<open>OUT\<close> below are its clause 4.1 over an arbitrary
  block function \<open>E\<close>, and the lemmas of the context \<open>block_cipher\<close> hold for any cipher that keeps
  that contract.
\<close>

section \<open>Parameters\<close>

definition K_LEN :: nat where "K_LEN = 16"
definition OP_LEN :: nat where "OP_LEN = 16"
definition OPC_LEN :: nat where "OPC_LEN = 16"
definition SQN_LEN :: nat where "SQN_LEN = 6"
definition RAND_LEN :: nat where "RAND_LEN = 16"
definition AMF_LEN :: nat where "AMF_LEN = 2"
definition MAC_LEN :: nat where "MAC_LEN = 8"
definition RES_LEN :: nat where "RES_LEN = 8"
definition AK_LEN :: nat where "AK_LEN = 6"
definition AUTN_LEN :: nat where "AUTN_LEN = 16"
definition AUTS_LEN :: nat where "AUTS_LEN = 14"
definition CIPHER_BLOCK_LEN :: nat where "CIPHER_BLOCK_LEN = 16"

lemmas len_defs = K_LEN_def OP_LEN_def OPC_LEN_def SQN_LEN_def RAND_LEN_def AMF_LEN_def MAC_LEN_def
  RES_LEN_def AK_LEN_def AUTN_LEN_def AUTS_LEN_def CIPHER_BLOCK_LEN_def

definition r1 :: nat where "r1 = 8"
definition r3 :: nat where "r3 = 4"
definition r4 :: nat where "r4 = 8"
definition r5 :: nat where "r5 = 12"

lemmas r_defs = r1_def r3_def r4_def r5_def

datatype milenage_error =
    CipherError cipher_error
  | ParameterLengthError (Name: string) (Exact: nat) (Expected: nat)
  | MACFailureError (MACName: string) (ExpectedMAC: "byte list") (ExactMAC: "byte list")
  | HexError string string hex_error
  | Wrap string milenage_error

type_synonym 'a outcome = "(milenage_error + 'a) exec"

definition ParameterLengthError_Error :: "milenage_error \<Rightarrow> string" where
  "ParameterLengthError_Error e =
     ''parameter['' @ Name e @ ''] length should be '' @ Itoa (Expected e) @ '' byte(s), not '' @
     Itoa (Exact e) @ '' byte(s)''"

definition MACFailureError_Error :: "milenage_error \<Rightarrow> string" where
  "MACFailureError_Error m =
     ''X'' @ MACName m @ ''['' @ hex_EncodeToString (ExpectedMAC m) @ ''] not match '' @ MACName m @ ''['' @
     hex_EncodeToString (ExactMAC m) @ '']''"

text \<open>The error of a wrong length, or none.\<close>

definition validateArg :: "byte list \<Rightarrow> string \<Rightarrow> nat \<Rightarrow> milenage_error option" where
  "validateArg arg argName expectedLen =
     (if length arg \<noteq> expectedLen then Some (ParameterLengthError argName (length arg) expectedLen) else None)"

definition validateHexArg :: "string \<Rightarrow> string \<Rightarrow> nat \<Rightarrow> milenage_error + byte list" where
  "validateHexArg hexArg argName expectedLen =
     (case hex_DecodeString hexArg of
        Inl e \<Rightarrow> Inl (HexError argName hexArg e)
      | Inr arg \<Rightarrow>
          if length arg \<noteq> expectedLen then Inl (ParameterLengthError argName (length arg) expectedLen)
          else Inr arg)"

text \<open>The loops over one block: an exclusive or of two slices, and one that also rotates.\<close>

definition xor_block :: "byte list \<Rightarrow> byte list \<Rightarrow> byte list exec" where
  "xor_block a b =
     (if length a < CIPHER_BLOCK_LEN \<or> length b < CIPHER_BLOCK_LEN then Panics IndexOutOfRange
      else Returns (map (\<lambda>i. a ! i XOR b ! i) [0..<CIPHER_BLOCK_LEN]))"

definition rot_xor :: "nat \<Rightarrow> byte list \<Rightarrow> byte list \<Rightarrow> byte list \<Rightarrow> byte list" where
  "rot_xor r a opc tmp =
     foldl (\<lambda>t i. t[(i + (CIPHER_BLOCK_LEN - r)) mod CIPHER_BLOCK_LEN := a ! i XOR opc ! i])
       tmp [0..<CIPHER_BLOCK_LEN]"

definition xor_at :: "nat \<Rightarrow> byte \<Rightarrow> byte list \<Rightarrow> byte list" where
  "xor_at i c t = t[i := t ! i XOR c]"

definition slice_to :: "nat \<Rightarrow> byte list \<Rightarrow> byte list exec" where
  "slice_to n s = (if length s < n then Panics SliceBoundsOutOfRange else Returns (take n s))"

definition xor :: "byte list \<Rightarrow> byte list \<Rightarrow> byte list" where
  "xor a b =
     (let outLen = (if length b < length a then length b else length a)
      in map (\<lambda>i. a ! i XOR b ! i) [0..<outLen])"

section \<open>The kernel functions\<close>

definition f1 :: "byte list \<Rightarrow> byte list \<Rightarrow> byte list \<Rightarrow> byte list \<Rightarrow> byte list \<Rightarrow>
    (byte list \<times> byte list) outcome" where
  "f1 opc k rand sqn amf =
     exec_bind (xor_block rand opc) (\<lambda>rijndaelInput.
     case aes_NewCipher k of
       Inl e \<Rightarrow> Returns (Inl (CipherError e))
     | Inr block \<Rightarrow>
         exec_bind (block rijndaelInput) (\<lambda>tmp1.
         exec_bind (slice_to 6 sqn) (\<lambda>s.
         exec_bind (slice_to 2 amf) (\<lambda>a.
         let tmp2 = s @ a @ replicate 8 0;
             tmp2 = take 8 tmp2 @ take 8 tmp2;
             tmp3 = rot_xor r1 tmp2 opc (replicate CIPHER_BLOCK_LEN 0);
             tmp3 = xor_bytes tmp3 tmp1
         in exec_bind (block tmp3) (\<lambda>tmp1.
            let tmp1 = xor_bytes tmp1 opc
            in Returns (Inr (take 8 tmp1, take 8 (drop 8 tmp1))))))))"

definition f2345 :: "byte list \<Rightarrow> byte list \<Rightarrow> byte list \<Rightarrow>
    (byte list \<times> byte list \<times> byte list \<times> byte list \<times> byte list) outcome" where
  "f2345 opc k rand =
     exec_bind (xor_block rand opc) (\<lambda>tmp1.
     case aes_NewCipher k of
       Inl e \<Rightarrow> Returns (Inl (CipherError e))
     | Inr block \<Rightarrow>
         exec_bind (block tmp1) (\<lambda>tmp2.
         let tmp1 = xor_at 15 1 (xor_bytes tmp2 opc)
         in exec_bind (block tmp1) (\<lambda>tmp3.
         let tmp3 = xor_bytes tmp3 opc;
             res = take 8 (drop 8 tmp3);
             ak = take 6 tmp3;
             tmp1 = xor_at 15 2 (rot_xor r3 tmp2 opc tmp1)
         in exec_bind (block tmp1) (\<lambda>ck.
         let ck = xor_bytes ck opc;
             tmp1 = xor_at 15 4 (rot_xor r4 tmp2 opc tmp1)
         in exec_bind (block tmp1) (\<lambda>ik.
         let ik = xor_bytes ik opc;
             tmp1 = xor_at 15 8 (rot_xor r5 tmp2 opc tmp1)
         in exec_bind (block tmp1) (\<lambda>tmp1.
         let akstar = take AK_LEN (xor_bytes tmp1 opc)
         in Returns (Inr (res, ck, ik, ak, akstar))))))))"

definition F2345 :: "byte list \<Rightarrow> byte list \<Rightarrow> byte list \<Rightarrow>
    (byte list \<times> byte list \<times> byte list \<times> byte list \<times> byte list) outcome" where
  "F2345 opc k rand =
     (case validateArg opc ''OPc'' OPC_LEN of Some e \<Rightarrow> Returns (Inl e) | None \<Rightarrow>
     (case validateArg k ''K'' K_LEN of Some e \<Rightarrow> Returns (Inl e) | None \<Rightarrow>
     (case validateArg rand ''RAND'' RAND_LEN of Some e \<Rightarrow> Returns (Inl e) | None \<Rightarrow>
      f2345 opc k rand)))"

definition generateOPc :: "byte list \<Rightarrow> byte list \<Rightarrow> byte list outcome" where
  "generateOPc k op =
     (case aes_NewCipher k of
        Inl e \<Rightarrow> Returns (Inl (CipherError e))
      | Inr block \<Rightarrow> exec_bind (block op) (\<lambda>opc. Returns (Inr (xor_bytes opc op))))"

definition GenerateOPc :: "byte list \<Rightarrow> byte list \<Rightarrow> byte list outcome" where
  "GenerateOPc k op =
     (case validateArg k ''K'' K_LEN of Some e \<Rightarrow> Returns (Inl e) | None \<Rightarrow>
     (case validateArg op ''OP'' OP_LEN of Some e \<Rightarrow> Returns (Inl e) | None \<Rightarrow>
      generateOPc k op))"

definition GenerateOPcFromHex :: "string \<Rightarrow> string \<Rightarrow> string outcome" where
  "GenerateOPcFromHex k op =
     (case validateHexArg k ''K'' K_LEN of Inl e \<Rightarrow> Returns (Inl e) | Inr K \<Rightarrow>
     (case validateHexArg op ''OP'' OP_LEN of Inl e \<Rightarrow> Returns (Inl e) | Inr OP \<Rightarrow>
      exec_bind (generateOPc K OP) (\<lambda>r.
      case r of Inl e \<Rightarrow> Returns (Inl e) | Inr OPc \<Rightarrow> Returns (Inr (hex_EncodeToString OPc)))))"

section \<open>Tokens\<close>

definition CutAUTS :: "byte list \<Rightarrow> byte list \<times> byte list" where
  "CutAUTS auts =
     (if length auts \<noteq> AUTS_LEN then ([], [])
      else (take SQN_LEN auts, take MAC_LEN (drop SQN_LEN auts)))"

definition CutAUTN :: "byte list \<Rightarrow> byte list \<times> byte list \<times> byte list" where
  "CutAUTN autn =
     (if length autn \<noteq> AUTN_LEN then ([], [], [])
      else (take SQN_LEN autn, take AMF_LEN (drop SQN_LEN autn), take MAC_LEN (drop (SQN_LEN + AMF_LEN) autn)))"

text \<open>The results are \<^verbatim>\<open>ik, ck, xres, autn\<close>.\<close>

definition generateAKAParameters :: "byte list \<Rightarrow> byte list \<Rightarrow> byte list \<Rightarrow> byte list \<Rightarrow> byte list \<Rightarrow>
    (byte list \<times> byte list \<times> byte list \<times> byte list) outcome" where
  "generateAKAParameters opc k rand sqn amf =
     exec_bind (f1 opc k rand sqn amf) (\<lambda>r.
     case r of Inl err \<Rightarrow> Returns (Inl (Wrap ''calculate F1 failed'' err)) | Inr (mac, _) \<Rightarrow>
     exec_bind (f2345 opc k rand) (\<lambda>r.
     case r of Inl err \<Rightarrow> Returns (Inl (Wrap ''calculate F2345 failed'' err)) | Inr (xres, ck, ik, ak, _) \<Rightarrow>
       let consSQNhe = xor sqn ak in Returns (Inr (ik, ck, xres, consSQNhe @ amf @ mac))))"

definition GenerateAKAParameters :: "byte list \<Rightarrow> byte list \<Rightarrow> byte list \<Rightarrow> byte list \<Rightarrow> byte list \<Rightarrow>
    (byte list \<times> byte list \<times> byte list \<times> byte list) outcome" where
  "GenerateAKAParameters opc k rand sqn amf =
     (case validateArg opc ''OPc'' OPC_LEN of Some e \<Rightarrow> Returns (Inl e) | None \<Rightarrow>
     (case validateArg k ''K'' K_LEN of Some e \<Rightarrow> Returns (Inl e) | None \<Rightarrow>
     (case validateArg rand ''RAND'' RAND_LEN of Some e \<Rightarrow> Returns (Inl e) | None \<Rightarrow>
     (case validateArg sqn ''SQN'' SQN_LEN of Some e \<Rightarrow> Returns (Inl e) | None \<Rightarrow>
     (case validateArg amf ''AMF'' AMF_LEN of Some e \<Rightarrow> Returns (Inl e) | None \<Rightarrow>
      generateAKAParameters opc k rand sqn amf)))))"

text \<open>The results are \<^verbatim>\<open>sqnhe, ak, ik, ck, res\<close>.\<close>

definition generateKeysWithAUTN :: "byte list \<Rightarrow> byte list \<Rightarrow> byte list \<Rightarrow> byte list \<Rightarrow>
    (byte list \<times> byte list \<times> byte list \<times> byte list \<times> byte list) outcome" where
  "generateKeysWithAUTN opc k rand autn =
     exec_bind (f2345 opc k rand) (\<lambda>r.
     case r of Inl err \<Rightarrow> Returns (Inl (Wrap ''calculate F2345 failed'' err)) | Inr (res, ck, ik, ak, _) \<Rightarrow>
       (case CutAUTN autn of (concSQNhe, amf, xmac) \<Rightarrow>
         let sqnhe = xor concSQNhe ak
         in exec_bind (f1 opc k rand sqnhe amf) (\<lambda>r.
            case r of Inl err \<Rightarrow> Returns (Inl (Wrap ''calculate F1 failed'' err)) | Inr (mac, _) \<Rightarrow>
              if xmac \<noteq> mac then Returns (Inl (MACFailureError ''MAC-A'' xmac mac))
              else Returns (Inr (sqnhe, ak, ik, ck, res)))))"

definition GenerateKeysWithAUTN :: "byte list \<Rightarrow> byte list \<Rightarrow> byte list \<Rightarrow> byte list \<Rightarrow>
    (byte list \<times> byte list \<times> byte list \<times> byte list \<times> byte list) outcome" where
  "GenerateKeysWithAUTN opc k rand autn =
     (case validateArg opc ''OPc'' OPC_LEN of Some e \<Rightarrow> Returns (Inl e) | None \<Rightarrow>
     (case validateArg k ''K'' K_LEN of Some e \<Rightarrow> Returns (Inl e) | None \<Rightarrow>
     (case validateArg rand ''RAND'' RAND_LEN of Some e \<Rightarrow> Returns (Inl e) | None \<Rightarrow>
     (case validateArg autn ''AUTN'' AUTN_LEN of Some e \<Rightarrow> Returns (Inl e) | None \<Rightarrow>
      generateKeysWithAUTN opc k rand autn))))"

definition resynchAMF :: "byte list" where
  "resynchAMF = [0x00, 0x00]"

definition validateAUTS :: "byte list \<Rightarrow> byte list \<Rightarrow> byte list \<Rightarrow> byte list \<Rightarrow> (byte list \<times> byte list) outcome" where
  "validateAUTS opc k rand auts =
     (case CutAUTS auts of (ConcSQNms, MACS) \<Rightarrow>
      exec_bind (f2345 opc k rand) (\<lambda>r.
      case r of Inl err \<Rightarrow> Returns (Inl (Wrap ''calculate F2345 Fail'' err)) | Inr (_, _, _, _, AKstar) \<Rightarrow>
        let SQNms = xor ConcSQNms AKstar
        in exec_bind (f1 opc k rand SQNms resynchAMF) (\<lambda>r.
           case r of Inl err \<Rightarrow> Returns (Inl (Wrap ''calculate F1 Fail'' err)) | Inr (_, XMACS) \<Rightarrow>
             if XMACS \<noteq> MACS then Returns (Inl (MACFailureError ''MAC-S'' XMACS MACS))
             else Returns (Inr (SQNms, AKstar)))))"

definition ValidateAUTS :: "byte list \<Rightarrow> byte list \<Rightarrow> byte list \<Rightarrow> byte list \<Rightarrow> (byte list \<times> byte list) outcome" where
  "ValidateAUTS opc k rand auts =
     (case validateArg opc ''OPc'' OPC_LEN of Some e \<Rightarrow> Returns (Inl e) | None \<Rightarrow>
     (case validateArg k ''K'' K_LEN of Some e \<Rightarrow> Returns (Inl e) | None \<Rightarrow>
     (case validateArg rand ''RAND'' RAND_LEN of Some e \<Rightarrow> Returns (Inl e) | None \<Rightarrow>
     (case validateArg auts ''AUTS'' AUTS_LEN of Some e \<Rightarrow> Returns (Inl e) | None \<Rightarrow>
      validateAUTS opc k rand auts))))"

definition generateAUTS :: "byte list \<Rightarrow> byte list \<Rightarrow> byte list \<Rightarrow> byte list \<Rightarrow> byte list outcome" where
  "generateAUTS opc k rand sqnms =
     exec_bind (f2345 opc k rand) (\<lambda>r.
     case r of Inl err \<Rightarrow> Returns (Inl (Wrap ''calculate f2345 Fail'' err)) | Inr (_, _, _, _, AKstar) \<Rightarrow>
       let ConcSQNms = xor sqnms AKstar
       in exec_bind (f1 opc k rand sqnms resynchAMF) (\<lambda>r.
          case r of Inl err \<Rightarrow> Returns (Inl (Wrap ''calculate F1 Fail'' err)) | Inr (_, MACS) \<Rightarrow>
            Returns (Inr (ConcSQNms @ MACS))))"

definition GenerateAUTS :: "byte list \<Rightarrow> byte list \<Rightarrow> byte list \<Rightarrow> byte list \<Rightarrow> byte list outcome" where
  "GenerateAUTS opc k rand sqnms =
     (case validateArg opc ''OPc'' OPC_LEN of Some e \<Rightarrow> Returns (Inl e) | None \<Rightarrow>
     (case validateArg k ''K'' K_LEN of Some e \<Rightarrow> Returns (Inl e) | None \<Rightarrow>
     (case validateArg rand ''RAND'' RAND_LEN of Some e \<Rightarrow> Returns (Inl e) | None \<Rightarrow>
     (case validateArg sqnms ''SQNms'' SQN_LEN of Some e \<Rightarrow> Returns (Inl e) | None \<Rightarrow>
      generateAUTS opc k rand sqnms))))"

section \<open>Reference\<close>

text \<open>
  TS 35.206, clause 4.1, with the rotation amounts in bits and the constants as the specification gives them;
  a block has its most significant octet first.
\<close>

definition rot :: "byte list \<Rightarrow> nat \<Rightarrow> byte list" where
  "rot x r = rotate (r div 8) x"

definition c_const :: "byte \<Rightarrow> byte list" where
  "c_const c = replicate 15 0 @ [c]"

definition TEMP :: "(byte list \<Rightarrow> byte list) \<Rightarrow> byte list \<Rightarrow> byte list \<Rightarrow> byte list" where
  "TEMP E opc rand = E (xor_bytes rand opc)"

definition OUT1 :: "(byte list \<Rightarrow> byte list) \<Rightarrow> byte list \<Rightarrow> byte list \<Rightarrow> byte list \<Rightarrow> byte list \<Rightarrow> byte list" where
  "OUT1 E opc rand sqn amf =
     (let IN1 = sqn @ amf @ sqn @ amf
      in xor_bytes (E (xor_bytes (xor_bytes (TEMP E opc rand) (rot (xor_bytes IN1 opc) 64)) (c_const 0))) opc)"

definition OUT :: "(byte list \<Rightarrow> byte list) \<Rightarrow> byte list \<Rightarrow> byte list \<Rightarrow> nat \<Rightarrow> byte \<Rightarrow> byte list" where
  "OUT E opc rand r c = xor_bytes (E (xor_bytes (rot (xor_bytes (TEMP E opc rand) opc) r) (c_const c))) opc"

definition spec_f1 :: "(byte list \<Rightarrow> byte list) \<Rightarrow> byte list \<Rightarrow> byte list \<Rightarrow> byte list \<Rightarrow> byte list \<Rightarrow> byte list" where
  "spec_f1 E opc rand sqn amf = take 8 (OUT1 E opc rand sqn amf)"

definition spec_f1star :: "(byte list \<Rightarrow> byte list) \<Rightarrow> byte list \<Rightarrow> byte list \<Rightarrow> byte list \<Rightarrow> byte list \<Rightarrow> byte list" where
  "spec_f1star E opc rand sqn amf = drop 8 (OUT1 E opc rand sqn amf)"

definition spec_f2 :: "(byte list \<Rightarrow> byte list) \<Rightarrow> byte list \<Rightarrow> byte list \<Rightarrow> byte list" where
  "spec_f2 E opc rand = drop 8 (OUT E opc rand 0 1)"

definition spec_f3 :: "(byte list \<Rightarrow> byte list) \<Rightarrow> byte list \<Rightarrow> byte list \<Rightarrow> byte list" where
  "spec_f3 E opc rand = OUT E opc rand 32 2"

definition spec_f4 :: "(byte list \<Rightarrow> byte list) \<Rightarrow> byte list \<Rightarrow> byte list \<Rightarrow> byte list" where
  "spec_f4 E opc rand = OUT E opc rand 64 4"

definition spec_f5 :: "(byte list \<Rightarrow> byte list) \<Rightarrow> byte list \<Rightarrow> byte list \<Rightarrow> byte list" where
  "spec_f5 E opc rand = take 6 (OUT E opc rand 0 1)"

definition spec_f5star :: "(byte list \<Rightarrow> byte list) \<Rightarrow> byte list \<Rightarrow> byte list \<Rightarrow> byte list" where
  "spec_f5star E opc rand = take 6 (OUT E opc rand 96 8)"

lemmas spec_defs = spec_f1_def spec_f1star_def spec_f2_def spec_f3_def spec_f4_def spec_f5_def spec_f5star_def

section \<open>The loops\<close>

lemma nth_xor_bytes [simp]:
  "i < length a \<Longrightarrow> i < length b \<Longrightarrow> xor_bytes a b ! i = a ! i XOR b ! i"
  by (simp add: xor_bytes_def)

lemma xor_eq: "xor a b = xor_bytes a b"
  by (rule nth_equalityI) (auto simp: xor_def Let_def split: if_splits)

lemma xor_bytes_involution: "length a = length b \<Longrightarrow> xor_bytes (xor_bytes a b) b = a"
  by (rule nth_equalityI) (simp_all add: xor.assoc)

lemma xor_block_eq: "length a = 16 \<Longrightarrow> length b = 16 \<Longrightarrow> xor_block a b = Returns (xor_bytes a b)"
  by (auto simp: xor_block_def len_defs intro!: nth_equalityI)

lemma foldl_update_nth:
  assumes "inj_on p {..<n}" "\<forall>i<n. p i < length t" "j < n"
  shows "foldl (\<lambda>t i. t[p i := v i]) t [0..<n] ! p j = v j"
  using assms
proof (induction n)
  case (Suc n)
  have len: "length (foldl (\<lambda>t i. t[p i := v i]) t [0..<n]) = length t" for n
    by (induction n) auto
  have inj: "inj_on p {..<n}" using Suc.prems(1) by (auto intro: inj_on_subset)
  show ?case
  proof (cases "j = n")
    case False
    then have "p n \<noteq> p j" using Suc.prems by (auto simp: inj_on_def)
    then show ?thesis using Suc.IH inj Suc.prems False by simp
  qed (use Suc.prems in \<open>simp add: len\<close>)
qed simp

text \<open>The rotating loop writes every octet of its buffer, whatever the buffer held.\<close>

lemma rot_xor_eq:
  assumes "length a = 16" "length opc = 16" "length tmp = 16" "r \<le> 16"
  shows "rot_xor r a opc tmp = rotate r (xor_bytes a opc)"
proof (rule nth_equalityI)
  let ?p = "\<lambda>i. (i + (16 - r)) mod 16"
  have len: "length (foldl (\<lambda>t i. t[f i := g i]) t is) = length t"
    for f :: "nat \<Rightarrow> nat" and g :: "nat \<Rightarrow> byte" and t "is"
    by (induction "is" arbitrary: t) auto
  then show "length (rot_xor r a opc tmp) = length (rotate r (xor_bytes a opc))"
    by (simp add: rot_xor_def assms)
  fix m assume "m < length (rot_xor r a opc tmp)"
  then have m: "m < 16" using assms len by (simp add: rot_xor_def)
  have inj: "inj_on ?p {..<16}"
  proof (rule inj_onI)
    fix i j :: nat
    assume ij: "i \<in> {..<16}" "j \<in> {..<16}" and "?p i = ?p j"
    then have "(i + (16 - r) + r) mod 16 = (j + (16 - r) + r) mod 16"
      by (metis mod_add_left_eq)
    with ij assms(4) show "i = j" by simp
  qed
  let ?j = "(r + m) mod 16"
  have "?p ?j = (m + 16) mod 16" using assms(4) by (metis add.commute add.assoc le_add_diff_inverse mod_add_left_eq)
  then have "?p ?j = m" using m by simp
  moreover have "foldl (\<lambda>t i. t[?p i := a ! i XOR opc ! i]) tmp [0..<16] ! ?p ?j = a ! ?j XOR opc ! ?j"
    by (rule foldl_update_nth [OF inj]) (use assms in auto)
  ultimately show "rot_xor r a opc tmp ! m = rotate r (xor_bytes a opc) ! m"
    using m assms by (simp add: rot_xor_def len_defs nth_rotate)
qed

lemma xor_at_eq:
  assumes "length t = 16" shows "xor_at 15 c t = xor_bytes t (c_const c)"
proof (rule nth_equalityI)
  fix i assume "i < length (xor_at 15 c t)"
  then have "i < 15 \<or> i = 15" using assms by (auto simp: xor_at_def)
  then show "xor_at 15 c t ! i = xor_bytes t (c_const c) ! i"
    using assms by (auto simp: xor_at_def c_const_def nth_append)
qed (simp add: xor_at_def c_const_def assms)

lemma xor_zero_block: "length t = 16 \<Longrightarrow> xor_bytes t (c_const 0) = t"
  using xor_at_eq [of t 0] by (simp add: xor_at_def)

lemma xor_bytes_commute: "xor_bytes a b = xor_bytes b a"
  by (rule nth_equalityI) (auto simp: ac_simps)

lemma length_c_const [simp]: "length (c_const c) = 16"
  by (simp add: c_const_def)

lemma length_rot [simp]: "length (rot x r) = length x"
  by (simp add: rot_def)

section \<open>Any block cipher\<close>

context block_cipher
begin

lemma length_enc [simp]:
  assumes "length k = 16" "length src = 16"
  shows "length (enc k src) = 16"
  using key_ok [OF assms(1)] enc_eq(2) assms(2) by blast

lemma length_TEMP [simp]:
  "length k = 16 \<Longrightarrow> length opc = 16 \<Longrightarrow> length rand = 16 \<Longrightarrow> length (TEMP (enc k) opc rand) = 16"
  by (simp add: TEMP_def)

lemma length_OUT1 [simp]:
  assumes "length k = 16" "length opc = 16" "length rand = 16" "length sqn = 6" "length amf = 2"
  shows "length (OUT1 (enc k) opc rand sqn amf) = 16"
  using assms by (simp add: OUT1_def Let_def)

lemma length_OUT [simp]:
  "length k = 16 \<Longrightarrow> length opc = 16 \<Longrightarrow> length rand = 16 \<Longrightarrow> length (OUT (enc k) opc rand r c) = 16"
  by (simp add: OUT_def)

lemma length_specs [simp]:
  assumes "length k = 16" "length opc = 16" "length rand = 16"
  shows "length (spec_f5 (enc k) opc rand) = 6" "length (spec_f5star (enc k) opc rand) = 6"
    "length sqn = 6 \<Longrightarrow> length amf = 2 \<Longrightarrow> length (spec_f1 (enc k) opc rand sqn amf) = 8"
    "length sqn = 6 \<Longrightarrow> length amf = 2 \<Longrightarrow> length (spec_f1star (enc k) opc rand sqn amf) = 8"
  using assms by (simp_all add: spec_defs)

end

section \<open>The code computes the reference\<close>

lemma aes_block:
  assumes "length k = 16"
  obtains block where "aes_NewCipher k = Inr block" "\<And>src. length src = 16 \<Longrightarrow> block src = Returns (aes.enc k src)"
  using aes.key_ok [OF assms] aes.enc_eq(1) by blast

lemma f1_eq:
  assumes "length opc = 16" "length k = 16" "length rand = 16" "length sqn = 6" "length amf = 2"
  shows "f1 opc k rand sqn amf =
    Returns (Inr (spec_f1 (aes.enc k) opc rand sqn amf, spec_f1star (aes.enc k) opc rand sqn amf))"
proof -
  obtain block where b: "aes_NewCipher k = Inr block"
    "\<And>src. length src = 16 \<Longrightarrow> block src = Returns (aes.enc k src)"
    using aes_block [OF assms(2)] by blast
  let ?x = "xor_bytes (rotate 8 (xor_bytes (sqn @ amf @ sqn @ amf) opc)) (TEMP (aes.enc k) opc rand)"
  have in1: "OUT1 (aes.enc k) opc rand sqn amf = xor_bytes (aes.enc k ?x) opc"
    using assms by (simp add: OUT1_def Let_def xor_zero_block rot_def xor_bytes_commute [of "TEMP _ _ _"])
  have "length (xor_bytes (aes.enc k ?x) opc) = 16" using assms by simp
  then show ?thesis
    using assms b(1)
    by (simp add: f1_def xor_block_eq b(2) slice_to_def Let_def r1_def rot_xor_eq len_defs TEMP_def spec_defs in1)
qed

lemma f2345_eq:
  assumes "length opc = 16" "length k = 16" "length rand = 16"
  shows "f2345 opc k rand =
    Returns (Inr (spec_f2 (aes.enc k) opc rand, spec_f3 (aes.enc k) opc rand, spec_f4 (aes.enc k) opc rand,
      spec_f5 (aes.enc k) opc rand, spec_f5star (aes.enc k) opc rand))"
proof -
  obtain block where b: "aes_NewCipher k = Inr block"
    "\<And>src. length src = 16 \<Longrightarrow> block src = Returns (aes.enc k src)"
    using aes_block [OF assms(2)] by blast
  show ?thesis
    using assms b(1)
    by (simp add: f2345_def xor_block_eq b(2) Let_def r_defs rot_xor_eq xor_at_eq len_defs TEMP_def spec_defs
        OUT_def rot_def)
qed

lemma validateArg_simps [simp]:
  "length arg = n \<Longrightarrow> validateArg arg name n = None"
  "length arg \<noteq> n \<Longrightarrow> validateArg arg name n = Some (ParameterLengthError name (length arg) n)"
  by (simp_all add: validateArg_def)

lemma F2345_eq:
  assumes "length opc = 16" "length k = 16" "length rand = 16"
  shows "F2345 opc k rand = f2345 opc k rand"
  using assms by (simp add: F2345_def len_defs)

text \<open>The token the network sends, and the token the terminal answers with.\<close>

definition spec_AUTN :: "byte list \<Rightarrow> byte list \<Rightarrow> byte list \<Rightarrow> byte list \<Rightarrow> byte list \<Rightarrow> byte list" where
  "spec_AUTN opc k rand sqn amf =
     xor_bytes sqn (spec_f5 (aes.enc k) opc rand) @ amf @ spec_f1 (aes.enc k) opc rand sqn amf"

definition spec_AUTS :: "byte list \<Rightarrow> byte list \<Rightarrow> byte list \<Rightarrow> byte list \<Rightarrow> byte list" where
  "spec_AUTS opc k rand sqn =
     xor_bytes sqn (spec_f5star (aes.enc k) opc rand) @ spec_f1star (aes.enc k) opc rand sqn resynchAMF"

lemma GenerateAKAParameters_eq:
  assumes "length opc = 16" "length k = 16" "length rand = 16" "length sqn = 6" "length amf = 2"
  shows "GenerateAKAParameters opc k rand sqn amf =
    Returns (Inr (spec_f4 (aes.enc k) opc rand, spec_f3 (aes.enc k) opc rand, spec_f2 (aes.enc k) opc rand,
      spec_AUTN opc k rand sqn amf))"
  using assms
  by (simp add: GenerateAKAParameters_def len_defs generateAKAParameters_def f1_eq f2345_eq Let_def xor_eq spec_AUTN_def)

lemma GenerateAUTS_eq:
  assumes "length opc = 16" "length k = 16" "length rand = 16" "length sqn = 6"
  shows "GenerateAUTS opc k rand sqn = Returns (Inr (spec_AUTS opc k rand sqn))"
  using assms
  by (simp add: GenerateAUTS_def len_defs generateAUTS_def f1_eq f2345_eq Let_def xor_eq spec_AUTS_def resynchAMF_def)

lemma split_AUTN:
  assumes "length autn = 16"
  shows "autn = take 6 autn @ take 2 (drop 6 autn) @ take 8 (drop 8 autn)"
  using assms take_add_drop [of 6 2 autn] append_take_drop_id [of 8 autn] by simp

lemma GenerateKeysWithAUTN_eq:
  assumes "length opc = 16" "length k = 16" "length rand = 16" "length autn = 16"
  shows "GenerateKeysWithAUTN opc k rand autn =
    (let ak = spec_f5 (aes.enc k) opc rand;
         sqn = xor_bytes (take 6 autn) ak;
         xmac = take 8 (drop 8 autn);
         mac = spec_f1 (aes.enc k) opc rand sqn (take 2 (drop 6 autn))
     in Returns (if xmac = mac
                 then Inr (sqn, ak, spec_f4 (aes.enc k) opc rand, spec_f3 (aes.enc k) opc rand, spec_f2 (aes.enc k) opc rand)
                 else Inl (MACFailureError ''MAC-A'' xmac mac)))"
  using assms
  by (simp add: GenerateKeysWithAUTN_def len_defs generateKeysWithAUTN_def CutAUTN_def f1_eq f2345_eq Let_def xor_eq)

lemma ValidateAUTS_eq:
  assumes "length opc = 16" "length k = 16" "length rand = 16" "length auts = 14"
  shows "ValidateAUTS opc k rand auts =
    (let ak = spec_f5star (aes.enc k) opc rand;
         sqn = xor_bytes (take 6 auts) ak;
         macs = take 8 (drop 6 auts);
         xmacs = spec_f1star (aes.enc k) opc rand sqn resynchAMF
     in Returns (if xmacs = macs then Inr (sqn, ak) else Inl (MACFailureError ''MAC-S'' xmacs macs)))"
  using assms
  by (simp add: ValidateAUTS_def len_defs validateAUTS_def CutAUTS_def f1_eq f2345_eq Let_def xor_eq resynchAMF_def)

text \<open>A token passes the check exactly when it is the one generated for the sequence number it carries.\<close>

lemma AUTN_check_iff:
  assumes "length opc = 16" "length k = 16" "length rand = 16" "length autn = 16" "length sqn = 6"
  shows "(sqn = xor_bytes (take 6 autn) (spec_f5 (aes.enc k) opc rand) \<and>
      take 8 (drop 8 autn) = spec_f1 (aes.enc k) opc rand sqn (take 2 (drop 6 autn))) \<longleftrightarrow>
    (\<exists>amf. length amf = 2 \<and> autn = spec_AUTN opc k rand sqn amf)" (is "?l \<longleftrightarrow> ?r")
proof
  assume ?l
  then have "autn = spec_AUTN opc k rand sqn (take 2 (drop 6 autn))"
    using assms split_AUTN [OF assms(4)] by (simp add: spec_AUTN_def xor_bytes_involution)
  moreover have "length (take 2 (drop 6 autn)) = 2" using assms by simp
  ultimately show ?r by blast
next
  assume ?r
  then show ?l using assms by (auto simp: spec_AUTN_def xor_bytes_involution)
qed

lemma AUTS_check_iff:
  assumes "length opc = 16" "length k = 16" "length rand = 16" "length auts = 14" "length sqn = 6"
  shows "(sqn = xor_bytes (take 6 auts) (spec_f5star (aes.enc k) opc rand) \<and>
      spec_f1star (aes.enc k) opc rand sqn resynchAMF = take 8 (drop 6 auts)) \<longleftrightarrow>
    auts = spec_AUTS opc k rand sqn" (is "?l \<longleftrightarrow> ?r")
proof
  assume l: ?l
  have "auts = take 6 auts @ drop 6 auts" by simp
  also have "take 6 auts = xor_bytes sqn (spec_f5star (aes.enc k) opc rand)"
    using l assms by (simp add: xor_bytes_involution)
  also have "drop 6 auts = spec_f1star (aes.enc k) opc rand sqn resynchAMF"
    using conjunct2 [OF l] assms(4) by simp
  finally show ?r by (simp only: spec_AUTS_def)
next
  assume ?r
  then show ?l using assms by (auto simp: spec_AUTS_def xor_bytes_involution resynchAMF_def)
qed

section \<open>Lengths and errors\<close>

text \<open>The error for the first parameter whose length is wrong.\<close>

definition bad_length :: "(string \<times> byte list \<times> nat) list \<Rightarrow> milenage_error option" where
  "bad_length ps =
     (case find (\<lambda>(name, arg, n). length arg \<noteq> n) ps of
        None \<Rightarrow> None
      | Some (name, arg, n) \<Rightarrow> Some (ParameterLengthError name (length arg) n))"

lemma bad_length_simps [simp]:
  "bad_length [] = None"
  "bad_length ((name, arg, n) # ps) =
     (if length arg \<noteq> n then Some (ParameterLengthError name (length arg) n) else bad_length ps)"
  by (simp_all add: bad_length_def)

lemma GenerateAKAParameters_cases:
  "GenerateAKAParameters opc k rand sqn amf =
     (case bad_length [(''OPc'', opc, 16), (''K'', k, 16), (''RAND'', rand, 16), (''SQN'', sqn, 6), (''AMF'', amf, 2)] of
        Some e \<Rightarrow> Returns (Inl e)
      | None \<Rightarrow> Returns (Inr (spec_f4 (aes.enc k) opc rand, spec_f3 (aes.enc k) opc rand,
                  spec_f2 (aes.enc k) opc rand, spec_AUTN opc k rand sqn amf)))"
  using GenerateAKAParameters_eq [of opc k rand sqn amf] by (simp add: GenerateAKAParameters_def len_defs)

lemma GenerateKeysWithAUTN_cases:
  "GenerateKeysWithAUTN opc k rand autn =
     (case bad_length [(''OPc'', opc, 16), (''K'', k, 16), (''RAND'', rand, 16), (''AUTN'', autn, 16)] of
        Some e \<Rightarrow> Returns (Inl e)
      | None \<Rightarrow>
          let ak = spec_f5 (aes.enc k) opc rand;
              sqn = xor_bytes (take 6 autn) ak;
              xmac = take 8 (drop 8 autn);
              mac = spec_f1 (aes.enc k) opc rand sqn (take 2 (drop 6 autn))
          in Returns (if xmac = mac
                 then Inr (sqn, ak, spec_f4 (aes.enc k) opc rand, spec_f3 (aes.enc k) opc rand, spec_f2 (aes.enc k) opc rand)
                 else Inl (MACFailureError ''MAC-A'' xmac mac)))"
  using GenerateKeysWithAUTN_eq [of opc k rand autn] by (simp add: GenerateKeysWithAUTN_def len_defs Let_def)

lemma ValidateAUTS_cases:
  "ValidateAUTS opc k rand auts =
     (case bad_length [(''OPc'', opc, 16), (''K'', k, 16), (''RAND'', rand, 16), (''AUTS'', auts, 14)] of
        Some e \<Rightarrow> Returns (Inl e)
      | None \<Rightarrow>
          let ak = spec_f5star (aes.enc k) opc rand;
              sqn = xor_bytes (take 6 auts) ak;
              macs = take 8 (drop 6 auts);
              xmacs = spec_f1star (aes.enc k) opc rand sqn resynchAMF
          in Returns (if xmacs = macs then Inr (sqn, ak) else Inl (MACFailureError ''MAC-S'' xmacs macs)))"
  using ValidateAUTS_eq [of opc k rand auts] by (simp add: ValidateAUTS_def len_defs Let_def)

lemma GenerateAUTS_cases:
  "GenerateAUTS opc k rand sqnms =
     (case bad_length [(''OPc'', opc, 16), (''K'', k, 16), (''RAND'', rand, 16), (''SQNms'', sqnms, 6)] of
        Some e \<Rightarrow> Returns (Inl e)
      | None \<Rightarrow> Returns (Inr (spec_AUTS opc k rand sqnms)))"
  using GenerateAUTS_eq [of opc k rand sqnms] by (simp add: GenerateAUTS_def len_defs)

lemma F2345_cases:
  "F2345 opc k rand =
     (case bad_length [(''OPc'', opc, 16), (''K'', k, 16), (''RAND'', rand, 16)] of
        Some e \<Rightarrow> Returns (Inl e)
      | None \<Rightarrow> Returns (Inr (spec_f2 (aes.enc k) opc rand, spec_f3 (aes.enc k) opc rand,
                  spec_f4 (aes.enc k) opc rand, spec_f5 (aes.enc k) opc rand, spec_f5star (aes.enc k) opc rand)))"
  by (simp add: F2345_def len_defs f2345_eq)

lemma GenerateOPc_cases:
  "GenerateOPc k op =
     (case bad_length [(''K'', k, 16), (''OP'', op, 16)] of
        Some e \<Rightarrow> Returns (Inl e)
      | None \<Rightarrow> Returns (Inr (xor_bytes (aes.enc k op) op)))"
proof (cases "length k = 16 \<and> length op = 16")
  case True
  then obtain block where "aes_NewCipher k = Inr block" "block op = Returns (aes.enc k op)"
    using aes_block [of k] by blast
  with True show ?thesis by (simp add: GenerateOPc_def len_defs generateOPc_def)
qed (auto simp: GenerateOPc_def len_defs)

lemma length_spec_AUTN [simp]:
  assumes "length opc = 16" "length k = 16" "length rand = 16" "length sqn = 6" "length amf = 2"
  shows "length (spec_AUTN opc k rand sqn amf) = 16"
  using assms by (simp add: spec_AUTN_def)

lemma length_spec_AUTS [simp]:
  assumes "length opc = 16" "length k = 16" "length rand = 16" "length sqn = 6"
  shows "length (spec_AUTS opc k rand sqn) = 14"
  using assms by (simp add: spec_AUTS_def resynchAMF_def)

section \<open>Properties\<close>

text \<open>C6. The loops of \<^verbatim>\<open>f1\<close>, \<^verbatim>\<open>F2345\<close> and \<^verbatim>\<open>GenerateOPc\<close>, with their reused buffers, their
  rotations by index arithmetic and their constants, compute MILENAGE as TS 35.206 defines it over AES: f1 and f1*
  are the halves of OUT1, f2 and f5 are cut from OUT2, f3 is OUT3, f4 is OUT4, f5* is cut from OUT5, and OPc is
  E(OP) xor OP; nothing panics. \<^verbatim>\<open>GenerateOPcFromHex\<close> is the same function on lower-case
  hexadecimal text.\<close>

theorem milenage_computes_ts35206:
  assumes "length opc = 16" "length k = 16" "length rand = 16" "length sqn = 6" "length amf = 2" "length op = 16"
  shows "f1 opc k rand sqn amf =
      Returns (Inr (spec_f1 (aes.enc k) opc rand sqn amf, spec_f1star (aes.enc k) opc rand sqn amf)) \<and>
    F2345 opc k rand =
      Returns (Inr (spec_f2 (aes.enc k) opc rand, spec_f3 (aes.enc k) opc rand, spec_f4 (aes.enc k) opc rand,
        spec_f5 (aes.enc k) opc rand, spec_f5star (aes.enc k) opc rand)) \<and>
    GenerateOPc k op = Returns (Inr (xor_bytes (aes.enc k op) op)) \<and>
    GenerateOPcFromHex (hex_EncodeToString k) (hex_EncodeToString op) =
      Returns (Inr (hex_EncodeToString (xor_bytes (aes.enc k op) op)))"
proof -
  have opc: "GenerateOPc k op = Returns (Inr (xor_bytes (aes.enc k op) op))"
    using assms by (simp add: GenerateOPc_cases)
  then have "generateOPc k op = Returns (Inr (xor_bytes (aes.enc k op) op))"
    using assms by (simp add: GenerateOPc_def len_defs)
  then show ?thesis
    using opc assms
    by (simp add: f1_eq F2345_cases GenerateOPcFromHex_def validateHexArg_def hex_DecodeString_EncodeToString len_defs)
qed

theorem milenage_computes_ts35206_witness:
  "GenerateOPc (replicate 16 1) (replicate 16 2) =
     Returns (Inr (xor_bytes (aes.enc (replicate 16 1) (replicate 16 2)) (replicate 16 2)))"
  using milenage_computes_ts35206 [of "replicate 16 3" "replicate 16 1" "replicate 16 4" "replicate 6 5" "replicate 2 6"
      "replicate 16 2"] by simp

text \<open>C4. Authentication of the network: the terminal's \<^verbatim>\<open>GenerateKeysWithAUTN\<close> accepts a token with
  sequence number \<open>sqn\<close> and keys \<open>ik\<close>, \<open>ck\<close>, \<open>res\<close> exactly when the network's
  \<^verbatim>\<open>GenerateAKAParameters\<close> makes that token, with those keys, from that sequence number and some AMF
  under the same OPc, K and RAND. So every generated token is accepted and gives back its sequence number and the
  same keys, and no other token is accepted.\<close>

theorem milenage_aka_agreement:
  "GenerateKeysWithAUTN opc k rand autn = Returns (Inr (sqn, ak, ik, ck, res)) \<longleftrightarrow>
     (\<exists>amf akstar. GenerateAKAParameters opc k rand sqn amf = Returns (Inr (ik, ck, res, autn)) \<and>
        F2345 opc k rand = Returns (Inr (res, ck, ik, ak, akstar)))"
proof (cases "length opc = 16 \<and> length k = 16 \<and> length rand = 16 \<and> length autn = 16 \<and> length sqn = 6")
  case True
  then show ?thesis
    using AUTN_check_iff [of opc k rand autn sqn]
    by (auto simp: GenerateKeysWithAUTN_cases GenerateAKAParameters_cases F2345_cases Let_def)
next
  case False
  then show ?thesis
    by (auto simp: GenerateKeysWithAUTN_cases GenerateAKAParameters_cases Let_def split: if_splits)
qed

text \<open>C5. Resynchronisation: the network's \<^verbatim>\<open>ValidateAUTS\<close> accepts a token with sequence number
  \<open>sqn\<close> exactly when the terminal's \<^verbatim>\<open>GenerateAUTS\<close> makes it from that sequence number under the
  same OPc, K and RAND, and it returns the f5* key as the anonymity key.\<close>

theorem milenage_resync_agreement:
  "ValidateAUTS opc k rand auts = Returns (Inr (sqn, akstar)) \<longleftrightarrow>
     GenerateAUTS opc k rand sqn = Returns (Inr auts) \<and>
     (\<exists>res ck ik ak. F2345 opc k rand = Returns (Inr (res, ck, ik, ak, akstar)))"
proof (cases "length opc = 16 \<and> length k = 16 \<and> length rand = 16 \<and> length auts = 14 \<and> length sqn = 6")
  case True
  then show ?thesis
    using AUTS_check_iff [of opc k rand auts sqn]
    by (auto simp: ValidateAUTS_cases GenerateAUTS_cases F2345_cases Let_def)
next
  case False
  then show ?thesis
    by (auto simp: ValidateAUTS_cases GenerateAUTS_cases Let_def split: if_splits)
qed

text \<open>The error for the first text that is not the hexadecimal form of a block.\<close>

fun bad_hex :: "(string \<times> string) list \<Rightarrow> milenage_error option" where
  "bad_hex [] = None"
| "bad_hex ((name, t) # ps) =
     (case hex_DecodeString t of
        Inl err \<Rightarrow> Some (HexError name t err)
      | Inr b \<Rightarrow> if length b = 16 then bad_hex ps else Some (ParameterLengthError name (length b) 16))"

lemma generateOPc_returns:
  assumes "length k = 16" "length op = 16"
  shows "generateOPc k op = Returns (Inr (xor_bytes (aes.enc k op) op))"
  using GenerateOPc_cases [of k op] assms by (simp add: GenerateOPc_def len_defs)

lemma GenerateOPcFromHex_cases:
  "case bad_hex [(''K'', kt), (''OP'', opt)] of
     Some e \<Rightarrow> GenerateOPcFromHex kt opt = Returns (Inl e)
   | None \<Rightarrow> \<exists>opc. GenerateOPcFromHex kt opt = Returns (Inr opc)"
  by (auto simp: GenerateOPcFromHex_def validateHexArg_def len_defs generateOPc_returns split: sum.split)

text \<open>C38. Errors of the nine exported functions, which return on every input. The five that take keys and tokens as
  octets (\<^verbatim>\<open>F2345\<close>, \<^verbatim>\<open>GenerateAKAParameters\<close>, \<^verbatim>\<open>GenerateAUTS\<close>, \<^verbatim>\<open>GenerateKeysWithAUTN\<close>,
  \<^verbatim>\<open>ValidateAUTS\<close>) and \<^verbatim>\<open>GenerateOPc\<close> fail with the length error of the first parameter of the wrong
  length, in the order of the checks; \<^verbatim>\<open>GenerateOPcFromHex\<close> fails for the first text that is not
  hexadecimal, with the decoding error, or is not 16 octets long, with the length error. With right lengths
  the generating functions succeed, and the two checking ones can only fail with a MAC failure that carries two
  different MACs, one of which is the one in the token (\<^verbatim>\<open>ValidateAUTS\<close> reports the computed MAC as the
  expected one, \<^verbatim>\<open>GenerateKeysWithAUTN\<close> reports the received one as such). \<^verbatim>\<open>CutAUTN\<close> and
  \<^verbatim>\<open>CutAUTS\<close> have no error: a token of the right length is cut into its parts, of any other length they return
  empty slices.\<close>

theorem milenage_errors:
  "(F2345 opc k rand = Returns (Inl e) \<longleftrightarrow>
     bad_length [(''OPc'', opc, 16), (''K'', k, 16), (''RAND'', rand, 16)] = Some e) \<and>
  (GenerateOPc k op = Returns (Inl e) \<longleftrightarrow> bad_length [(''K'', k, 16), (''OP'', op, 16)] = Some e) \<and>
  (GenerateOPcFromHex kt opt = Returns (Inl e) \<longleftrightarrow> bad_hex [(''K'', kt), (''OP'', opt)] = Some e) \<and>
  (GenerateAKAParameters opc k rand sqn amf = Returns (Inl e) \<longleftrightarrow>
     bad_length [(''OPc'', opc, 16), (''K'', k, 16), (''RAND'', rand, 16), (''SQN'', sqn, 6), (''AMF'', amf, 2)] = Some e) \<and>
  (GenerateAUTS opc k rand sqn = Returns (Inl e) \<longleftrightarrow>
     bad_length [(''OPc'', opc, 16), (''K'', k, 16), (''RAND'', rand, 16), (''SQNms'', sqn, 6)] = Some e) \<and>
  (GenerateKeysWithAUTN opc k rand autn = Returns (Inl e) \<longleftrightarrow>
     (case bad_length [(''OPc'', opc, 16), (''K'', k, 16), (''RAND'', rand, 16), (''AUTN'', autn, 16)] of
        Some e' \<Rightarrow> e = e'
      | None \<Rightarrow> \<exists>mac. mac \<noteq> drop 8 autn \<and> e = MACFailureError ''MAC-A'' (drop 8 autn) mac \<and>
          mac = spec_f1 (aes.enc k) opc rand (xor_bytes (take 6 autn) (spec_f5 (aes.enc k) opc rand)) (take 2 (drop 6 autn)))) \<and>
  (ValidateAUTS opc k rand auts = Returns (Inl e) \<longleftrightarrow>
     (case bad_length [(''OPc'', opc, 16), (''K'', k, 16), (''RAND'', rand, 16), (''AUTS'', auts, 14)] of
        Some e' \<Rightarrow> e = e'
      | None \<Rightarrow> \<exists>mac. mac \<noteq> drop 6 auts \<and> e = MACFailureError ''MAC-S'' mac (drop 6 auts) \<and>
          mac = spec_f1star (aes.enc k) opc rand (xor_bytes (take 6 auts) (spec_f5star (aes.enc k) opc rand)) resynchAMF)) \<and>
  (case CutAUTN autn of (conc_sqn, amf, mac) \<Rightarrow>
     if length autn = 16 then length conc_sqn = 6 \<and> length amf = 2 \<and> length mac = 8 \<and> conc_sqn @ amf @ mac = autn
     else conc_sqn = [] \<and> amf = [] \<and> mac = []) \<and>
  (case CutAUTS auts of (conc_sqn, mac) \<Rightarrow>
     if length auts = 14 then length conc_sqn = 6 \<and> length mac = 8 \<and> conc_sqn @ mac = auts
     else conc_sqn = [] \<and> mac = []) \<and>
  returns (F2345 opc k rand) \<and> returns (GenerateOPc k op) \<and> returns (GenerateOPcFromHex kt opt) \<and>
  returns (GenerateAKAParameters opc k rand sqn amf) \<and> returns (GenerateAUTS opc k rand sqn) \<and>
  returns (GenerateKeysWithAUTN opc k rand autn) \<and> returns (ValidateAUTS opc k rand auts)"
proof (intro conjI)
  show "GenerateOPcFromHex kt opt = Returns (Inl e) \<longleftrightarrow> bad_hex [(''K'', kt), (''OP'', opt)] = Some e"
    "returns (GenerateOPcFromHex kt opt)"
    using GenerateOPcFromHex_cases [of kt opt] by (auto split: option.splits)
  show "case CutAUTN autn of (conc_sqn, amf, mac) \<Rightarrow>
     if length autn = 16 then length conc_sqn = 6 \<and> length amf = 2 \<and> length mac = 8 \<and> conc_sqn @ amf @ mac = autn
     else conc_sqn = [] \<and> amf = [] \<and> mac = []"
    using split_AUTN [of autn] by (simp add: CutAUTN_def len_defs)
  show "case CutAUTS auts of (conc_sqn, mac) \<Rightarrow>
     if length auts = 14 then length conc_sqn = 6 \<and> length mac = 8 \<and> conc_sqn @ mac = auts
     else conc_sqn = [] \<and> mac = []"
    by (simp add: CutAUTS_def len_defs)
qed (auto simp: F2345_cases GenerateOPc_cases GenerateAKAParameters_cases GenerateAUTS_cases
      GenerateKeysWithAUTN_cases ValidateAUTS_cases Let_def split: option.splits if_splits)

end
