(* ===== verification/Sha256.thy ===== *)
theory Sha256
  imports Prelude
begin

text \<open>
  The keyed hash of Go's \<^verbatim>\<open>crypto/hmac\<close> over \<^verbatim>\<open>crypto/sha256\<close>, which the key derivation
  function uses: SHA-256 (FIPS 180-4) and HMAC (RFC 2104). The facts the
  client needs are the sizes at the end.
\<close>

section \<open>SHA-256\<close>

text \<open>
  The constants are the first 32 bits of the fractional parts of the square roots of the first eight primes and of
  the cube roots of the first 64; \<open>iroot k n\<close> is the integer root, bit by bit from the top.
\<close>

definition iroot :: "nat \<Rightarrow> int \<Rightarrow> int" where
  "iroot k n = foldl (\<lambda>r b. if (r + 2 ^ b) ^ k \<le> n then r + 2 ^ b else r) 0 (rev [0..<36])"

definition sha_primes :: "int list" where
  "sha_primes =
     [2, 3, 5, 7, 11, 13, 17, 19, 23, 29, 31, 37, 41, 43, 47, 53, 59, 61, 67, 71, 73, 79, 83, 89, 97, 101, 103, 107,
      109, 113, 127, 131, 137, 139, 149, 151, 157, 163, 167, 173, 179, 181, 191, 193, 197, 199, 211, 223, 227, 229,
      233, 239, 241, 251, 257, 263, 269, 271, 277, 281, 283, 293, 307, 311]"

definition sha_k :: "32 word list" where
  "sha_k = map (\<lambda>p. word_of_int (iroot 3 (p * 2 ^ 96))) sha_primes"

definition sha_init :: "32 word list" where
  "sha_init = map (\<lambda>p. word_of_int (iroot 2 (p * 2 ^ 64))) (take 8 sha_primes)"

definition sigma0 :: "32 word \<Rightarrow> 32 word" where
  "sigma0 x = word_rotr 7 x XOR word_rotr 18 x XOR drop_bit 3 x"

definition sigma1 :: "32 word \<Rightarrow> 32 word" where
  "sigma1 x = word_rotr 17 x XOR word_rotr 19 x XOR drop_bit 10 x"

definition Sigma0 :: "32 word \<Rightarrow> 32 word" where
  "Sigma0 x = word_rotr 2 x XOR word_rotr 13 x XOR word_rotr 22 x"

definition Sigma1 :: "32 word \<Rightarrow> 32 word" where
  "Sigma1 x = word_rotr 6 x XOR word_rotr 11 x XOR word_rotr 25 x"

text \<open>The message schedule, extended by one word per step.\<close>

primrec schedule :: "nat \<Rightarrow> 32 word list \<Rightarrow> 32 word list" where
  "schedule 0 ws = ws"
| "schedule (Suc n) ws =
     (let t = length ws in
      schedule n (ws @ [sigma1 (ws ! (t - 2)) + ws ! (t - 7) + sigma0 (ws ! (t - 15)) + ws ! (t - 16)]))"

definition sha_round :: "32 word list \<Rightarrow> 32 word \<times> 32 word \<Rightarrow> 32 word list" where
  "sha_round st kw =
     (case st of [a, b, c, d, e, f, g, h] \<Rightarrow>
        let t1 = h + Sigma1 e + ((e AND f) XOR (NOT e AND g)) + fst kw + snd kw;
            t2 = Sigma0 a + ((a AND b) XOR (a AND c) XOR (b AND c))
        in [t1 + t2, a, b, c, d + t1, e, f, g]
      | _ \<Rightarrow> st)"

fun words32 :: "byte list \<Rightarrow> 32 word list" where
  "words32 (a # b # c # d # s) = be32 a b c d # words32 s"
| "words32 _ = []"

definition sha_block :: "32 word list \<Rightarrow> byte list \<Rightarrow> 32 word list" where
  "sha_block h blk = map2 (+) h (foldl sha_round h (zip sha_k (schedule 48 (words32 blk))))"

definition PutUint64 :: "64 word \<Rightarrow> byte list" where
  "PutUint64 v = PutUint32 (ucast (drop_bit 32 v)) @ PutUint32 (ucast v)"

text \<open>Padding to a whole number of 64-octet blocks, with the length in bits at the end.\<close>

definition sha_pad :: "byte list \<Rightarrow> byte list" where
  "sha_pad m = m @ [0x80] @ replicate ((119 - length m mod 64) mod 64) 0 @ PutUint64 (of_nat (8 * length m))"

function sha_loop :: "32 word list \<Rightarrow> byte list \<Rightarrow> 32 word list" where
  "sha_loop h m = (if m = [] then h else sha_loop (sha_block h (take 64 m)) (drop 64 m))"
  by pat_completeness auto
termination
  by (relation "measure (length \<circ> snd)") auto

declare sha_loop.simps [simp del]

definition sha256 :: "byte list \<Rightarrow> byte list" where
  "sha256 m = concat (map PutUint32 (sha_loop sha_init (sha_pad m)))"

section \<open>HMAC\<close>

definition hmac_key :: "byte list \<Rightarrow> byte list" where
  "hmac_key key = (let k = if 64 < length key then sha256 key else key in k @ replicate (64 - length k) 0)"

definition hmac_sha256 :: "byte list \<Rightarrow> byte list \<Rightarrow> byte list" where
  "hmac_sha256 key m =
     (let k = hmac_key key
      in sha256 (map ((XOR) 0x5c) k @ sha256 (map ((XOR) 0x36) k @ m)))"

section \<open>Sizes\<close>

lemma length_sha_round [simp]: "length (sha_round st kw) = length st"
  by (auto simp: sha_round_def Let_def split: list.splits)

lemma length_foldl_sha_round [simp]: "length (foldl sha_round st kws) = length st"
  by (induction kws arbitrary: st) simp_all

lemma length_sha_block [simp]: "length (sha_block h blk) = length h"
  by (simp add: sha_block_def)

lemma length_sha_loop: "length (sha_loop h m) = length h"
  by (induction h m rule: sha_loop.induct) (simp add: sha_loop.simps)

lemma length_sha256 [simp]: "length (sha256 m) = 32"
proof -
  have "length (concat (map PutUint32 ws)) = 4 * length ws" for ws
    by (induction ws) simp_all
  then show ?thesis by (simp add: sha256_def length_sha_loop sha_init_def sha_primes_def)
qed

text \<open>The padded message is a whole number of blocks, so no block is cut short.\<close>

lemma sha_pad_blocks: "64 dvd length (sha_pad m)"
proof -
  have "length (sha_pad m) = length m + 9 + (119 - length m mod 64) mod 64"
    by (simp add: sha_pad_def PutUint64_def)
  moreover have "(a + c + b mod 64) mod 64 = (a mod 64 + c + b) mod (64 :: nat)" for a b c
    by (metis add.assoc mod_add_left_eq mod_add_right_eq)
  ultimately have "length (sha_pad m) mod 64 = (length m mod 64 + 9 + (119 - length m mod 64)) mod 64"
    by (simp only:)
  also have "length m mod 64 + 9 + (119 - length m mod 64) = 128"
    using mod_less_divisor [of 64 "length m"] by linarith
  finally show ?thesis by (simp add: mod_eq_0_iff_dvd)
qed

lemma length_hmac [simp]: "length (hmac_sha256 key m) = 32"
  by (simp add: hmac_sha256_def Let_def)

lemma length_hmac_key [simp]: "length (hmac_key key) = 64"
  by (simp add: hmac_key_def Let_def)

end
