(* ===== verification/UEAuth.thy ===== *)
theory UEAuth
  imports Sha256 GoStrings
begin

text \<open>
  The key derivation function of \<^verbatim>\<open>src/lib/util/ueauth/ueauth.go\<close>: \<open>KDFLen\<close> is the two-octet
  length that follows each parameter and \<open>GetKDFValue\<close> is the HMAC of the function code and the parameters.
\<close>

section \<open>Function codes\<close>

definition FC_FOR_CK_PRIME_IK_PRIME_DERIVATION :: string where "FC_FOR_CK_PRIME_IK_PRIME_DERIVATION = ''20''"
definition FC_FOR_KSEAF_DERIVATION :: string where "FC_FOR_KSEAF_DERIVATION = ''6C''"
definition FC_FOR_RES_STAR_XRES_STAR_DERIVATION :: string where "FC_FOR_RES_STAR_XRES_STAR_DERIVATION = ''6B''"
definition FC_FOR_KAUSF_DERIVATION :: string where "FC_FOR_KAUSF_DERIVATION = ''6A''"
definition FC_FOR_KAMF_DERIVATION :: string where "FC_FOR_KAMF_DERIVATION = ''6D''"
definition FC_FOR_KGNB_KN3IWF_DERIVATION :: string where "FC_FOR_KGNB_KN3IWF_DERIVATION = ''6E''"
definition FC_FOR_NH_DERIVATION :: string where "FC_FOR_NH_DERIVATION = ''6F''"
definition FC_FOR_ALGORITHM_KEY_DERIVATION :: string where "FC_FOR_ALGORITHM_KEY_DERIVATION = ''69''"
definition FC_FOR_KTIPSEC_KTNAP_DERIVATION :: string where "FC_FOR_KTIPSEC_KTNAP_DERIVATION = ''84''"

definition function_codes :: "string list" where
  "function_codes =
     [FC_FOR_CK_PRIME_IK_PRIME_DERIVATION, FC_FOR_KSEAF_DERIVATION, FC_FOR_RES_STAR_XRES_STAR_DERIVATION,
      FC_FOR_KAUSF_DERIVATION, FC_FOR_KAMF_DERIVATION, FC_FOR_KGNB_KN3IWF_DERIVATION, FC_FOR_NH_DERIVATION,
      FC_FOR_ALGORITHM_KEY_DERIVATION, FC_FOR_KTIPSEC_KTNAP_DERIVATION]"

lemmas fc_defs = FC_FOR_CK_PRIME_IK_PRIME_DERIVATION_def FC_FOR_KSEAF_DERIVATION_def
  FC_FOR_RES_STAR_XRES_STAR_DERIVATION_def FC_FOR_KAUSF_DERIVATION_def FC_FOR_KAMF_DERIVATION_def
  FC_FOR_KGNB_KN3IWF_DERIVATION_def FC_FOR_NH_DERIVATION_def FC_FOR_ALGORITHM_KEY_DERIVATION_def
  FC_FOR_KTIPSEC_KTNAP_DERIVATION_def

section \<open>Operations\<close>

datatype kdf_error = FCDecodeFailed hex_error

definition KDFLen :: "byte list \<Rightarrow> byte list" where
  "KDFLen input = PutUint16 (of_nat (length input))"

primrec append_params :: "byte list \<Rightarrow> byte list list \<Rightarrow> byte list" where
  "append_params S [] = S"
| "append_params S (p # ps) = append_params (S @ p) ps"

definition GetKDFValue :: "byte list \<Rightarrow> string \<Rightarrow> byte list list \<Rightarrow> kdf_error + byte list" where
  "GetKDFValue key FC param =
     (case hex_DecodeString FC of
        Inl err \<Rightarrow> Inl (FCDecodeFailed err)
      | Inr STmp \<Rightarrow> Inr (hmac_sha256 key (append_params STmp param)))"

section \<open>The input of the hash\<close>

text \<open>The parameter list of a call that follows the convention: each parameter, then its length.\<close>

definition with_lengths :: "byte list list \<Rightarrow> byte list list" where
  "with_lengths ps = concat (map (\<lambda>p. [p, KDFLen p]) ps)"

lemma with_lengths_simps [simp]:
  "with_lengths [] = []" "with_lengths (ps @ [p]) = with_lengths ps @ [p, KDFLen p]"
  by (simp_all add: with_lengths_def)

lemma append_params_eq: "append_params S ps = S @ concat ps"
  by (induction ps arbitrary: S) simp_all

lemma length_KDFLen [simp]: "length (KDFLen p) = 2"
  by (simp add: KDFLen_def)

lemma KDFLen_eq_iff: "KDFLen p = KDFLen q \<longleftrightarrow> length p mod 2 ^ 16 = length q mod 2 ^ 16"
proof -
  have "PutUint16 v = PutUint16 w \<longleftrightarrow> v = w" for v w
    by (metis PutUint16_def be16_PutUint16 list.inject)
  then show ?thesis
    by (simp add: KDFLen_def word_of_nat_eq_iff take_bit_eq_mod)
qed

text \<open>The lengths make the concatenation readable from its end.\<close>

lemma with_lengths_unique:
  assumes "\<forall>p\<in>set ps. length p < 2 ^ 16" "\<forall>q\<in>set qs. length q < 2 ^ 16"
    and "length s = length t" "s @ concat (with_lengths ps) = t @ concat (with_lengths qs)"
  shows "s = t \<and> ps = qs"
  using assms
proof (induction ps arbitrary: qs rule: rev_induct)
  case Nil
  then have "concat (with_lengths qs) = []" by simp
  then have "qs = []" by (cases qs rule: rev_cases) (simp_all add: KDFLen_def PutUint16_def)
  with Nil show ?case by simp
next
  case (snoc p ps)
  then have "concat (with_lengths ps) @ p @ KDFLen p = concat (with_lengths qs)" by simp
  moreover have "KDFLen p \<noteq> []" by (simp add: KDFLen_def PutUint16_def)
  ultimately have "concat (with_lengths qs) \<noteq> []" by (metis append_is_Nil_conv)
  then obtain qs' q where qs: "qs = qs' @ [q]" by (cases qs rule: rev_cases) auto
  have eq: "((s @ concat (with_lengths ps)) @ p) @ KDFLen p = ((t @ concat (with_lengths qs')) @ q) @ KDFLen q"
    using snoc.prems(4) qs by simp
  then have pq: "(s @ concat (with_lengths ps)) @ p = (t @ concat (with_lengths qs')) @ q" "KDFLen p = KDFLen q"
    using append_eq_append_conv [of _ _ "KDFLen p" "KDFLen q"] by (simp_all only: length_KDFLen simp_thms)
  then have "length p = length q" using snoc.prems qs by (simp add: KDFLen_eq_iff)
  with pq have "s @ concat (with_lengths ps) = t @ concat (with_lengths qs')" "p = q"
    using append_eq_append_conv [of _ _ p q] by (simp_all only: simp_thms)
  with snoc.IH [of qs'] snoc.prems qs show ?case by simp
qed

section \<open>Properties\<close>

text \<open>The string that TS 33.220, clause B.2, has the function hash: the code, then each parameter followed by its
  length in two octets, the most significant one first.\<close>

definition ts33220_S :: "byte list \<Rightarrow> byte list list \<Rightarrow> byte list" where
  "ts33220_S fc ps =
     fc @ concat (map (\<lambda>p. p @ [of_nat (length p div 256), of_nat (length p mod 256)]) ps)"

lemma KDFLen_octets:
  assumes "length p < 2 ^ 16"
  shows "KDFLen p = [of_nat (length p div 256), of_nat (length p mod 256)]"
proof -
  let ?w = "of_nat (length p) :: 16 word"
  have u: "unat ?w = length p" using assms by (simp add: unat_of_nat)
  have "unsigned (drop_bit 8 ?w) = (of_nat (length p div 256) :: byte)"
  proof -
    have "unat (drop_bit 8 ?w) = length p div 256"
      by (simp only: unat_drop_bit_eq u drop_bit_eq_div [where ?'a = nat]) simp
    then show ?thesis by (metis of_nat_unat)
  qed
  moreover have "unsigned ?w = (of_nat (length p mod 256) :: byte)"
  proof -
    have "(of_nat (length p) :: byte) = of_nat (length p mod 256)" by (simp add: word_of_nat_eq_iff take_bit_eq_mod)
    with u show ?thesis by (metis of_nat_unat)
  qed
  ultimately show ?thesis by (simp only: KDFLen_def PutUint16_def)
qed

lemma ts33220_S_eq:
  assumes "\<forall>p\<in>set ps. length p < 2 ^ 16"
  shows "fc @ concat (with_lengths ps) = ts33220_S fc ps"
proof -
  have "concat (with_lengths ps) = concat (map (\<lambda>p. p @ KDFLen p) ps)"
    by (induction ps) (simp_all add: with_lengths_def)
  moreover have "map (\<lambda>p. p @ KDFLen p) ps = map (\<lambda>p. p @ [of_nat (length p div 256), of_nat (length p mod 256)]) ps"
    using assms by (intro map_cong) (simp_all add: KDFLen_octets)
  ultimately show ?thesis by (simp add: ts33220_S_def)
qed

text \<open>C37. \<^verbatim>\<open>GetKDFValue\<close> is the key derivation function of TS 33.220. A function code that is not
  hexadecimal text is its only error; with one that decodes to \<open>fc\<close> it returns the 32 octets of
  HMAC-SHA-256 over \<open>fc\<close> followed by all arguments. When the arguments are parameters of fewer than
  65536 octets, each followed by its \<^verbatim>\<open>KDFLen\<close>, the hashed string is the one of the standard, with the lengths as
  two octets in big-endian order; and for codes that decode to equally many octets it determines the code and all
  parameters, so that two derivations with different inputs never hash the same string. The nine codes of the package
  decode to one octet each, all different.\<close>

theorem kdf_value:
  assumes "\<forall>p\<in>set ps. length p < 2 ^ 16" "\<forall>q\<in>set qs. length q < 2 ^ 16" "length fc = length fc'"
  shows "(case hex_DecodeString FC of
      Inl err \<Rightarrow> GetKDFValue key FC args = Inl (FCDecodeFailed err)
    | Inr c \<Rightarrow> GetKDFValue key FC args = Inr (hmac_sha256 key (c @ concat args)) \<and>
        length (hmac_sha256 key (c @ concat args)) = 32 \<and>
        GetKDFValue key FC (with_lengths ps) = Inr (hmac_sha256 key (ts33220_S c ps))) \<and>
    (ts33220_S fc ps = ts33220_S fc' qs \<longleftrightarrow> fc = fc' \<and> ps = qs) \<and>
    map hex_DecodeString function_codes =
      map (\<lambda>c. Inr [c]) [0x20, 0x6C, 0x6B, 0x6A, 0x6D, 0x6E, 0x6F, 0x69, 0x84]"
proof (intro conjI)
  show "case hex_DecodeString FC of
      Inl err \<Rightarrow> GetKDFValue key FC args = Inl (FCDecodeFailed err)
    | Inr c \<Rightarrow> GetKDFValue key FC args = Inr (hmac_sha256 key (c @ concat args)) \<and>
        length (hmac_sha256 key (c @ concat args)) = 32 \<and>
        GetKDFValue key FC (with_lengths ps) = Inr (hmac_sha256 key (ts33220_S c ps))"
    using ts33220_S_eq [OF assms(1)] by (simp add: GetKDFValue_def append_params_eq split: sum.split)
  show "ts33220_S fc ps = ts33220_S fc' qs \<longleftrightarrow> fc = fc' \<and> ps = qs"
    using with_lengths_unique [OF assms] ts33220_S_eq assms(1,2) by metis
  show "map hex_DecodeString function_codes =
      map (\<lambda>c. Inr [c]) [0x20, 0x6C, 0x6B, 0x6A, 0x6D, 0x6E, 0x6F, 0x69, 0x84]"
    by (simp add: function_codes_def fc_defs hex_val_def Let_def)
qed

theorem kdf_value_witness:
  "GetKDFValue [1] ''20'' (with_lengths [[2, 3], []]) = Inr (hmac_sha256 [1] [0x20, 2, 3, 0, 2, 0, 0])"
proof -
  have d: "hex_DecodeString ''20'' = Inr [0x20]" by (simp add: hex_val_def Let_def)
  have "GetKDFValue [1] ''20'' (with_lengths [[2, 3], []]) = Inr (hmac_sha256 [1] (ts33220_S [0x20] [[2, 3], []]))"
    using kdf_value [where FC = "''20''" and key = "[1]" and ps = "[[2, 3], []]" and qs = "[]" and fc = "[]" and fc' = "[]"
        and args = "[]"] unfolding d by simp
  then show ?thesis by (simp add: ts33220_S_def)
qed

text \<open>The length field is the length modulo 65536: \<^verbatim>\<open>KDFLen\<close> gives the same two octets for any two
  parameters whose lengths differ by a multiple of 65536, and a parameter of 65536 octets is announced as empty. A function
  code that is not hexadecimal text is an error whatever the parameters are.\<close>

lemma kdf_length_wraps:
  "(KDFLen p = KDFLen q \<longleftrightarrow> length p mod 65536 = length q mod 65536) \<and>
   KDFLen (replicate 65536 b) = KDFLen [] \<and>
   (GetKDFValue key FC params = Inl (FCDecodeFailed err) \<longleftrightarrow> hex_DecodeString FC = Inl err)"
proof -
  have "KDFLen (replicate 65536 b) = KDFLen []"
    unfolding KDFLen_eq_iff length_replicate by simp
  then show ?thesis
    by (auto simp: KDFLen_eq_iff GetKDFValue_def split: sum.splits)
qed

end
