(* ===== verification/MetricsBase.thy ===== *)
theory MetricsBase
  imports GoStrings
begin

text \<open>
  \<^verbatim>\<open>lib/util/metrics/utils\<close> and \<^verbatim>\<open>lib/util/metrics/sbi\<close>, and the package variables of all metrics
  packages. The metric vectors belong to the Prometheus client: a vector is the description it was made from, and an
  update is a value of type \<open>metric_call\<close>, the call the code makes on the client. A call on a vector that was
  never made is a call on a nil pointer. Durations have an arbitrary type \<open>'d\<close>.
\<close>

section \<open>Status texts\<close>

definition SuccessMetric :: string where "SuccessMetric = ''successful''"
definition FailureMetric :: string where "FailureMetric = ''failure''"

definition SBI :: string where "SBI = ''sbi''"
definition NAS :: string where "NAS = ''nas''"
definition NGAP :: string where "NGAP = ''ngap''"

definition GetStatus :: "bool option \<Rightarrow> string" where
  "GetStatus metricStatusSuccess = (if metricStatusSuccess = Some True then SuccessMetric else FailureMetric)"

definition ReadStringPtr :: "string option \<Rightarrow> string" where
  "ReadStringPtr strPtr = (case strPtr of None \<Rightarrow> [] | Some s \<Rightarrow> s)"

definition FormatInt :: "int \<Rightarrow> string" where
  "FormatInt n = (if n < 0 then ''-'' @ Itoa (nat (- n)) else Itoa (nat n))"

text \<open>The names of \<^verbatim>\<open>net/http\<close>; an unknown code has the empty text.\<close>

definition status_texts :: "(int \<times> string) list" where
  "status_texts =
     [(100, ''Continue''), (101, ''Switching Protocols''), (102, ''Processing''), (103, ''Early Hints''),
      (200, ''OK''), (201, ''Created''), (202, ''Accepted''), (203, ''Non-Authoritative Information''),
      (204, ''No Content''), (205, ''Reset Content''), (206, ''Partial Content''), (207, ''Multi-Status''),
      (208, ''Already Reported''), (226, ''IM Used''),
      (300, ''Multiple Choices''), (301, ''Moved Permanently''), (302, ''Found''), (303, ''See Other''),
      (304, ''Not Modified''), (305, ''Use Proxy''), (307, ''Temporary Redirect''), (308, ''Permanent Redirect''),
      (400, ''Bad Request''), (401, ''Unauthorized''), (402, ''Payment Required''), (403, ''Forbidden''),
      (404, ''Not Found''), (405, ''Method Not Allowed''), (406, ''Not Acceptable''),
      (407, ''Proxy Authentication Required''), (408, ''Request Timeout''), (409, ''Conflict''), (410, ''Gone''),
      (411, ''Length Required''), (412, ''Precondition Failed''), (413, ''Request Entity Too Large''),
      (414, ''Request URI Too Long''), (415, ''Unsupported Media Type''),
      (416, ''Requested Range Not Satisfiable''), (417, ''Expectation Failed''), (418, ''I'm a teapot''),
      (421, ''Misdirected Request''), (422, ''Unprocessable Entity''), (423, ''Locked''),
      (424, ''Failed Dependency''), (425, ''Too Early''), (426, ''Upgrade Required''),
      (428, ''Precondition Required''), (429, ''Too Many Requests''), (431, ''Request Header Fields Too Large''),
      (451, ''Unavailable For Legal Reasons''),
      (500, ''Internal Server Error''), (501, ''Not Implemented''), (502, ''Bad Gateway''),
      (503, ''Service Unavailable''), (504, ''Gateway Timeout''), (505, ''HTTP Version Not Supported''),
      (506, ''Variant Also Negotiates''), (507, ''Insufficient Storage''), (508, ''Loop Detected''),
      (510, ''Not Extended''), (511, ''Network Authentication Required'')]"

definition StatusText :: "int \<Rightarrow> string" where
  "StatusText code = (case map_of status_texts code of None \<Rightarrow> [] | Some t \<Rightarrow> t)"

definition FormatStatus :: "int \<Rightarrow> string" where
  "FormatStatus statusCode =
     (let code = (if statusCode \<noteq> 0 then statusCode else 500) in FormatInt code @ '' '' @ StatusText code)"

section \<open>Vectors and package variables\<close>

datatype vec_kind = CounterVec | HistogramVec

text \<open>Buckets are in units of 0.0001 seconds.\<close>

record vec =
  Kind :: vec_kind
  Namespace :: string
  Subsystem :: string
  VecName :: string
  Help :: string
  Buckets :: "nat list"
  LabelNames :: "string list"

type_synonym labels = "(string \<times> string) list"

datatype 'd metric_call = Add vec labels | Observe vec labels 'd

record metrics_state =
  OutboundReqCounter :: "vec option"
  OutboundRequestDuration :: "vec option"
  InboundReqCounter :: "vec option"
  InboundRequestDuration :: "vec option"
  NasMsgRcvCounter :: "vec option"
  NasMsgSentCounter :: "vec option"
  MsgRcvCounter :: "vec option"
  MsgSentCounter :: "vec option"
  sbiMetricsEnabled :: bool
  nasMetricsEnabled :: bool
  ngapMetricsEnabled :: bool
  businessMetricsEnabled :: bool

definition initial_metrics :: metrics_state where
  "initial_metrics =
     \<lparr>OutboundReqCounter = None, OutboundRequestDuration = None, InboundReqCounter = None,
      InboundRequestDuration = None, NasMsgRcvCounter = None, NasMsgSentCounter = None, MsgRcvCounter = None,
      MsgSentCounter = None, sbiMetricsEnabled = False, nasMetricsEnabled = False, ngapMetricsEnabled = False,
      businessMetricsEnabled = False\<rparr>"

definition IsBusinessMetricsEnabled :: "metrics_state \<Rightarrow> bool" where
  "IsBusinessMetricsEnabled s = businessMetricsEnabled s"

definition EnableBusinessMetrics :: "metrics_state \<Rightarrow> metrics_state" where
  "EnableBusinessMetrics s = s\<lparr>businessMetricsEnabled := True\<rparr>"

definition IsSbiMetricsEnabled :: "metrics_state \<Rightarrow> bool" where
  "IsSbiMetricsEnabled s = sbiMetricsEnabled s"

definition EnableSbiMetrics :: "metrics_state \<Rightarrow> metrics_state" where
  "EnableSbiMetrics s = s\<lparr>sbiMetricsEnabled := True\<rparr>"

text \<open>A call on a vector variable.\<close>

definition with_vec :: "vec option \<Rightarrow> (vec \<Rightarrow> 'd metric_call) \<Rightarrow> 'd metric_call list exec" where
  "with_vec v f = (case v of None \<Rightarrow> Panics NilDereference | Some w \<Rightarrow> Returns [f w])"

text \<open>Reading a counter: the lookup by labels and the export of its value are calls on the client.\<close>

datatype 'e counter_error = CouldNotRetrieve string 'e | FailedToGetValue string 'e

definition getValueFromCounter :: "('c \<Rightarrow> 'e + 'x) \<Rightarrow> 'c \<Rightarrow> 'e + 'x" where
  "getValueFromCounter write c = (case write c of Inl err \<Rightarrow> Inl err | Inr m \<Rightarrow> Inr m)"

definition GetCounterVecValue ::
    "('v \<Rightarrow> labels \<Rightarrow> 'e + 'c) \<Rightarrow> ('c \<Rightarrow> 'e + 'x) \<Rightarrow> string \<Rightarrow> 'v \<Rightarrow> labels \<Rightarrow> 'e counter_error + 'x" where
  "GetCounterVecValue getMetricWith write counterName counter ls =
     (case getMetricWith counter ls of
        Inl err \<Rightarrow> Inl (CouldNotRetrieve counterName err)
      | Inr foundCounter \<Rightarrow>
          (case getValueFromCounter write foundCounter of
             Inl err \<Rightarrow> Inl (FailedToGetValue counterName err)
           | Inr counterValue \<Rightarrow> Inr counterValue))"

section \<open>Service based interface\<close>

definition OUTBOUND_REQ_COUNTER_NAME :: string where "OUTBOUND_REQ_COUNTER_NAME = ''outbound_request_total''"
definition OUTBOUND_REQ_COUNTER_DESC :: string where
  "OUTBOUND_REQ_COUNTER_DESC = ''Total number of SBI outbound requests attempted or sent by the NF''"
definition OUTBOUND_REQ_HIST_NAME :: string where "OUTBOUND_REQ_HIST_NAME = ''outbound_request_duration_seconds''"
definition OUTBOUND_REQ_HISTOGRAM_DESC :: string where "OUTBOUND_REQ_HISTOGRAM_DESC = ''Histogram of request latencies''"
definition INBOUND_REQ_COUNTER_NAME :: string where "INBOUND_REQ_COUNTER_NAME = ''inbound_request_total''"
definition INBOUND_REQ_COUNTER_DESC :: string where
  "INBOUND_REQ_COUNTER_DESC = ''Total number of SBI inbound requests received by the NF''"
definition INBOUND_REQ_HIST_NAME :: string where "INBOUND_REQ_HIST_NAME = ''inbound_request_duration_seconds''"
definition INBOUND_REQ_HIST_DESC :: string where "INBOUND_REQ_HIST_DESC = ''Histogram of request latencies''"
definition SBI_SUBSYSTEM_NAME :: string where "SBI_SUBSYSTEM_NAME = ''sbi''"
definition OUT_TARGET_SERVICE_NAME_LABEL :: string where "OUT_TARGET_SERVICE_NAME_LABEL = ''target_service_name''"
definition OUT_STATUS_CODE_LABEL :: string where "OUT_STATUS_CODE_LABEL = ''status_code''"
definition OUT_METHOD_LABEL :: string where "OUT_METHOD_LABEL = ''method''"
definition IN_STATUS_CODE_LABEL :: string where "IN_STATUS_CODE_LABEL = ''status_code''"
definition IN_METHOD_LABEL :: string where "IN_METHOD_LABEL = ''method''"
definition IN_CAUSE_LABEL :: string where "IN_CAUSE_LABEL = ''cause''"
definition IN_PATH_LABEL :: string where "IN_PATH_LABEL = ''path''"
definition IN_PB_DETAILS_CTX_STR :: string where "IN_PB_DETAILS_CTX_STR = ''problem''"

record 'd OutboundMetricBasicInfo =
  StatusCode :: int
  TargetServiceName :: string
  InfoMethod :: string
  Duration :: 'd

lemmas sbi_name_defs = OUTBOUND_REQ_COUNTER_NAME_def OUTBOUND_REQ_HIST_NAME_def INBOUND_REQ_COUNTER_NAME_def
  INBOUND_REQ_HIST_NAME_def SBI_SUBSYSTEM_NAME_def

lemmas sbi_label_defs = OUT_TARGET_SERVICE_NAME_LABEL_def OUT_STATUS_CODE_LABEL_def OUT_METHOD_LABEL_def
  IN_STATUS_CODE_LABEL_def IN_METHOD_LABEL_def IN_CAUSE_LABEL_def IN_PATH_LABEL_def

definition request_buckets :: "nat list" where
  "request_buckets = [1, 50, 100, 200, 250, 500]"

definition GetSbiOutboundMetrics :: "string \<Rightarrow> metrics_state \<Rightarrow> vec list \<times> metrics_state" where
  "GetSbiOutboundMetrics namespace s =
     (let c = \<lparr>Kind = CounterVec, Namespace = namespace, Subsystem = SBI_SUBSYSTEM_NAME,
               VecName = OUTBOUND_REQ_COUNTER_NAME, Help = OUTBOUND_REQ_COUNTER_DESC, Buckets = [],
               LabelNames = [OUT_TARGET_SERVICE_NAME_LABEL, OUT_STATUS_CODE_LABEL, OUT_METHOD_LABEL]\<rparr>;
          h = \<lparr>Kind = HistogramVec, Namespace = namespace, Subsystem = SBI_SUBSYSTEM_NAME,
               VecName = OUTBOUND_REQ_HIST_NAME, Help = OUTBOUND_REQ_HISTOGRAM_DESC, Buckets = request_buckets,
               LabelNames = [OUT_METHOD_LABEL, OUT_TARGET_SERVICE_NAME_LABEL, OUT_STATUS_CODE_LABEL]\<rparr>
      in ([c, h], s\<lparr>OutboundReqCounter := Some c, OutboundRequestDuration := Some h\<rparr>))"

definition incrOutboundReqCounter ::
    "metrics_state \<Rightarrow> string \<Rightarrow> string \<Rightarrow> int \<Rightarrow> 'd metric_call list exec" where
  "incrOutboundReqCounter s method serviceName statusCode =
     (if IsSbiMetricsEnabled s
      then with_vec (OutboundReqCounter s) (\<lambda>v. Add v
        [(OUT_TARGET_SERVICE_NAME_LABEL, serviceName), (OUT_STATUS_CODE_LABEL, FormatStatus statusCode),
         (OUT_METHOD_LABEL, method)])
      else Returns [])"

definition incrOutboundReqDurationCounter ::
    "metrics_state \<Rightarrow> string \<Rightarrow> string \<Rightarrow> int \<Rightarrow> 'd \<Rightarrow> 'd metric_call list exec" where
  "incrOutboundReqDurationCounter s method serviceName statusCode duration =
     (if IsSbiMetricsEnabled s
      then with_vec (OutboundRequestDuration s) (\<lambda>v. Observe v
        [(OUT_TARGET_SERVICE_NAME_LABEL, serviceName), (OUT_METHOD_LABEL, method),
         (OUT_STATUS_CODE_LABEL, FormatStatus statusCode)] duration)
      else Returns [])"

text \<open>One call after the other.\<close>

definition seq_calls :: "'d metric_call list exec \<Rightarrow> 'd metric_call list exec \<Rightarrow> 'd metric_call list exec" where
  "seq_calls m n = exec_bind m (\<lambda>a. exec_bind n (\<lambda>b. Returns (a @ b)))"

definition SbiMetricHook ::
    "metrics_state \<Rightarrow> string \<Rightarrow> string \<Rightarrow> int \<Rightarrow> 'd \<Rightarrow> 'd metric_call list exec" where
  "SbiMetricHook s method serviceName statusCode duration =
     seq_calls (incrOutboundReqCounter s method serviceName statusCode)
       (incrOutboundReqDurationCounter s method serviceName statusCode duration)"

definition GetSbiInboundMetrics :: "string \<Rightarrow> metrics_state \<Rightarrow> vec list \<times> metrics_state" where
  "GetSbiInboundMetrics namespace s =
     (let c = \<lparr>Kind = CounterVec, Namespace = namespace, Subsystem = SBI_SUBSYSTEM_NAME,
               VecName = INBOUND_REQ_COUNTER_NAME, Help = INBOUND_REQ_COUNTER_DESC, Buckets = [],
               LabelNames = [IN_STATUS_CODE_LABEL, IN_METHOD_LABEL, IN_CAUSE_LABEL, IN_PATH_LABEL]\<rparr>;
          h = \<lparr>Kind = HistogramVec, Namespace = namespace, Subsystem = SBI_SUBSYSTEM_NAME,
               VecName = INBOUND_REQ_HIST_NAME, Help = INBOUND_REQ_HIST_DESC, Buckets = request_buckets,
               LabelNames = [IN_METHOD_LABEL, IN_PATH_LABEL, IN_STATUS_CODE_LABEL]\<rparr>
      in ([c, h], s\<lparr>InboundReqCounter := Some c, InboundRequestDuration := Some h\<rparr>))"

definition IncrInboundReqCounter ::
    "metrics_state \<Rightarrow> string \<Rightarrow> string \<Rightarrow> int \<Rightarrow> string \<Rightarrow> 'd metric_call list exec" where
  "IncrInboundReqCounter s method path statusCode cause =
     (if IsSbiMetricsEnabled s
      then with_vec (InboundReqCounter s) (\<lambda>v. Add v
        [(IN_STATUS_CODE_LABEL, FormatStatus statusCode), (IN_METHOD_LABEL, method), (IN_CAUSE_LABEL, cause),
         (IN_PATH_LABEL, path)])
      else Returns [])"

definition IncrInboundReqDurationCounter ::
    "metrics_state \<Rightarrow> string \<Rightarrow> string \<Rightarrow> int \<Rightarrow> 'd \<Rightarrow> 'd metric_call list exec" where
  "IncrInboundReqDurationCounter s method path statusCode duration =
     (if IsSbiMetricsEnabled s
      then with_vec (InboundRequestDuration s) (\<lambda>v. Observe v
        [(IN_PATH_LABEL, path), (IN_METHOD_LABEL, method), (IN_STATUS_CODE_LABEL, FormatStatus statusCode)] duration)
      else Returns [])"

section \<open>Well-labelled calls\<close>

text \<open>
  The client panics on a call whose label names are not those the vector was made with. A call is right when they
  are, each once, and when it fits the kind of the vector.
\<close>

fun call_ok :: "'d metric_call \<Rightarrow> bool" where
  "call_ok (Add v ls) \<longleftrightarrow> Kind v = CounterVec \<and> distinct (map fst ls) \<and> set (map fst ls) = set (LabelNames v)"
| "call_ok (Observe v ls d) \<longleftrightarrow>
     Kind v = HistogramVec \<and> distinct (map fst ls) \<and> set (map fst ls) = set (LabelNames v)"

definition calls_ok :: "'d metric_call list exec \<Rightarrow> bool" where
  "calls_ok m = (case m of Panics _ \<Rightarrow> False | Returns cs \<Rightarrow> list_all call_ok cs)"

lemma calls_ok_simps [simp]:
  "calls_ok (Returns cs) = list_all call_ok cs" "\<not> calls_ok (Panics p)"
  by (simp_all add: calls_ok_def)

lemma calls_ok_seq: "calls_ok m \<Longrightarrow> calls_ok n \<Longrightarrow> calls_ok (seq_calls m n)"
  by (cases m; cases n) (auto simp: seq_calls_def)

text \<open>The vectors an enabled package relies on.\<close>

definition vec_ok :: "vec_kind \<Rightarrow> string list \<Rightarrow> vec option \<Rightarrow> bool" where
  "vec_ok k ls v = (case v of None \<Rightarrow> False | Some w \<Rightarrow> Kind w = k \<and> set (LabelNames w) = set ls)"

definition sbi_ok :: "metrics_state \<Rightarrow> bool" where
  "sbi_ok s \<longleftrightarrow> (sbiMetricsEnabled s \<longrightarrow>
     vec_ok CounterVec [OUT_TARGET_SERVICE_NAME_LABEL, OUT_STATUS_CODE_LABEL, OUT_METHOD_LABEL] (OutboundReqCounter s) \<and>
     vec_ok HistogramVec [OUT_TARGET_SERVICE_NAME_LABEL, OUT_STATUS_CODE_LABEL, OUT_METHOD_LABEL] (OutboundRequestDuration s) \<and>
     vec_ok CounterVec [IN_STATUS_CODE_LABEL, IN_METHOD_LABEL, IN_CAUSE_LABEL, IN_PATH_LABEL] (InboundReqCounter s) \<and>
     vec_ok HistogramVec [IN_STATUS_CODE_LABEL, IN_METHOD_LABEL, IN_PATH_LABEL] (InboundRequestDuration s))"

lemma vec_ok_Some: "vec_ok k ls v \<longleftrightarrow> (\<exists>w. v = Some w \<and> Kind w = k \<and> set (LabelNames w) = set ls)"
  by (auto simp: vec_ok_def split: option.splits)

lemma calls_ok_Add:
  "vec_ok CounterVec ls v \<Longrightarrow> distinct (map fst l) \<Longrightarrow> set (map fst l) = set ls \<Longrightarrow>
     calls_ok (with_vec v (\<lambda>w. Add w l))"
  by (auto simp: vec_ok_Some with_vec_def)

lemma calls_ok_Observe:
  "vec_ok HistogramVec ls v \<Longrightarrow> distinct (map fst l) \<Longrightarrow> set (map fst l) = set ls \<Longrightarrow>
     calls_ok (with_vec v (\<lambda>w. Observe w l d))"
  by (auto simp: vec_ok_Some with_vec_def)

lemma sbi_labels_distinct:
  "distinct [OUT_TARGET_SERVICE_NAME_LABEL, OUT_STATUS_CODE_LABEL, OUT_METHOD_LABEL]"
  "distinct [IN_STATUS_CODE_LABEL, IN_METHOD_LABEL, IN_CAUSE_LABEL, IN_PATH_LABEL]"
  by (simp_all add: sbi_label_defs)

lemma sbi_calls_ok:
  assumes "sbi_ok s"
  shows "calls_ok (SbiMetricHook s method name code d)"
    "calls_ok (IncrInboundReqCounter s method path code cause)"
    "calls_ok (IncrInboundReqDurationCounter s method path code d)"
proof -
  note ok = assms [unfolded sbi_ok_def]
  have "calls_ok (incrOutboundReqCounter s method name code)"
    unfolding incrOutboundReqCounter_def IsSbiMetricsEnabled_def
    using ok sbi_labels_distinct(1) by (auto intro!: calls_ok_Add)
  moreover have "calls_ok (incrOutboundReqDurationCounter s method name code d)"
    unfolding incrOutboundReqDurationCounter_def IsSbiMetricsEnabled_def
    using ok sbi_labels_distinct(1) by (auto intro!: calls_ok_Observe)
  ultimately show "calls_ok (SbiMetricHook s method name code d)"
    unfolding SbiMetricHook_def by (rule calls_ok_seq)
  show "calls_ok (IncrInboundReqCounter s method path code cause)"
    unfolding IncrInboundReqCounter_def IsSbiMetricsEnabled_def
    using ok sbi_labels_distinct(2) by (auto intro!: calls_ok_Add)
  show "calls_ok (IncrInboundReqDurationCounter s method path code d)"
    unfolding IncrInboundReqDurationCounter_def IsSbiMetricsEnabled_def
    using ok sbi_labels_distinct(2) by (auto intro!: calls_ok_Observe)
qed

lemma sbi_ok_Get:
  assumes "snd (GetSbiInboundMetrics ns (snd (GetSbiOutboundMetrics ns s))) = s'"
  shows "sbi_ok (EnableSbiMetrics s')"
  using assms
  by (auto simp: GetSbiInboundMetrics_def GetSbiOutboundMetrics_def Let_def sbi_ok_def EnableSbiMetrics_def vec_ok_def)

lemma sbi_ok_cong [simp]:
  "sbi_ok (s\<lparr>businessMetricsEnabled := b\<rparr>) = sbi_ok s" "sbi_ok (s\<lparr>nasMetricsEnabled := b\<rparr>) = sbi_ok s"
  "sbi_ok (s\<lparr>ngapMetricsEnabled := b\<rparr>) = sbi_ok s"
  "sbi_ok (s\<lparr>NasMsgRcvCounter := v, NasMsgSentCounter := w\<rparr>) = sbi_ok s"
  "sbi_ok (s\<lparr>MsgRcvCounter := v, MsgSentCounter := w\<rparr>) = sbi_ok s"
  by (simp_all add: sbi_ok_def)

end
