(* ===== verification/NgapMetrics.thy ===== *)
theory NgapMetrics
  imports MetricsBase "HOL-Library.Countable"
begin

text \<open>
  \<^verbatim>\<open>lib/util/metrics/ngap\<close>: the counters of NGAP messages and the texts of NGAP causes. The numbers of the
  causes are constants of the external package \<^verbatim>\<open>ngapType\<close>: they are a parameter \<open>C\<close> that maps the name of a
  constant to its value. A switch over the constants is a list of cases, tried in order.
\<close>

section \<open>Names\<close>

definition NGAP_SUBSYSTEM_NAME :: string where "NGAP_SUBSYSTEM_NAME = ''ngap''"
definition MSG_RCV_COUNTER_NAME :: string where "MSG_RCV_COUNTER_NAME = ''msg_received_total''"
definition MSG_RCV_COUNTER_DESC :: string where "MSG_RCV_COUNTER_DESC = ''Total number of received NGAP message''"
definition MSG_SENT_COUNTER_NAME :: string where "MSG_SENT_COUNTER_NAME = ''msg_sent_total''"
definition MSG_SENT_COUNTER_DESC :: string where "MSG_SENT_COUNTER_DESC = ''Total number of NGAP message sent''"
definition NAME_LABEL :: string where "NAME_LABEL = ''name''"
definition STATUS_LABEL :: string where "STATUS_LABEL = ''status''"
definition CAUSE_LABEL :: string where "CAUSE_LABEL = ''cause''"
definition UNKNOWN_NGAP_TYPE_CAUSE_ERR :: string where "UNKNOWN_NGAP_TYPE_CAUSE_ERR = ''unknown ngapType.Cause''"

lemmas message_label_defs = NAME_LABEL_def STATUS_LABEL_def CAUSE_LABEL_def

text \<open>The message names and the additional causes, by the constants that hold them.\<close>

definition ngap_message_types :: "(string \<times> string) list" where
  "ngap_message_types =
     [(''AMF_CONFIGURATION_UPDATE'', ''AMFConfigurationUpdate''),
      (''AMF_CONFIGURATION_UPDATE_ACKNOWLEDGE'', ''AMFConfigurationUpdateAcknowledge''),
      (''AMF_CONFIGURATION_UPDATE_FAILURE'', ''AMFConfigurationUpdateFailure''),
      (''AMF_STATUS_INDICATION'', ''AMFStatusIndication''),
      (''DEACTIVATE_TRACE'', ''DeactivateTrace''),
      (''DOWNLINK_NAS_TRANSPORT'', ''DownlinkNasTransport''),
      (''DOWNLINK_NON_UE_ASSOCIATED_NRPPA_TRANSPORT'', ''DownlinkNonUEAssociatedNRPPATransport''),
      (''DOWNLINK_RAN_CONFIGURATION_TRANSFER'', ''DownlinkRanConfigurationTransfer''),
      (''DOWNLINK_RAN_STATUS_TRANSFER'', ''DownlinkRanStatusTransfer''),
      (''DOWNLINK_UE_ASSOCIATED_NRPPA_TRANSPORT'', ''DownlinkUEAssociatedNRPPaTransport''),
      (''ERROR_INDICATION'', ''ErrorIndication''),
      (''ERROR_INDICATION_WITH_SCTP_CONN'', ''ErrorIndicationWithSctpConn''),
      (''HANDOVER_CANCEL_ACKNOWLEDGE'', ''HandoverCancelAcknowledge''),
      (''HANDOVER_COMMAND'', ''HandoverCommand''),
      (''HANDOVER_PREPARATION_FAILURE'', ''HandoverPreparationFailure''),
      (''HANDOVER_REQUEST'', ''HandoverRequest''),
      (''INITIAL_CONTEXT_SETUP_REQUEST'', ''InitialContextSetupRequest''),
      (''INITIAL_CONTEXT_SETUP_RESPONSE'', ''InitialContextSetupResponse''),
      (''INITIAL_UE_MESSAGE'', ''InitialUeMessage''),
      (''LOCATION_REPORTING_CONTROL'', ''LocationReportingControl''),
      (''NAS_NON_DELIVERY_INDICATION'', ''NasNonDeliveryIndication''),
      (''NG_RESET'', ''NGReset''),
      (''NG_RESET_ACKNOWLEDGE'', ''NGResetAcknowledge''),
      (''NG_SETUP_FAILURE'', ''NGSetupFailure''),
      (''NG_SETUP_REQUEST'', ''NGSetupRequest''),
      (''NG_SETUP_RESPONSE'', ''NGSetupResponse''),
      (''OVERLOAD_START'', ''OverloadStart''),
      (''OVERLOAD_STOP'', ''OverloadStop''),
      (''PAGING'', ''Paging''),
      (''PATH_SWITCH_REQUEST_ACKNOWLEDGE'', ''PathSwitchRequestAcknowledge''),
      (''PATH_SWITCH_REQUEST_FAILURE'', ''PathSwitchRequestFailure''),
      (''PDUSESSION_RESOURCE_MODIFY_CONFIRM'', ''PDUSessionResourceModifyConfirm''),
      (''PDUSESSION_RESOURCE_MODIFY_INDICATION'', ''PDUSessionResourceModifyIndication''),
      (''PDUSESSION_RESOURCE_MODIFY_REQUEST'', ''PDUSessionResourceModifyRequest''),
      (''PDUSESSION_RESOURCE_MODIFY_RESPONSE'', ''PDUSessionResourceModifyResponse''),
      (''PDUSESSION_RESOURCE_NOTIFY'', ''PDUSessionResourceNotify''),
      (''PDUSESSION_RESOURCE_RELEASE_COMMAND'', ''PDUSessionResourceReleaseCommand''),
      (''PDUSESSION_RESOURCE_RELEASE_RESPONSE'', ''PDUSessionResourceReleaseResponse''),
      (''PDUSESSION_RESOURCE_SETUP_REQUEST'', ''PDUSessionResourceSetupRequest''),
      (''PDUSESSION_RESOURCE_SETUP_RESPONSE'', ''PDUSessionResourceSetupResponse''),
      (''RAN_CONFIGURATION_UPDATE_ACKNOWLEDGE'', ''RanConfigurationUpdateAcknowledge''),
      (''RAN_CONFIGURATION_UPDATE_FAILURE'', ''RanConfigurationUpdateFailure''),
      (''RAN_CONFIGURATION_UPDATE_UPDATE'', ''RanConfigurationUpdateUpdate''),
      (''REROUTE_NAS_REQUEST'', ''RerouteNasRequest''),
      (''UE_CONTEXT_MODIFICATION_FAILURE'', ''UEContextModificationFailure''),
      (''UE_CONTEXT_MODIFICATION_REQUEST'', ''UEContextModificationRequest''),
      (''UE_CONTEXT_MODIFICATION_RESPONSE'', ''UEContextModificationResponse''),
      (''UE_CONTEXT_RELEASE_COMMAND'', ''UEContextReleaseCommand''),
      (''UE_CONTEXT_RELEASE_COMPLETE'', ''UEContextReleaseComplete''),
      (''UE_CONTEXT_RELEASE_REQUEST'', ''UEContextReleaseRequest''),
      (''UE_RADIO_CAPABILITY_CHECK_REQUEST'', ''UERadioCapabilityCheckRequest''),
      (''UE_RADIO_CAPABILITY_CHECK_RESPONSE'', ''UERadioCapabilityCheckResponse''),
      (''UE_TNLA_BINDING_RELEASE_REQUEST'', ''UETNLABindingReleaseRequest''),
      (''UPLINK_NAS_TRANSPORT'', ''UplinkNasTransport'')]"

definition ngap_error_causes :: "(string \<times> string) list" where
  "ngap_error_causes =
     [(''AMF_TRAFFIC_LOAD_REDUCTION_INDICATION_OOO_ERR'', ''AmfTrafficLoadReductionIndication out of range (should be 1 ~ 99)''),
      (''AMF_TIME_REINIT_ERR'', ''Please Wait at least for the indicated time before reinitiating toward same AMF''),
      (''AMF_UE_NIL_ERR'', ''AmfUe is nil''),
      (''AOI_LIST_OOR_ERR'', ''AOI List out of range''),
      (''CAUSE_NIL_ERR'', ''Cause present is nil''),
      (''ERROR_INDICATION_CAUSE_AND_CRITICALITY_NIL_ERR'', ''Both cause and criticality are nil, one of them should be set in the message''),
      (''GUAMI_LIST_OOR_ERR'', ''GUAMI List out of range''),
      (''HANDOVER_REQUIRED_DUP_ERR'', ''Handover Required Duplicated''),
      (''LOCATION_REPORTING_REFERENCE_ID_OOR_ERR'', ''LocationReportingReferenceIDToBeCancelled out of range (should be 1 ~ 64)''),
      (''NAS_PDU_NIL_ERR'', ''Nas Pdu is nil''),
      (''NGAP_MSG_BUILD_ERR'', ''Could not build NAS message''),
      (''NGAP_MSG_NIL_ERR'', ''Ngap Message is nil''),
      (''NF_INTERFACE_LEN_ZERO_ERR'', ''length of partOfNGInterface is 0''),
      (''NRPPA_LEN_ZERO_ERR'', ''length of NRPPA-PDU is 0''),
      (''NSSAI_LIST_OOR_ERR'', ''NSSAI List out of range''),
      (''PDU_SESS_RESOURCE_MODIFY_LIST_NIL_ERR'', ''PDU Session Resource Modify List indication is nil''),
      (''PDU_SESS_RESOURCE_RELEASED_LIST_NIL_ERR'', ''Pdu Session Resource Release List is nil''),
      (''PDU_SESS_RESOURCE_SWITCH_OOO_ERR'', ''Pdu Session Resource Switched List out of range''),
      (''PDU_LIST_OOR_ERR'', ''Pdu List out of range''),
      (''RAN_NIL_ERR'', ''Ran is nil''),
      (''RAN_UE_NIL_ERR'', ''RanUe is nil''),
      (''SCTP_SOCKET_WRITE_ERR'', ''Write to SCTP socket failed''),
      (''SOURCE_UE_NIL_ERR'', ''SourceUe is nil''),
      (''SRC_TO_TARGET_TRANSPARENT_CONTAINER_NIL_ERR'', ''Source To Target TransparentContainer is nil''),
      (''TARGET_RAN_NIL_ERR'', ''targetRan is nil''),
      (''UE_CTX_NIL'', ''Ue context is nil''),
      (''UNKNOWN_NGAP_TYPE_CAUSE_ERR'', ''unknown ngapType.Cause'')]"

section \<open>Causes\<close>

text \<open>A pointer to a cause of one class is the value it holds, or none.\<close>

record ngap_cause =
  Present :: int
  RadioNetwork :: "int option"
  Transport :: "int option"
  Nas :: "int option"
  Protocol :: "int option"
  Misc :: "int option"
  ChoiceExtensions :: "unit option"

fun switch :: "(string \<Rightarrow> int) \<Rightarrow> int \<Rightarrow> (string \<times> 'a) list \<Rightarrow> 'a \<Rightarrow> 'a" where
  "switch C v [] d = d"
| "switch C v ((n, r) # cs) d = (if v = C n then r else switch C v cs d)"

definition radio_network_cases :: "(string \<times> string) list" where
  "radio_network_cases =
     [(''CauseRadioNetworkPresentUnspecified'', ''RadioNetwork : Unspecified''),
      (''CauseRadioNetworkPresentTxnrelocoverallExpiry'', ''RadioNetwork : TxnrelocoverallExpiry''),
      (''CauseRadioNetworkPresentSuccessfulHandover'', ''RadioNetwork : SuccessfulHandover''),
      (''CauseRadioNetworkPresentReleaseDueToNgranGeneratedReason'', ''RadioNetwork : ReleaseDueToNgranGeneratedReason''),
      (''CauseRadioNetworkPresentReleaseDueTo5gcGeneratedReason'', ''RadioNetwork : ReleaseDueTo5gcGeneratedReason''),
      (''CauseRadioNetworkPresentHandoverCancelled'', ''RadioNetwork : HandoverCancelled''),
      (''CauseRadioNetworkPresentPartialHandover'', ''RadioNetwork : PartialHandover''),
      (''CauseRadioNetworkPresentHoFailureInTarget5GCNgranNodeOrTargetSystem'', ''RadioNetwork : HoFailureInTarget5GCNgranNodeOrTargetSystem''),
      (''CauseRadioNetworkPresentHoTargetNotAllowed'', ''RadioNetwork : HoTargetNotAllowed''),
      (''CauseRadioNetworkPresentTngrelocoverallExpiry'', ''RadioNetwork : TngrelocoverallExpiry''),
      (''CauseRadioNetworkPresentTngrelocprepExpiry'', ''RadioNetwork : TngrelocprepExpiry''),
      (''CauseRadioNetworkPresentCellNotAvailable'', ''RadioNetwork : CellNotAvailable''),
      (''CauseRadioNetworkPresentUnknownTargetID'', ''RadioNetwork : UnknownTargetID''),
      (''CauseRadioNetworkPresentNoRadioResourcesAvailableInTargetCell'', ''RadioNetwork : NoRadioResourcesAvailableInTargetCell''),
      (''CauseRadioNetworkPresentUnknownLocalUENGAPID'', ''RadioNetwork : UnknownLocalUENGAPID''),
      (''CauseRadioNetworkPresentInconsistentRemoteUENGAPID'', ''RadioNetwork : InconsistentRemoteUENGAPID''),
      (''CauseRadioNetworkPresentHandoverDesirableForRadioReason'', ''RadioNetwork : HandoverDesirableForRadioReason''),
      (''CauseRadioNetworkPresentTimeCriticalHandover'', ''RadioNetwork : TimeCriticalHandover''),
      (''CauseRadioNetworkPresentResourceOptimisationHandover'', ''RadioNetwork : ResourceOptimisationHandover''),
      (''CauseRadioNetworkPresentReduceLoadInServingCell'', ''RadioNetwork : ReduceLoadInServingCell''),
      (''CauseRadioNetworkPresentUserInactivity'', ''RadioNetwork : UserInactivity''),
      (''CauseRadioNetworkPresentRadioConnectionWithUeLost'', ''RadioNetwork : RadioConnectionWithUeLost''),
      (''CauseRadioNetworkPresentRadioResourcesNotAvailable'', ''RadioNetwork : RadioResourcesNotAvailable''),
      (''CauseRadioNetworkPresentInvalidQosCombination'', ''RadioNetwork : InvalidQosCombination''),
      (''CauseRadioNetworkPresentFailureInRadioInterfaceProcedure'', ''RadioNetwork : FailureInRadioInterfaceProcedure''),
      (''CauseRadioNetworkPresentInteractionWithOtherProcedure'', ''RadioNetwork : InteractionWithOtherProcedure''),
      (''CauseRadioNetworkPresentUnknownPDUSessionID'', ''RadioNetwork : UnknownPDUSessionID''),
      (''CauseRadioNetworkPresentUnkownQosFlowID'', ''RadioNetwork : UnkownQosFlowID''),
      (''CauseRadioNetworkPresentMultiplePDUSessionIDInstances'', ''RadioNetwork : MultiplePDUSessionIDInstances''),
      (''CauseRadioNetworkPresentMultipleQosFlowIDInstances'', ''RadioNetwork : MultipleQosFlowIDInstances''),
      (''CauseRadioNetworkPresentEncryptionAndOrIntegrityProtectionAlgorithmsNotSupported'', ''RadioNetwork : EncryptionAndOrIntegrityProtectionAlgorithmsNotSupported''),
      (''CauseRadioNetworkPresentNgIntraSystemHandoverTriggered'', ''RadioNetwork : NgIntraSystemHandoverTriggered''),
      (''CauseRadioNetworkPresentNgInterSystemHandoverTriggered'', ''RadioNetwork : NgInterSystemHandoverTriggered''),
      (''CauseRadioNetworkPresentXnHandoverTriggered'', ''RadioNetwork : XnHandoverTriggered''),
      (''CauseRadioNetworkPresentNotSupported5QIValue'', ''RadioNetwork : NotSupported5QIValue''),
      (''CauseRadioNetworkPresentUeContextTransfer'', ''RadioNetwork : UeContextTransfer''),
      (''CauseRadioNetworkPresentImsVoiceEpsFallbackOrRatFallbackTriggered'', ''RadioNetwork : ImsVoiceEpsFallbackOrRatFallbackTriggered''),
      (''CauseRadioNetworkPresentUpIntegrityProtectionNotPossible'', ''RadioNetwork : UpIntegrityProtectionNotPossible''),
      (''CauseRadioNetworkPresentUpConfidentialityProtectionNotPossible'', ''RadioNetwork : UpConfidentialityProtectionNotPossible''),
      (''CauseRadioNetworkPresentSliceNotSupported'', ''RadioNetwork : SliceNotSupported''),
      (''CauseRadioNetworkPresentUeInRrcInactiveStateNotReachable'', ''RadioNetwork : UeInRrcInactiveStateNotReachable''),
      (''CauseRadioNetworkPresentRedirection'', ''RadioNetwork : Redirection''),
      (''CauseRadioNetworkPresentResourcesNotAvailableForTheSlice'', ''RadioNetwork : ResourcesNotAvailableForTheSlice''),
      (''CauseRadioNetworkPresentUeMaxIntegrityProtectedDataRateReason'', ''RadioNetwork : UeMaxIntegrityProtectedDataRateReason''),
      (''CauseRadioNetworkPresentReleaseDueToCnDetectedMobility'', ''RadioNetwork : ReleaseDueToCnDetectedMobility''),
      (''CauseRadioNetworkPresentN26InterfaceNotAvailable'', ''RadioNetwork : N26InterfaceNotAvailable''),
      (''CauseRadioNetworkPresentReleaseDueToPreEmption'', ''RadioNetwork : ReleaseDueToPreEmption'')]"

definition getCauseRadioNetworkErrorStr :: "(string \<Rightarrow> int) \<Rightarrow> int option \<Rightarrow> string exec" where
  "getCauseRadioNetworkErrorStr C cause =
     (case cause of
        None \<Rightarrow> Panics NilDereference
      | Some v \<Rightarrow> Returns (switch C v radio_network_cases ''unknown cause''))"

definition transport_cases :: "(string \<times> string) list" where
  "transport_cases =
     [(''CauseTransportPresentTransportResourceUnavailable'', ''Transport : TransportResourceUnavailable''),
      (''CauseTransportPresentUnspecified'', ''Transport : Unspecified'')]"

definition getCauseTransportErrorStr :: "(string \<Rightarrow> int) \<Rightarrow> int option \<Rightarrow> string exec" where
  "getCauseTransportErrorStr C cause =
     (case cause of
        None \<Rightarrow> Panics NilDereference
      | Some v \<Rightarrow> Returns (switch C v transport_cases ''unknown cause''))"

definition nas_cases :: "(string \<times> string) list" where
  "nas_cases =
     [(''CauseNasPresentNormalRelease'', ''Nas : NormalRelease''),
      (''CauseNasPresentAuthenticationFailure'', ''Nas : AuthenticationFailure''),
      (''CauseNasPresentDeregister'', ''Nas : Deregister''),
      (''CauseNasPresentUnspecified'', ''Nas : Unspecified'')]"

definition getCauseNasErrorStr :: "(string \<Rightarrow> int) \<Rightarrow> int option \<Rightarrow> string exec" where
  "getCauseNasErrorStr C cause =
     (case cause of
        None \<Rightarrow> Panics NilDereference
      | Some v \<Rightarrow> Returns (switch C v nas_cases ''unknown cause''))"

definition protocol_cases :: "(string \<times> string) list" where
  "protocol_cases =
     [(''CauseProtocolPresentTransferSyntaxError'', ''Protocol : TransferSyntaxError''),
      (''CauseProtocolPresentAbstractSyntaxErrorReject'', ''Protocol : AbstractSyntaxErrorReject''),
      (''CauseProtocolPresentAbstractSyntaxErrorIgnoreAndNotify'', ''Protocol : AbstractSyntaxErrorIgnoreAndNotify''),
      (''CauseProtocolPresentMessageNotCompatibleWithReceiverState'', ''Protocol : MessageNotCompatibleWithReceiverState''),
      (''CauseProtocolPresentSemanticError'', ''Protocol : SemanticError''),
      (''CauseProtocolPresentAbstractSyntaxErrorFalselyConstructedMessage'', ''Protocol : AbstractSyntaxErrorFalselyConstructedMessage''),
      (''CauseProtocolPresentUnspecified'', ''Protocol : Unspecified'')]"

definition getCauseProtocolErrorStr :: "(string \<Rightarrow> int) \<Rightarrow> int option \<Rightarrow> string exec" where
  "getCauseProtocolErrorStr C cause =
     (case cause of
        None \<Rightarrow> Panics NilDereference
      | Some v \<Rightarrow> Returns (switch C v protocol_cases ''unknown cause''))"

definition misc_cases :: "(string \<times> string) list" where
  "misc_cases =
     [(''CauseMiscPresentControlProcessingOverload'', ''Misc : ControlProcessingOverload''),
      (''CauseMiscPresentNotEnoughUserPlaneProcessingResources'', ''Misc : NotEnoughUserPlaneProcessingResources''),
      (''CauseMiscPresentHardwareFailure'', ''Misc : HardwareFailure''),
      (''CauseMiscPresentOmIntervention'', ''Misc : OmIntervention''),
      (''CauseMiscPresentUnknownPLMN'', ''Misc : UnknownPLMN''),
      (''CauseMiscPresentUnspecified'', ''Misc : Unspecified'')]"

definition getCauseMiscErrorStr :: "(string \<Rightarrow> int) \<Rightarrow> int option \<Rightarrow> string exec" where
  "getCauseMiscErrorStr C cause =
     (case cause of
        None \<Rightarrow> Panics NilDereference
      | Some v \<Rightarrow> Returns (switch C v misc_cases ''unknown cause''))"

definition getCauseChoiceExtensionsErrorStr :: "unit option \<Rightarrow> string exec" where
  "getCauseChoiceExtensionsErrorStr cause = Returns ''ChoiceExtensions : Unknown error''"

definition GetCauseErrorStr :: "(string \<Rightarrow> int) \<Rightarrow> ngap_cause option \<Rightarrow> string exec" where
  "GetCauseErrorStr C cause =
     (case cause of
        None \<Rightarrow> Returns UNKNOWN_NGAP_TYPE_CAUSE_ERR
      | Some c \<Rightarrow> switch C (Present c)
          [(''CausePresentRadioNetwork'', getCauseRadioNetworkErrorStr C (RadioNetwork c)),
           (''CausePresentTransport'', getCauseTransportErrorStr C (Transport c)),
           (''CausePresentNas'', getCauseNasErrorStr C (Nas c)),
           (''CausePresentProtocol'', getCauseProtocolErrorStr C (Protocol c)),
           (''CausePresentMisc'', getCauseMiscErrorStr C (Misc c)),
           (''CausePresentChoiceExtensions'', getCauseChoiceExtensionsErrorStr (ChoiceExtensions c))]
          (Returns UNKNOWN_NGAP_TYPE_CAUSE_ERR))"

section \<open>Counters\<close>

definition IsNgapMetricsEnabled :: "metrics_state \<Rightarrow> bool" where
  "IsNgapMetricsEnabled s = ngapMetricsEnabled s"

definition EnableNgapMetrics :: "metrics_state \<Rightarrow> metrics_state" where
  "EnableNgapMetrics s = s\<lparr>ngapMetricsEnabled := True\<rparr>"

definition GetNgapHandlerMetrics :: "string \<Rightarrow> metrics_state \<Rightarrow> vec list \<times> metrics_state" where
  "GetNgapHandlerMetrics namespace s =
     (let r = \<lparr>Kind = CounterVec, Namespace = namespace, Subsystem = NGAP_SUBSYSTEM_NAME,
               VecName = MSG_RCV_COUNTER_NAME, Help = MSG_RCV_COUNTER_DESC, Buckets = [],
               LabelNames = [NAME_LABEL, STATUS_LABEL, CAUSE_LABEL]\<rparr>;
          t = \<lparr>Kind = CounterVec, Namespace = namespace, Subsystem = NGAP_SUBSYSTEM_NAME,
               VecName = MSG_SENT_COUNTER_NAME, Help = MSG_SENT_COUNTER_DESC, Buckets = [],
               LabelNames = [NAME_LABEL, STATUS_LABEL, CAUSE_LABEL]\<rparr>
      in ([r, t], s\<lparr>MsgRcvCounter := Some r, MsgSentCounter := Some t\<rparr>))"

definition IncrMetricsRcvMsg ::
    "(string \<Rightarrow> int) \<Rightarrow> metrics_state \<Rightarrow> string \<Rightarrow> bool option \<Rightarrow> ngap_cause option \<Rightarrow> 'd metric_call list exec" where
  "IncrMetricsRcvMsg C s msgType metricStatusSuccess syntaxCause =
     (if IsNgapMetricsEnabled s
      then exec_bind
        (case syntaxCause of
           Some c \<Rightarrow> if Present c \<noteq> 0 then GetCauseErrorStr C syntaxCause else Returns []
         | None \<Rightarrow> Returns [])
        (\<lambda>msgCause. with_vec (MsgRcvCounter s) (\<lambda>v. Add v
          [(NAME_LABEL, msgType), (STATUS_LABEL, GetStatus metricStatusSuccess), (CAUSE_LABEL, msgCause)]))
      else Returns [])"

definition IncrMetricsSentMsg ::
    "(string \<Rightarrow> int) \<Rightarrow> metrics_state \<Rightarrow> string \<Rightarrow> bool option \<Rightarrow> ngap_cause \<Rightarrow> string option \<Rightarrow>
      'd metric_call list exec" where
  "IncrMetricsSentMsg C s msgType metricStatusSuccess syntaxCause otherCause =
     (if IsNgapMetricsEnabled s
      then exec_bind (GetCauseErrorStr C (Some syntaxCause)) (\<lambda>causeErrStr.
        let msgCause = (if causeErrStr \<noteq> UNKNOWN_NGAP_TYPE_CAUSE_ERR then causeErrStr
                        else case otherCause of Some cause \<Rightarrow> cause | None \<Rightarrow> [])
        in with_vec (MsgSentCounter s) (\<lambda>v. Add v
          [(NAME_LABEL, msgType), (STATUS_LABEL, GetStatus metricStatusSuccess), (CAUSE_LABEL, msgCause)]))
      else Returns [])"

section \<open>The texts of the causes\<close>

definition cause_cases :: "(string \<times> (string \<times> string) list) list" where
  "cause_cases = [(''RadioNetwork'', radio_network_cases), (''Transport'', transport_cases), (''Nas'', nas_cases),
     (''Protocol'', protocol_cases), (''Misc'', misc_cases)]"

definition cause_field :: "string \<Rightarrow> ngap_cause \<Rightarrow> int option" where
  "cause_field cls c =
     (if cls = ''RadioNetwork'' then RadioNetwork c else if cls = ''Transport'' then Transport c
      else if cls = ''Nas'' then Nas c else if cls = ''Protocol'' then Protocol c
      else if cls = ''Misc'' then Misc c else None)"

definition cause_classes :: "string list" where
  "cause_classes = [''RadioNetwork'', ''Transport'', ''Nas'', ''Protocol'', ''Misc'', ''ChoiceExtensions'']"

text \<open>
  The cases of one switch have different values: the Go compiler rejects a switch in which two constant cases are
  equal.
\<close>

definition ngap_consts_ok :: "(string \<Rightarrow> int) \<Rightarrow> bool" where
  "ngap_consts_ok C \<longleftrightarrow> distinct (map (\<lambda>cls. C (''CausePresent'' @ cls)) cause_classes) \<and>
     (\<forall>(cls, cs) \<in> set cause_cases. distinct (map (C \<circ> fst) cs))"

lemma switch_hit: "distinct (map (C \<circ> fst) cs) \<Longrightarrow> (n, r) \<in> set cs \<Longrightarrow> switch C (C n) cs d = r"
proof (induction cs)
  case (Cons e cs)
  show ?case
  proof (cases "e = (n, r)")
    case False
    with Cons.prems have "(n, r) \<in> set cs" by simp
    then have "C n \<in> set (map (C \<circ> fst) cs)" by force
    moreover have "C (fst e) \<notin> set (map (C \<circ> fst) cs)" using Cons.prems(1) by simp
    ultimately have "C n \<noteq> C (fst e)" by metis
    with Cons \<open>(n, r) \<in> set cs\<close> show ?thesis by (cases e) simp
  qed simp
qed simp

lemma switch_miss: "v \<notin> C ` fst ` set cs \<Longrightarrow> switch C v cs d = d"
  by (induction cs) auto

lemmas case_table_defs = radio_network_cases_def transport_cases_def nas_cases_def protocol_cases_def misc_cases_def

lemma case_texts:
  "list_all (\<lambda>(cls, cs). list_all (\<lambda>(n, r). r = cls @ '' : '' @ drop (length (''Cause'' @ cls @ ''Present'')) n) cs) cause_cases"
  by (simp add: cause_cases_def case_table_defs)

lemma case_texts_distinct: "distinct (map snd (concat (map snd cause_cases)))"
  by (simp add: cause_cases_def case_table_defs)

lemma case_text:
  assumes "(cls, cs) \<in> set cause_cases" "(n, r) \<in> set cs"
  shows "r = cls @ '' : '' @ drop (length (''Cause'' @ cls @ ''Present'')) n"
  using case_texts assms unfolding list_all_iff by fastforce

text \<open>Any injective assignment of values to the names will do.\<close>

lemma inj_ngap_consts_ok:
  assumes "inj C" shows "ngap_consts_ok C"
proof -
  have "distinct (map (C \<circ> fst) cs)" if cs: "(cls, cs) \<in> set cause_cases" for cls cs
  proof -
    let ?g = "\<lambda>n. cls @ '' : '' @ drop (length (''Cause'' @ cls @ ''Present'')) n"
    obtain xs ys where "map snd cause_cases = xs @ cs # ys"
      using cs by (metis image_eqI in_set_conv_decomp list.set_map snd_conv)
    then have "distinct (map snd cs)" using case_texts_distinct by simp
    moreover have "map snd cs = map ?g (map fst cs)"
      unfolding map_map by (rule map_cong [OF refl]) (metis case_text [OF cs] comp_apply prod.collapse)
    ultimately have "distinct (map fst cs)" by (metis distinct_map)
    then show ?thesis using assms by (simp add: distinct_map comp_inj_on inj_on_subset)
  qed
  moreover have "distinct (map (\<lambda>cls. C (''CausePresent'' @ cls)) cause_classes)"
    using assms by (simp add: cause_classes_def inj_eq)
  ultimately show ?thesis by (auto simp: ngap_consts_ok_def)
qed

lemma GetCauseErrorStr_class:
  assumes "ngap_consts_ok C" "(cls, cs) \<in> set cause_cases" "Present c = C (''CausePresent'' @ cls)"
  shows "GetCauseErrorStr C (Some c) =
    (case cause_field cls c of None \<Rightarrow> Panics NilDereference | Some v \<Rightarrow> Returns (switch C v cs ''unknown cause''))"
proof -
  have d: "distinct (map (\<lambda>cls. C (''CausePresent'' @ cls)) cause_classes)"
    using assms(1) by (simp add: ngap_consts_ok_def)
  then have d': "distinct (rev (map (\<lambda>cls. C (''CausePresent'' @ cls)) cause_classes))" by simp
  from assms(2) consider
    "cls = ''RadioNetwork''" "radio_network_cases = cs" | "cls = ''Transport''" "transport_cases = cs"
    | "cls = ''Nas''" "nas_cases = cs" | "cls = ''Protocol''" "protocol_cases = cs" | "cls = ''Misc''" "misc_cases = cs"
    unfolding cause_cases_def by auto
  then show ?thesis
    using d d' assms(3)
    by cases (simp_all add: GetCauseErrorStr_def cause_field_def cause_classes_def getCauseRadioNetworkErrorStr_def
        getCauseTransportErrorStr_def getCauseNasErrorStr_def getCauseProtocolErrorStr_def getCauseMiscErrorStr_def
        split: option.split)
qed

definition ngap_ok :: "metrics_state \<Rightarrow> bool" where
  "ngap_ok s \<longleftrightarrow> (ngapMetricsEnabled s \<longrightarrow>
     vec_ok CounterVec [NAME_LABEL, STATUS_LABEL, CAUSE_LABEL] (MsgRcvCounter s) \<and>
     vec_ok CounterVec [NAME_LABEL, STATUS_LABEL, CAUSE_LABEL] (MsgSentCounter s))"

lemma message_labels_distinct: "distinct [NAME_LABEL, STATUS_LABEL, CAUSE_LABEL]"
  by (simp add: message_label_defs)

lemma calls_ok_message:
  assumes "vec_ok CounterVec [NAME_LABEL, STATUS_LABEL, CAUSE_LABEL] v"
  shows "calls_ok (with_vec v (\<lambda>w. Add w [(NAME_LABEL, a), (STATUS_LABEL, b), (CAUSE_LABEL, c)]))"
  using assms message_labels_distinct by (intro calls_ok_Add) auto

text \<open>A cause is sound when the class it announces is filled in.\<close>

definition cause_sound :: "(string \<Rightarrow> int) \<Rightarrow> ngap_cause \<Rightarrow> bool" where
  "cause_sound C c \<longleftrightarrow> (\<forall>(cls, cs) \<in> set cause_cases. Present c = C (''CausePresent'' @ cls) \<longrightarrow> cause_field cls c \<noteq> None)"

lemma GetCauseErrorStr_returns:
  assumes "cause_sound C c" shows "\<exists>t. GetCauseErrorStr C (Some c) = Returns t"
proof -
  have field: "cause_field cls c \<noteq> None" if "(cls, cs) \<in> set cause_cases" "Present c = C (''CausePresent'' @ cls)" for cls cs
    using assms that by (auto simp: cause_sound_def)
  have "RadioNetwork c \<noteq> None" if "Present c = C ''CausePresentRadioNetwork''"
    using field [of "''RadioNetwork''" radio_network_cases] that by (simp add: cause_cases_def cause_field_def)
  moreover have "Transport c \<noteq> None" if "Present c = C ''CausePresentTransport''"
    using field [of "''Transport''" transport_cases] that by (simp add: cause_cases_def cause_field_def)
  moreover have "Nas c \<noteq> None" if "Present c = C ''CausePresentNas''"
    using field [of "''Nas''" nas_cases] that by (simp add: cause_cases_def cause_field_def)
  moreover have "Protocol c \<noteq> None" if "Present c = C ''CausePresentProtocol''"
    using field [of "''Protocol''" protocol_cases] that by (simp add: cause_cases_def cause_field_def)
  moreover have "Misc c \<noteq> None" if "Present c = C ''CausePresentMisc''"
    using field [of "''Misc''" misc_cases] that by (simp add: cause_cases_def cause_field_def)
  ultimately show ?thesis
    by (auto simp: GetCauseErrorStr_def getCauseRadioNetworkErrorStr_def
        getCauseTransportErrorStr_def getCauseNasErrorStr_def getCauseProtocolErrorStr_def getCauseMiscErrorStr_def
        getCauseChoiceExtensionsErrorStr_def)
qed

lemma ngap_calls_ok:
  assumes "ngap_ok s"
  shows "(\<forall>c. cause = Some c \<longrightarrow> cause_sound C c) \<Longrightarrow> calls_ok (IncrMetricsRcvMsg C s msgType ok cause)"
    and "cause_sound C c \<Longrightarrow> calls_ok (IncrMetricsSentMsg C s msgType ok c otherCause)"
proof -
  note ok = assms [unfolded ngap_ok_def]
  assume sound: "\<forall>c. cause = Some c \<longrightarrow> cause_sound C c"
  obtain t where t: "(case cause of Some c \<Rightarrow> if Present c \<noteq> 0 then GetCauseErrorStr C cause else Returns []
      | None \<Rightarrow> Returns []) = Returns t"
    using sound GetCauseErrorStr_returns by (cases cause) (auto, metis)
  show "calls_ok (IncrMetricsRcvMsg C s msgType ok cause)"
    unfolding IncrMetricsRcvMsg_def t IsNgapMetricsEnabled_def
    using ok by (auto intro!: calls_ok_message)
next
  note ok = assms [unfolded ngap_ok_def]
  assume "cause_sound C c"
  then obtain t where "GetCauseErrorStr C (Some c) = Returns t" using GetCauseErrorStr_returns by blast
  then show "calls_ok (IncrMetricsSentMsg C s msgType ok c otherCause)"
    using ok by (auto simp: IncrMetricsSentMsg_def IsNgapMetricsEnabled_def Let_def intro!: calls_ok_message)
qed

lemma ngap_ok_cong [simp]:
  "ngap_ok (s\<lparr>businessMetricsEnabled := b\<rparr>) = ngap_ok s" "ngap_ok (s\<lparr>nasMetricsEnabled := b\<rparr>) = ngap_ok s"
  "ngap_ok (s\<lparr>sbiMetricsEnabled := b\<rparr>) = ngap_ok s"
  "ngap_ok (s\<lparr>NasMsgRcvCounter := v, NasMsgSentCounter := w\<rparr>) = ngap_ok s"
  "ngap_ok (s\<lparr>OutboundReqCounter := v, OutboundRequestDuration := w\<rparr>) = ngap_ok s"
  "ngap_ok (s\<lparr>InboundReqCounter := v, InboundRequestDuration := w\<rparr>) = ngap_ok s"
  by (simp_all add: ngap_ok_def)

section \<open>Properties\<close>

text \<open>C31. NGAP cause texts. Of a cause of class \<open>cls\<close> the text is \<open>cls : x\<close> exactly as the constant
  \<^verbatim>\<open>Cause<cls>Present<x>\<close> is called, for each of the 66 constants, and different constants have different texts;
  any other value gives \<^verbatim>\<open>unknown cause\<close>. A cause that announces a class but does not carry it makes the function
  panic.\<close>

theorem ngap_cause_texts:
  assumes "ngap_consts_ok C" "(cls, cs) \<in> set cause_cases" "Present c = C (''CausePresent'' @ cls)"
  shows "(cause_field cls c = None \<longrightarrow> GetCauseErrorStr C (Some c) = Panics NilDereference) \<and>
    (\<forall>n r. (n, r) \<in> set cs \<longrightarrow> cause_field cls c = Some (C n) \<longrightarrow>
       GetCauseErrorStr C (Some c) = Returns (cls @ '' : '' @ drop (length (''Cause'' @ cls @ ''Present'')) n)) \<and>
    (\<forall>v. cause_field cls c = Some v \<longrightarrow> v \<notin> C ` fst ` set cs \<longrightarrow>
       GetCauseErrorStr C (Some c) = Returns ''unknown cause'') \<and>
    length (concat (map snd cause_cases)) = 66 \<and> distinct (map snd (concat (map snd cause_cases)))"
proof -
  have d: "distinct (map (C \<circ> fst) cs)" using assms(1,2) by (auto simp: ngap_consts_ok_def)
  note eq = GetCauseErrorStr_class [OF assms]
  have "length (concat (map snd cause_cases)) = 66"
    by (simp add: cause_cases_def case_table_defs)
  then show ?thesis
    using switch_hit [OF d] case_text [OF assms(2)] case_texts_distinct by (simp add: eq switch_miss)
qed

definition sample_const :: "string \<Rightarrow> int" where
  "sample_const n = int (to_nat n)"

definition sample_cause :: ngap_cause where
  "sample_cause = \<lparr>Present = sample_const ''CausePresentNas'', RadioNetwork = None, Transport = None,
     Nas = Some (sample_const ''CauseNasPresentDeregister''), Protocol = None, Misc = None, ChoiceExtensions = None\<rparr>"

theorem ngap_cause_texts_witness:
  "GetCauseErrorStr sample_const (Some sample_cause) = Returns ''Nas : Deregister''"
proof -
  have "inj sample_const" by (auto simp: inj_def sample_const_def)
  then have ok: "ngap_consts_ok sample_const" by (rule inj_ngap_consts_ok)
  have cases: "(''Nas'', nas_cases) \<in> set cause_cases" by (simp add: cause_cases_def)
  have mem: "(''CauseNasPresentDeregister'', ''Nas : Deregister'') \<in> set nas_cases" by (simp add: nas_cases_def)
  have field: "cause_field ''Nas'' sample_cause = Some (sample_const ''CauseNasPresentDeregister'')"
    by (simp add: cause_field_def sample_cause_def)
  have "Present sample_cause = sample_const (''CausePresent'' @ ''Nas'')" by (simp add: sample_cause_def)
  from ngap_cause_texts [OF ok cases this] mem field show ?thesis by fastforce
qed

end
