(* ===== verification/NasMetrics.thy ===== *)
theory NasMetrics
  imports NgapMetrics GoRegex
begin

text \<open>
  \<^verbatim>\<open>lib/util/metrics/nas\<close>: the counters of NAS messages. The message type belongs to the external package
  \<^verbatim>\<open>nas\<close>: of a \<^verbatim>\<open>GmmMessage\<close> the code looks at its pointer fields, here a map from field names to bodies, and
  at the cause of some of the bodies, which the package holds as a value or as a pointer. The text of a cause is a
  function \<open>T\<close> of that package.
\<close>

section \<open>Names\<close>

definition NAS_SUBSYSTEM_NAME :: string where "NAS_SUBSYSTEM_NAME = ''nas''"
definition NAS_MSG_RCV_COUNTER_NAME :: string where "NAS_MSG_RCV_COUNTER_NAME = ''msg_received_total''"
definition NAS_MSG_RCV_COUNTER_DESC :: string where "NAS_MSG_RCV_COUNTER_DESC = ''Total number of received NAS message''"
definition NAS_MSG_SENT_COUNTER_NAME :: string where "NAS_MSG_SENT_COUNTER_NAME = ''nas_msg_sent_total''"
definition NAS_MSG_SENT_COUNTER_DESC :: string where "NAS_MSG_SENT_COUNTER_DESC = ''Total number of NAS message sent''"

definition nas_message_types :: "(string \<times> string) list" where
  "nas_message_types =
     [(''AUTHENTICATION_REQUEST'', ''AuthenticationRequest''),
      (''AUTHENTICATION_RESPONSE'', ''AuthenticationResponse''),
      (''AUTHENTICATION_RESULT'', ''AuthenticationResult''),
      (''AUTHENTICATION_FAILURE'', ''AuthenticationFailure''),
      (''AUTHENTICATION_REJECT'', ''AuthenticationReject''),
      (''REGISTRATION_REQUEST'', ''RegistrationRequest''),
      (''REGISTRATION_ACCEPT'', ''RegistrationAccept''),
      (''REGISTRATION_ACCEPT_TIMER'', ''RegistrationAcceptTimer''),
      (''REGISTRATION_COMPLETE'', ''RegistrationComplete''),
      (''REGISTRATION_REJECT'', ''RegistrationReject''),
      (''UL_NAS_TRANSPORT'', ''ULNASTransport''),
      (''DL_NAS_TRANSPORT'', ''DLNASTransport''),
      (''DEREGISTRATION_REQUEST_UE_ORIGINATING_DEREGISTRATION'', ''DeregistrationRequestUEOriginatingDeregistration''),
      (''DEREGISTRATION_ACCEPT_UE_ORIGINATING_DEREGISTRATION'', ''DeregistrationAcceptUEOriginatingDeregistration''),
      (''DEREGISTRATION_REQUEST_UE_TERMINATED_DEREGISTRATION'', ''DeregistrationRequestUETerminatedDeregistration''),
      (''DEREGISTRATION_ACCEPT_UE_TERMINATED_DEREGISTRATION'', ''DeregistrationAcceptUETerminatedDeregistration''),
      (''SERVICE_REQUEST'', ''ServiceRequest''),
      (''SERVICE_ACCEPT'', ''ServiceAccept''),
      (''SERVICE_REJECT'', ''ServiceReject''),
      (''CONFIGURATION_UPDATE_COMMAND'', ''ConfigurationUpdateCommand''),
      (''CONFIGURATION_UPDATE_COMMAND_TIMER'', ''ConfigurationUpdateCommandTimer''),
      (''CONFIGURATION_UPDATE_COMPLETE'', ''ConfigurationUpdateComplete''),
      (''IDENTITY_REQUEST'', ''IdentityRequest''),
      (''IDENTITY_RESPONSE'', ''IdentityResponse''),
      (''NOTIFICATION'', ''Notification''),
      (''NOTIFICATION_TIMER'', ''NotificationTimer''),
      (''NOTIFICATION_RESPONSE'', ''NotificationResponse''),
      (''SECURITY_MODE_COMMAND'', ''SecurityModeCommand''),
      (''SECURITY_MODE_COMPLETE'', ''SecurityModeComplete''),
      (''SECURITY_MODE_REJECT'', ''SecurityModeReject''),
      (''SECURITY_PROTECTED_5GS_NAS_MESSAGE'', ''SecurityProtected5GSNASMessage''),
      (''STATUS_5GMM'', ''Status5GMM'')]"

definition nas_error_causes :: "(string \<times> string) list" where
  "nas_error_causes =
     [(''RAN_UE_NIL_ERR'', ''RanUe is nil''),
      (''AMF_UE_NIL_ERR'', ''AmfUe is nil''),
      (''RAN_NIL_ERR'', ''Ran is nil''),
      (''NAS_PDU_NIL_ERR'', ''nasPdu is nil''),
      (''AUTH_CTX_UE_NIL_ERR'', ''Authentication Context of UE is nil''),
      (''NAS_MSG_BUILD_ERR'', ''Could not build NAS message''),
      (''DECODE_NAS_MSG_ERR'', ''Could not decode NAS message''),
      (''AUSF_AUTH_ERR'', ''Ausf Authentication Failure''),
      (''HRES_AUTH_ERR'', ''HRES* validation failure'')]"

section \<open>Cause texts without their number\<close>

text \<open>The class of white space of \<^verbatim>\<open>regexp\<close>.\<close>

definition rx_space :: "char \<Rightarrow> bool" where
  "rx_space c \<longleftrightarrow> c \<in> {CHR '' '', CHR 0x09, CHR 0x0A, CHR 0x0C, CHR 0x0D}"

definition suffixRe :: rx where
  "suffixRe = rx_seq [RStar (RCls rx_space), rx_lit ''('', rx_plus rx_digit, rx_lit '')'']"

text \<open>
  \<^verbatim>\<open>ReplaceAllString\<close> with the empty string for a pattern that is anchored at the end: the leftmost match runs to
  the end of the text.
\<close>

fun replace_suffix :: "rx \<Rightarrow> string \<Rightarrow> string" where
  "replace_suffix r [] = []"
| "replace_suffix r (c # s) = (if full_match r (c # s) then [] else c # replace_suffix r s)"

definition removeDigitSuffix :: "string \<Rightarrow> string" where
  "removeDigitSuffix s = replace_suffix suffixRe s"

section \<open>Messages\<close>

record nas_body =
  Cause5GMM :: "8 word"
  Cause5GMM_ptr :: "8 word option"

type_synonym gmm_message = "string \<Rightarrow> nas_body option"

datatype cause_access = NoCause | ByValue | ByPointer

record IeFromGmmMessage =
  nasMessageType :: string
  cause :: "8 word"

text \<open>The cases of the switch: the field, the name of the message and how the cause is read.\<close>

definition gmm_cases :: "(string \<times> string \<times> cause_access) list" where
  "gmm_cases =
     [(''AuthenticationRequest'', ''AuthenticationRequest'', NoCause),
      (''AuthenticationResponse'', ''AuthenticationResponse'', NoCause),
      (''AuthenticationResult'', ''AuthenticationResult'', NoCause),
      (''AuthenticationFailure'', ''AuthenticationFailure'', ByValue),
      (''AuthenticationReject'', ''AuthenticationReject'', NoCause),
      (''RegistrationRequest'', ''RegistrationRequest'', NoCause),
      (''RegistrationAccept'', ''RegistrationAccept'', NoCause),
      (''RegistrationComplete'', ''RegistrationComplete'', NoCause),
      (''RegistrationReject'', ''RegistrationReject'', ByValue),
      (''ULNASTransport'', ''ULNASTransport'', NoCause),
      (''DLNASTransport'', ''DLNASTransport'', ByPointer),
      (''DeregistrationRequestUEOriginatingDeregistration'', ''DeregistrationRequestUEOriginatingDeregistration'', NoCause),
      (''DeregistrationAcceptUEOriginatingDeregistration'', ''DeregistrationAcceptUEOriginatingDeregistration'', NoCause),
      (''DeregistrationRequestUETerminatedDeregistration'', ''DeregistrationRequestUETerminatedDeregistration'', ByPointer),
      (''DeregistrationAcceptUETerminatedDeregistration'', ''DeregistrationAcceptUETerminatedDeregistration'', NoCause),
      (''ServiceRequest'', ''ServiceRequest'', NoCause),
      (''ServiceAccept'', ''ServiceAccept'', NoCause),
      (''ServiceReject'', ''ServiceReject'', ByValue),
      (''ConfigurationUpdateCommand'', ''ConfigurationUpdateCommand'', NoCause),
      (''ConfigurationUpdateComplete'', ''ConfigurationUpdateComplete'', NoCause),
      (''IdentityRequest'', ''IdentityRequest'', NoCause),
      (''IdentityResponse'', ''IdentityResponse'', NoCause),
      (''Notification'', ''Notification'', NoCause),
      (''NotificationResponse'', ''NotificationResponse'', NoCause),
      (''SecurityModeCommand'', ''SecurityModeCommand'', NoCause),
      (''SecurityModeComplete'', ''SecurityModeComplete'', NoCause),
      (''SecurityModeReject'', ''SecurityModeReject'', ByValue),
      (''SecurityProtected5GSNASMessage'', ''SecurityProtected5GSNASMessage'', NoCause),
      (''Status5GMM'', ''Status5GMM'', ByValue)]"

fun gmm_switch ::
    "gmm_message \<Rightarrow> (string \<times> string \<times> cause_access) list \<Rightarrow> IeFromGmmMessage \<Rightarrow> IeFromGmmMessage exec" where
  "gmm_switch m [] ie = Returns ie"
| "gmm_switch m ((field, name, acc) # cs) ie =
     (case m field of
        None \<Rightarrow> gmm_switch m cs ie
      | Some b \<Rightarrow>
          (case acc of
             NoCause \<Rightarrow> Returns (ie\<lparr>nasMessageType := name\<rparr>)
           | ByValue \<Rightarrow> Returns (ie\<lparr>nasMessageType := name, cause := Cause5GMM b\<rparr>)
           | ByPointer \<Rightarrow>
               (case Cause5GMM_ptr b of
                  None \<Rightarrow> Panics NilDereference
                | Some c \<Rightarrow> Returns (ie\<lparr>nasMessageType := name, cause := c\<rparr>))))"

text \<open>The message pointer and the \<^verbatim>\<open>GmmMessage\<close> pointer in it may both be nil.\<close>

definition getMessageStrFromGmmMessage :: "gmm_message option option \<Rightarrow> IeFromGmmMessage exec" where
  "getMessageStrFromGmmMessage msg =
     (let ie = \<lparr>nasMessageType = ''Unknown gmm message'', cause = 0\<rparr> in
      case msg of
        None \<Rightarrow> Returns ie
      | Some None \<Rightarrow> Returns ie
      | Some (Some m) \<Rightarrow> gmm_switch m gmm_cases ie)"

section \<open>Counters\<close>

definition IsNasMetricsEnabled :: "metrics_state \<Rightarrow> bool" where
  "IsNasMetricsEnabled s = nasMetricsEnabled s"

definition EnableNasMetrics :: "metrics_state \<Rightarrow> metrics_state" where
  "EnableNasMetrics s = s\<lparr>nasMetricsEnabled := True\<rparr>"

definition GetNasHandlerMetrics :: "string \<Rightarrow> metrics_state \<Rightarrow> vec list \<times> metrics_state" where
  "GetNasHandlerMetrics namespace s =
     (let r = \<lparr>Kind = CounterVec, Namespace = namespace, Subsystem = NAS_SUBSYSTEM_NAME,
               VecName = NAS_MSG_RCV_COUNTER_NAME, Help = NAS_MSG_RCV_COUNTER_DESC, Buckets = [],
               LabelNames = [NAME_LABEL, STATUS_LABEL, CAUSE_LABEL]\<rparr>;
          t = \<lparr>Kind = CounterVec, Namespace = namespace, Subsystem = NAS_SUBSYSTEM_NAME,
               VecName = NAS_MSG_SENT_COUNTER_NAME, Help = NAS_MSG_SENT_COUNTER_DESC, Buckets = [],
               LabelNames = [NAME_LABEL, STATUS_LABEL, CAUSE_LABEL]\<rparr>
      in ([r, t], s\<lparr>NasMsgRcvCounter := Some r, NasMsgSentCounter := Some t\<rparr>))"

definition IncrMetricsRcvNasMsg ::
    "(8 word \<Rightarrow> string) \<Rightarrow> metrics_state \<Rightarrow> gmm_message option option \<Rightarrow> bool option \<Rightarrow> string option \<Rightarrow>
      'd metric_call list exec" where
  "IncrMetricsRcvNasMsg T s msg isStatusSuccess causePtr =
     (if IsNasMetricsEnabled s
      then exec_bind (getMessageStrFromGmmMessage msg) (\<lambda>nasMessageIe.
        let metricCause = removeDigitSuffix (T (cause nasMessageIe));
            metricCause = (case causePtr of Some c \<Rightarrow> if c \<noteq> [] then c else metricCause | None \<Rightarrow> metricCause);
            metricStatus = (if isStatusSuccess = Some True then SuccessMetric else FailureMetric)
        in with_vec (NasMsgRcvCounter s) (\<lambda>v. Add v
          [(NAME_LABEL, nasMessageType nasMessageIe), (STATUS_LABEL, metricStatus), (CAUSE_LABEL, metricCause)]))
      else Returns [])"

definition IncrMetricsSentNasMsgs ::
    "(8 word \<Rightarrow> string) \<Rightarrow> metrics_state \<Rightarrow> string \<Rightarrow> bool option \<Rightarrow> 8 word \<Rightarrow> string option \<Rightarrow>
      'd metric_call list exec" where
  "IncrMetricsSentNasMsgs T s msgType isStatusSuccess cause5GMM otherCause =
     (if IsNasMetricsEnabled s
      then
        let errCause = (if cause5GMM \<noteq> 0 then removeDigitSuffix (T cause5GMM)
                        else case otherCause of Some c \<Rightarrow> c | None \<Rightarrow> []);
            metricStatus = (if isStatusSuccess = Some True then SuccessMetric else FailureMetric)
        in with_vec (NasMsgSentCounter s) (\<lambda>v. Add v
          [(NAME_LABEL, msgType), (STATUS_LABEL, metricStatus), (CAUSE_LABEL, errCause)])
      else Returns [])"

section \<open>Removing the suffix\<close>

lemma suffixRe_lang:
  "full_match suffixRe s \<longleftrightarrow>
     (\<exists>ws ds. s = ws @ ''('' @ ds @ '')'' \<and> (\<forall>c\<in>set ws. rx_space c) \<and> ds \<noteq> [] \<and> (\<forall>c\<in>set ds. is_digit c))"
  unfolding full_match_lang suffixRe_def in_seq_lang seq_last lang_plus_cls lang.simps star_cls lang_lit
  by auto

lemma replace_suffix_none:
  "(\<And>t u. s = t @ u \<Longrightarrow> \<not> full_match r u) \<Longrightarrow> replace_suffix r s = s"
proof (induction s)
  case (Cons c s)
  have "\<not> full_match r (c # s)" using Cons.prems [of "[]" "c # s"] by simp
  moreover have "replace_suffix r s = s" by (rule Cons.IH) (use Cons.prems in \<open>metis append_Cons\<close>)
  ultimately show ?case by simp
qed simp

lemma replace_suffix_first:
  assumes "full_match r u" "u \<noteq> []" "\<And>v w. t = v @ w \<Longrightarrow> w \<noteq> [] \<Longrightarrow> \<not> full_match r (w @ u)"
  shows "replace_suffix r (t @ u) = t"
  using assms(3)
proof (induction t)
  case Nil
  then show ?case using assms(1,2) by (cases u) simp_all
next
  case (Cons c t)
  have "\<not> full_match r ((c # t) @ u)" using Cons.prems [of "[]" "c # t"] by simp
  moreover have "replace_suffix r (t @ u) = t" by (rule Cons.IH) (use Cons.prems in \<open>metis append_Cons\<close>)
  ultimately show ?case by simp
qed

text \<open>The last parenthesis of a text determines where a numbered suffix begins.\<close>

lemma last_paren_unique:
  assumes "a @ ''('' @ b = c @ ''('' @ d" "CHR ''('' \<notin> set b" "CHR ''('' \<notin> set d"
  shows "a = c"
proof -
  have tw: "takeWhile (\<lambda>x. x \<noteq> CHR ''('') (rev (x @ ''('' @ y)) = rev y" if "CHR ''('' \<notin> set y" for x y
  proof -
    have "takeWhile (\<lambda>x. x \<noteq> CHR ''('') (rev y @ CHR ''('' # rev x) = rev y @ takeWhile (\<lambda>x. x \<noteq> CHR ''('') (CHR ''('' # rev x)"
      by (rule takeWhile_append2) (use that in auto)
    then show ?thesis by simp
  qed
  have "rev b = rev d" using tw [OF assms(2), of a] tw [OF assms(3), of c] assms(1) by metis
  with assms(1) show ?thesis by simp
qed

lemma paren_not_digit: "\<not> is_digit (CHR ''('')"
  by (simp add: is_digit_def)

lemma removeDigitSuffix_numbered:
  assumes "\<forall>c\<in>set ws. rx_space c" "ds \<noteq> []" "\<forall>c\<in>set ds. is_digit c" "t = [] \<or> \<not> rx_space (last t)"
  shows "removeDigitSuffix (t @ ws @ ''('' @ ds @ '')'') = t"
  unfolding removeDigitSuffix_def
proof (rule replace_suffix_first)
  show "full_match suffixRe (ws @ ''('' @ ds @ '')'')" unfolding suffixRe_lang using assms(1-3) by blast
  fix v w assume t: "t = v @ w" "w \<noteq> []"
  show "\<not> full_match suffixRe (w @ ws @ ''('' @ ds @ '')'')"
  proof
    assume "full_match suffixRe (w @ ws @ ''('' @ ds @ '')'')"
    then obtain xs es where x: "w @ ws @ ''('' @ ds @ '')'' = xs @ ''('' @ es @ '')''" "\<forall>c\<in>set xs. rx_space c"
      "\<forall>c\<in>set es. is_digit c" unfolding suffixRe_lang by blast
    have "w @ ws = xs"
      by (rule last_paren_unique [of _ "ds @ '')''" _ "es @ '')''"])
        (use x assms(3) paren_not_digit in auto)
    with x(2) t(2) have "rx_space (last w)" by auto
    with t assms(4) show False by simp
  qed
qed simp

lemma removeDigitSuffix_other:
  assumes "\<nexists>t ws ds. s = t @ ws @ ''('' @ ds @ '')'' \<and> (\<forall>c\<in>set ws. rx_space c) \<and> ds \<noteq> [] \<and> (\<forall>c\<in>set ds. is_digit c)"
  shows "removeDigitSuffix s = s"
  unfolding removeDigitSuffix_def
  by (rule replace_suffix_none) (use assms in \<open>auto simp: suffixRe_lang\<close>)

section \<open>Which messages panic\<close>

definition first_field :: "gmm_message \<Rightarrow> (string \<times> string \<times> cause_access) list \<Rightarrow> (string \<times> string \<times> cause_access) option" where
  "first_field m cs = find (\<lambda>(field, _, _). m field \<noteq> None) cs"

definition nas_ok :: "metrics_state \<Rightarrow> bool" where
  "nas_ok s \<longleftrightarrow> (nasMetricsEnabled s \<longrightarrow>
     vec_ok CounterVec [NAME_LABEL, STATUS_LABEL, CAUSE_LABEL] (NasMsgRcvCounter s) \<and>
     vec_ok CounterVec [NAME_LABEL, STATUS_LABEL, CAUSE_LABEL] (NasMsgSentCounter s))"

lemma gmm_switch_eq:
  "gmm_switch m cs ie =
     (case first_field m cs of
        None \<Rightarrow> Returns ie
      | Some (field, name, acc) \<Rightarrow> gmm_switch m [(field, name, acc)] ie)"
  by (induction cs) (auto simp: first_field_def split: option.splits)

text \<open>A pointer to a cause that is read and is nil.\<close>

definition missing_cause :: "gmm_message \<Rightarrow> bool" where
  "missing_cause m =
     (case first_field m gmm_cases of
        Some (field, _, ByPointer) \<Rightarrow> (case m field of Some b \<Rightarrow> Cause5GMM_ptr b = None | None \<Rightarrow> False)
      | _ \<Rightarrow> False)"

lemma getMessage_returns: "returns (getMessageStrFromGmmMessage msg) \<longleftrightarrow> (\<forall>m. msg = Some (Some m) \<longrightarrow> \<not> missing_cause m)"
  by (auto simp: getMessageStrFromGmmMessage_def Let_def gmm_switch_eq [of _ gmm_cases] missing_cause_def
      split: option.splits cause_access.splits prod.splits)

lemma nas_calls_ok:
  assumes "nas_ok s"
  shows "(\<forall>m. msg = Some (Some m) \<longrightarrow> \<not> missing_cause m) \<Longrightarrow> calls_ok (IncrMetricsRcvNasMsg T s msg ok causePtr)"
    and "calls_ok (IncrMetricsSentNasMsgs T s msgType ok cause5GMM otherCause)"
proof -
  note ok = assms [unfolded nas_ok_def]
  show "calls_ok (IncrMetricsSentNasMsgs T s msgType ok cause5GMM otherCause)"
    using ok by (auto simp: IncrMetricsSentNasMsgs_def IsNasMetricsEnabled_def Let_def intro!: calls_ok_message)
  assume "\<forall>m. msg = Some (Some m) \<longrightarrow> \<not> missing_cause m"
  then obtain ie where "getMessageStrFromGmmMessage msg = Returns ie"
    using getMessage_returns returns_iff by metis
  then show "calls_ok (IncrMetricsRcvNasMsg T s msg ok causePtr)"
    using ok by (auto simp: IncrMetricsRcvNasMsg_def IsNasMetricsEnabled_def Let_def intro!: calls_ok_message)
qed

lemma nas_ok_cong [simp]:
  "nas_ok (s\<lparr>businessMetricsEnabled := b\<rparr>) = nas_ok s" "nas_ok (s\<lparr>ngapMetricsEnabled := b\<rparr>) = nas_ok s"
  "nas_ok (s\<lparr>sbiMetricsEnabled := b\<rparr>) = nas_ok s"
  "nas_ok (s\<lparr>MsgRcvCounter := v, MsgSentCounter := w\<rparr>) = nas_ok s"
  "nas_ok (s\<lparr>OutboundReqCounter := v, OutboundRequestDuration := w\<rparr>) = nas_ok s"
  "nas_ok (s\<lparr>InboundReqCounter := v, InboundRequestDuration := w\<rparr>) = nas_ok s"
  by (simp_all add: nas_ok_def)

section \<open>Properties\<close>

text \<open>
  The message fields in the order in which they are looked at, and where the 5GMM cause of a message is: it is
  a mandatory part of five messages, an optional part of two, and the others carry none.
\<close>

definition nas_fields :: "string list" where
  "nas_fields =
     [''AuthenticationRequest'', ''AuthenticationResponse'', ''AuthenticationResult'',
      ''AuthenticationFailure'', ''AuthenticationReject'', ''RegistrationRequest'', ''RegistrationAccept'',
      ''RegistrationComplete'', ''RegistrationReject'', ''ULNASTransport'', ''DLNASTransport'',
      ''DeregistrationRequestUEOriginatingDeregistration'',
      ''DeregistrationAcceptUEOriginatingDeregistration'', ''DeregistrationRequestUETerminatedDeregistration'',
      ''DeregistrationAcceptUETerminatedDeregistration'', ''ServiceRequest'', ''ServiceAccept'',
      ''ServiceReject'', ''ConfigurationUpdateCommand'', ''ConfigurationUpdateComplete'', ''IdentityRequest'',
      ''IdentityResponse'', ''Notification'', ''NotificationResponse'', ''SecurityModeCommand'',
      ''SecurityModeComplete'', ''SecurityModeReject'', ''SecurityProtected5GSNASMessage'', ''Status5GMM'']"

definition nas_cause :: "string \<Rightarrow> nas_body \<Rightarrow> 8 word option" where
  "nas_cause field b =
     (if field \<in> {''AuthenticationFailure'', ''RegistrationReject'', ''ServiceReject'', ''SecurityModeReject'', ''Status5GMM''}
      then Some (Cause5GMM b)
      else if field \<in> {''DLNASTransport'', ''DeregistrationRequestUETerminatedDeregistration''}
      then Cause5GMM_ptr b
      else Some 0)"

definition shown_cause :: "string option \<Rightarrow> string \<Rightarrow> string" where
  "shown_cause given own = (if given = None \<or> given = Some [] then own else the given)"

text \<open>The cases of the switch name each message after its field and read its cause where it is.\<close>

lemma gmm_cases_fields: "map fst gmm_cases = nas_fields"
  by (simp add: gmm_cases_def nas_fields_def)

definition case_reads :: "string \<times> string \<times> cause_access \<Rightarrow> bool" where
  "case_reads = (\<lambda>(field, name, acc). name = field \<and> (\<forall>b. nas_cause field b =
     (case acc of NoCause \<Rightarrow> Some 0 | ByValue \<Rightarrow> Some (Cause5GMM b) | ByPointer \<Rightarrow> Cause5GMM_ptr b)))"

lemma gmm_cases_read: "list_all case_reads gmm_cases"
  by (simp add: gmm_cases_def case_reads_def nas_cause_def)

lemma gmm_switch_spec:
  assumes "list_all case_reads cs" and "cause ie = 0"
  shows "gmm_switch m cs ie =
    (case find (\<lambda>field. m field \<noteq> None) (map fst cs) of
       None \<Rightarrow> Returns ie
     | Some field \<Rightarrow>
         (case nas_cause field (the (m field)) of
            None \<Rightarrow> Panics NilDereference
          | Some c \<Rightarrow> Returns (ie\<lparr>nasMessageType := field, cause := c\<rparr>)))"
  using assms
proof (induction cs)
  case (Cons x cs)
  obtain field name acc where x: "x = (field, name, acc)" by (cases x)
  with Cons.prems have r: "name = field" "nas_cause field b =
     (case acc of NoCause \<Rightarrow> Some 0 | ByValue \<Rightarrow> Some (Cause5GMM b) | ByPointer \<Rightarrow> Cause5GMM_ptr b)" for b
    by (auto simp: case_reads_def)
  show ?case
    using Cons x r(1) by (cases ie) (auto simp: r(2) split: option.split cause_access.split)
qed simp

text \<open>C30. Labels of a received NAS message, for cause texts that end in a number in parentheses. With metrics enabled
  and the counters made, a message is counted once: under the name of the first of its fields that is set, or as
  \<^verbatim>\<open>Unknown gmm message\<close> when none is; as a success exactly when the caller says so; and with the cause the
  caller gives, or if that is nil or empty the text of the message's own 5GMM cause (0 for a message type that has none)
  without the number and the space before it. Exception: the cause of \<^verbatim>\<open>DLNASTransport\<close> and of
  \<^verbatim>\<open>DeregistrationRequestUETerminatedDeregistration\<close> is optional and read through its pointer, and one of these
  messages without a cause panics, whatever the caller gives.\<close>

theorem nas_received_labels:
  assumes "nas_ok s" "nasMetricsEnabled s" and "\<And>c. txt c = [] \<or> \<not> rx_space (last (txt c))"
  shows "IncrMetricsRcvNasMsg (\<lambda>c. txt c @ '' ('' @ Itoa (num c) @ '')'') s (Some (Some m)) ok given =
    (let count = (\<lambda>name c. Returns [Add (the (NasMsgRcvCounter s))
           [(''name'', name), (''status'', if ok = Some True then ''successful'' else ''failure''),
            (''cause'', shown_cause given (txt c))]])
     in case find (\<lambda>field. m field \<noteq> None) nas_fields of
          None \<Rightarrow> count ''Unknown gmm message'' 0
        | Some field \<Rightarrow>
            (case nas_cause field (the (m field)) of
               None \<Rightarrow> Panics NilDereference
             | Some c \<Rightarrow> count field c))"
proof -
  have "removeDigitSuffix (txt c @ '' '' @ ''('' @ Itoa (num c) @ '')'') = txt c" for c
    by (rule removeDigitSuffix_numbered)
      (use assms(3) Itoa_digits in \<open>auto simp: rx_space_def\<close>)
  then have suffix: "removeDigitSuffix (txt c @ '' ('' @ Itoa (num c) @ '')'') = txt c" for c by simp
  obtain v where v: "NasMsgRcvCounter s = Some v" using assms(1,2) by (auto simp: nas_ok_def vec_ok_Some)
  have given: "(case given of Some c \<Rightarrow> if c \<noteq> [] then c else own | None \<Rightarrow> own) = shown_cause given own" for own
    by (auto simp: shown_cause_def split: option.split)
  show ?thesis
    unfolding IncrMetricsRcvNasMsg_def getMessageStrFromGmmMessage_def Let_def
    by (simp add: gmm_switch_spec [OF gmm_cases_read] gmm_cases_fields IsNasMetricsEnabled_def assms(2) given suffix v
        with_vec_def NAME_LABEL_def STATUS_LABEL_def CAUSE_LABEL_def SuccessMetric_def FailureMetric_def
        del: append_Cons split: option.split)
qed

definition sample_nas_state :: metrics_state where
  "sample_nas_state = EnableNasMetrics (snd (GetNasHandlerMetrics ''free5gc'' initial_metrics))"

definition sample_gmm :: gmm_message where
  "sample_gmm = (\<lambda>_. None)(''ServiceReject'' := Some \<lparr>Cause5GMM = 9, Cause5GMM_ptr = None\<rparr>)"

definition sample_dl :: gmm_message where
  "sample_dl = (\<lambda>_. None)(''DLNASTransport'' := Some \<lparr>Cause5GMM = 0, Cause5GMM_ptr = None\<rparr>)"

theorem nas_received_labels_witness:
  "IncrMetricsRcvNasMsg (\<lambda>c. ''Cause'' @ '' ('' @ Itoa (unat c) @ '')'') sample_nas_state (Some (Some sample_gmm)) None None =
     Returns [Add (the (NasMsgRcvCounter sample_nas_state))
       [(''name'', ''ServiceReject''), (''status'', ''failure''), (''cause'', ''Cause'')]] \<and>
   IncrMetricsRcvNasMsg (\<lambda>c. ''Cause'' @ '' ('' @ Itoa (unat c) @ '')'') sample_nas_state (Some (Some sample_dl)) None None =
     Panics NilDereference"
proof -
  have ok: "nas_ok sample_nas_state" "nasMetricsEnabled sample_nas_state"
    by (simp_all add: sample_nas_state_def nas_ok_def EnableNasMetrics_def GetNasHandlerMetrics_def Let_def vec_ok_def)
  have first: "find (\<lambda>field. sample_gmm field \<noteq> None) nas_fields = Some ''ServiceReject''"
    "find (\<lambda>field. sample_dl field \<noteq> None) nas_fields = Some ''DLNASTransport''"
    by (simp_all add: sample_gmm_def sample_dl_def nas_fields_def)
  have label: "\<And>c :: 8 word. ''Cause'' = [] \<or> \<not> rx_space (last ''Cause'')" by (simp add: rx_space_def)
  note c = nas_received_labels [OF ok label, where num = unat and ok = None and given = None]
  show ?thesis
    unfolding c Let_def first by (simp add: sample_gmm_def sample_dl_def nas_cause_def shown_cause_def)
qed

end
