(* ===== verification/HttpWrapper.thy ===== *)
theory HttpWrapper
  imports GoOS
begin

text \<open>
  \<^verbatim>\<open>lib/util/httpwrapper/httpwrapper.go\<close> and \<^verbatim>\<open>lib/util/version/version.go\<close>. Headers, bodies, query values and
  handlers are opaque: the functions only pass them on. \<^verbatim>\<open>h2c.NewHandler\<close> is the constructor \<open>H2c\<close>.
\<close>

section \<open>Requests and responses\<close>

record go_url =
  url_Path :: string
  url_RawQuery :: string

record 'h http_request =
  req_Method :: string
  req_URL :: go_url
  req_Header :: 'h

record ('h, 'q, 'b) Request =
  Params :: "string \<rightharpoonup> string"
  Header :: 'h
  Query :: 'q
  Body :: 'b
  URL :: go_url

definition NewRequest :: "(go_url \<Rightarrow> 'q) \<Rightarrow> 'h http_request \<Rightarrow> 'b \<Rightarrow> ('h, 'q, 'b) Request" where
  "NewRequest parseQuery req body =
     \<lparr>Params = Map.empty, Header = req_Header req, Query = parseQuery (req_URL req), Body = body, URL = req_URL req\<rparr>"

record ('h, 'b) Response =
  rsp_Header :: 'h
  Status :: int
  rsp_Body :: 'b

definition NewResponse :: "int \<Rightarrow> 'h \<Rightarrow> 'b \<Rightarrow> ('h, 'b) Response" where
  "NewResponse code h body = \<lparr>rsp_Header = h, Status = code, rsp_Body = body\<rparr>"

section \<open>Servers\<close>

text \<open>A handler that speaks clear-text HTTP/2, with the idle time in milliseconds.\<close>

datatype 'a h2c = H2c 'a nat

record 'a http_server =
  Addr :: string
  Handler :: "'a h2c"
  KeyLogWriter :: "string option"

datatype server_error = NeedsHandler | CreateSecretLogFailed string file_error

definition NewHttp2Server ::
    "string \<Rightarrow> string \<Rightarrow> 'a option \<Rightarrow> file_system \<Rightarrow> file_system \<times> (server_error + 'a http_server)" where
  "NewHttp2Server bindAddr preMasterSecretLogPath handler fs =
     (case handler of
        None \<Rightarrow> (fs, Inl NeedsHandler)
      | Some h \<Rightarrow>
          let server = \<lparr>Addr = bindAddr, Handler = H2c h 1, KeyLogWriter = None\<rparr>
          in if preMasterSecretLogPath \<noteq> [] then
               (case open_create True preMasterSecretLogPath fs of
                  (fs1, Some err) \<Rightarrow> (fs1, Inl (CreateSecretLogFailed preMasterSecretLogPath err))
                | (fs1, None) \<Rightarrow> (fs1, Inr (server\<lparr>KeyLogWriter := Some preMasterSecretLogPath\<rparr>)))
             else (fs, Inr server))"

text \<open>
  No server comes without the secret log that was asked for: when the file cannot be opened there is an error and no
  server.
\<close>

lemma NewHttp2Server_result:
  "NewHttp2Server bindAddr path (Some h) fs = (fs', r) \<Longrightarrow>
     (case r of
        Inr srv \<Rightarrow> Addr srv = bindAddr \<and> KeyLogWriter srv = (if path = [] then None else Some path) \<and>
          (path \<noteq> [] \<longrightarrow> file_at fs' path = Some [])
      | Inl e \<Rightarrow> path \<noteq> [] \<and> \<not> can_create path fs \<and> fs' = fs)"
  by (auto simp: NewHttp2Server_def open_create_def file_at_def Let_def split: if_splits)

section \<open>Version\<close>

text \<open>The variables the linker sets, and what the run-time system reports.\<close>

record build_info =
  VERSION :: string
  BUILD_TIME :: string
  COMMIT_HASH :: string
  COMMIT_TIME :: string

record runtime_info =
  go_Version :: string
  GOOS :: string
  GOARCH :: string

definition GetVersion :: "build_info \<Rightarrow> runtime_info \<Rightarrow> string" where
  "GetVersion b r =
     (let nt = [CHR 0x0A, CHR 0x09];
          go = go_Version r @ '' '' @ GOOS r @ ''/'' @ GOARCH r
      in if VERSION b \<noteq> [] then
           nt @ ''free5GC version: '' @ VERSION b @ nt @ ''build time:      '' @ BUILD_TIME b @
           nt @ ''commit hash:     '' @ COMMIT_HASH b @ nt @ ''commit time:     '' @ COMMIT_TIME b @
           nt @ ''go version:      '' @ go
         else nt @ ''Not specify ldflags (which link version) during go build'' @ nt @ ''go version: '' @ go)"

end
