(* ===== verification/Metrics.thy ===== *)
theory Metrics
  imports NasMetrics HttpWrapper
begin

text \<open>
  \<^verbatim>\<open>lib/util/metrics\<close>: initialisation of the metrics packages, the gin middleware that counts requests, and the
  metrics server. A registry is the list of what was registered in it; whether the client accepts a collector into a
  registry is a parameter \<open>conflict\<close>, and \<^verbatim>\<open>MustRegister\<close> panics when it does not. Custom collectors have an
  arbitrary type \<open>'k\<close>.
\<close>

section \<open>Configuration\<close>

definition NF_TYPE_LABEL :: string where "NF_TYPE_LABEL = ''nf_type''"

record Tls =
  Pem :: string
  Key :: string

record Metrics =
  Scheme :: string
  BindingIPv4 :: string
  Port :: int
  Tls_cfg :: Tls
  Namespace_cfg :: string

record 'k InitMetrics =
  metricsInfo :: Metrics
  nfName :: string
  metricsEnabled :: "string \<rightharpoonup> bool"
  customCollectors :: "(string \<times> 'k list) list"

definition NewInitMetrics ::
    "Metrics \<Rightarrow> string \<Rightarrow> (string \<rightharpoonup> bool) \<Rightarrow> (string \<times> 'k list) list \<Rightarrow> 'k InitMetrics" where
  "NewInitMetrics cfg name enabled custom =
     \<lparr>metricsInfo = cfg, nfName = name, metricsEnabled = enabled, customCollectors = custom\<rparr>"

definition GetMetricsInfo :: "'k InitMetrics \<Rightarrow> Metrics" where
  "GetMetricsInfo im = metricsInfo im"

definition GetNfName :: "'k InitMetrics \<Rightarrow> string" where
  "GetNfName im = nfName im"

definition GetMetricsEnabled :: "'k InitMetrics \<Rightarrow> (string \<rightharpoonup> bool)" where
  "GetMetricsEnabled im = metricsEnabled im"

definition GetCustomCollectors :: "'k InitMetrics \<Rightarrow> (string \<times> 'k list) list" where
  "GetCustomCollectors im = customCollectors im"

section \<open>Initialisation\<close>

datatype 'k collector = Custom 'k | Vector vec

type_synonym 'k registry = "(labels \<times> 'k collector) list"

fun initMetric ::
    "('k registry \<Rightarrow> labels \<times> 'k collector \<Rightarrow> bool) \<Rightarrow> labels \<Rightarrow> 'k collector list \<Rightarrow> 'k registry \<Rightarrow> 'k registry exec" where
  "initMetric conflict ls [] reg = Returns reg"
| "initMetric conflict ls (metric # ms) reg =
     (if conflict reg (ls, metric) then Panics RegistrationConflict
      else initMetric conflict ls ms (reg @ [(ls, metric)]))"

definition addSBIToRegistry ::
    "('k registry \<Rightarrow> labels \<times> 'k collector \<Rightarrow> bool) \<Rightarrow> labels \<Rightarrow> string \<Rightarrow> 'k registry \<times> metrics_state \<Rightarrow>
      ('k registry \<times> metrics_state) exec" where
  "addSBIToRegistry conflict ls namespace = (\<lambda>(reg, s).
     let (out, s1) = GetSbiOutboundMetrics namespace s;
         (inb, s2) = GetSbiInboundMetrics namespace s1
     in exec_bind (initMetric conflict ls (map Vector (out @ inb)) reg) (\<lambda>reg1. Returns (reg1, EnableSbiMetrics s2)))"

definition addNASToRegistry ::
    "('k registry \<Rightarrow> labels \<times> 'k collector \<Rightarrow> bool) \<Rightarrow> labels \<Rightarrow> string \<Rightarrow> 'k registry \<times> metrics_state \<Rightarrow>
      ('k registry \<times> metrics_state) exec" where
  "addNASToRegistry conflict ls namespace = (\<lambda>(reg, s).
     let (ms, s1) = GetNasHandlerMetrics namespace s
     in exec_bind (initMetric conflict ls (map Vector ms) reg) (\<lambda>reg1. Returns (reg1, EnableNasMetrics s1)))"

definition addNGAPToRegistry ::
    "('k registry \<Rightarrow> labels \<times> 'k collector \<Rightarrow> bool) \<Rightarrow> labels \<Rightarrow> string \<Rightarrow> 'k registry \<times> metrics_state \<Rightarrow>
      ('k registry \<times> metrics_state) exec" where
  "addNGAPToRegistry conflict ls namespace = (\<lambda>(reg, s).
     let (ms, s1) = GetNgapHandlerMetrics namespace s
     in exec_bind (initMetric conflict ls (map Vector ms) reg) (\<lambda>reg1. Returns (reg1, EnableNgapMetrics s1)))"

text \<open>The loop over the custom collectors; the order of the map is the order of the list.\<close>

fun init_custom ::
    "('k registry \<Rightarrow> labels \<times> 'k collector \<Rightarrow> bool) \<Rightarrow> (string \<times> 'k list) list \<Rightarrow> 'k registry \<Rightarrow> 'k registry exec" where
  "init_custom conflict [] reg = Returns reg"
| "init_custom conflict ((_, cs) # rest) reg =
     exec_bind (initMetric conflict [] (map Custom cs) reg) (init_custom conflict rest)"

definition when_enabled ::
    "'k InitMetrics \<Rightarrow> string \<Rightarrow> ('a \<Rightarrow> 'a exec) \<Rightarrow> 'a \<Rightarrow> 'a exec" where
  "when_enabled im kind f x = (if GetMetricsEnabled im kind = Some True then f x else Returns x)"

definition Init ::
    "('k registry \<Rightarrow> labels \<times> 'k collector \<Rightarrow> bool) \<Rightarrow> 'k InitMetrics \<Rightarrow> metrics_state \<Rightarrow>
      ('k registry \<times> metrics_state) exec" where
  "Init conflict im s =
     (let globalLabels = [(NF_TYPE_LABEL, GetNfName im)];
          ns = Namespace_cfg (GetMetricsInfo im);
          s1 = (if GetCustomCollectors im \<noteq> [] then EnableBusinessMetrics s else s)
      in exec_bind (init_custom conflict (GetCustomCollectors im) []) (\<lambda>reg.
         exec_bind (when_enabled im SBI (addSBIToRegistry conflict globalLabels ns) (reg, s1)) (\<lambda>rs.
         exec_bind (when_enabled im NAS (addNASToRegistry conflict globalLabels ns) rs) (\<lambda>rs.
         when_enabled im NGAP (addNGAPToRegistry conflict globalLabels ns) rs))))"

section \<open>Middleware\<close>

text \<open>What the middleware reads of the request context after the handlers have run.\<close>

record gin_context =
  ctx_Method :: string
  ctx_FullPath :: string
  ctx_URLPath :: string
  ctx_Status :: int
  ctx_Strings :: "string \<rightharpoonup> string"

definition InboundMetrics :: "metrics_state \<Rightarrow> gin_context \<Rightarrow> 'd \<Rightarrow> 'd metric_call list exec" where
  "InboundMetrics s c dur =
     (let path = (if ctx_FullPath c = [] then ctx_URLPath c else ctx_FullPath c);
          status = ctx_Status c;
          cause = (case ctx_Strings c IN_PB_DETAILS_CTX_STR of None \<Rightarrow> [] | Some t \<Rightarrow> t)
      in seq_calls (IncrInboundReqCounter s (ctx_Method c) path status cause)
           (IncrInboundReqDurationCounter s (ctx_Method c) path status dur))"

section \<open>Server\<close>

record 'a Server =
  httpServer :: "'a http_server option"
  metricCfg :: Metrics

datatype new_server_error = NilLogger | HttpServerError server_error

text \<open>The handler serves the registry under \<^verbatim>\<open>/metrics\<close>; a logger is there or not.\<close>

definition NewServer ::
    "('k registry \<Rightarrow> labels \<times> 'k collector \<Rightarrow> bool) \<Rightarrow> 'k InitMetrics \<Rightarrow> string \<Rightarrow> bool \<Rightarrow> metrics_state \<Rightarrow>
      file_system \<Rightarrow> (metrics_state \<times> file_system \<times> (new_server_error + (string \<times> 'k registry) Server)) exec" where
  "NewServer conflict im tlsKeyLogPath hasLogger s fs =
     (if \<not> hasLogger then Returns (s, fs, Inl NilLogger)
      else exec_bind (Init conflict im s) (\<lambda>(reg, s1).
        case NewHttp2Server (BindingIPv4 (GetMetricsInfo im)) tlsKeyLogPath (Some (''/metrics'', reg)) fs of
          (fs1, Inl err) \<Rightarrow> Returns (s1, fs1, Inl (HttpServerError err))
        | (fs1, Inr srv) \<Rightarrow> Returns (s1, fs1, Inr \<lparr>httpServer = Some srv, metricCfg = metricsInfo im\<rparr>)))"

text \<open>
  The calls on the HTTP server: \<^verbatim>\<open>ListenAndServeTLS(certFile, keyFile)\<close> takes the certificate first. How serving
  ends, with an error, without one or in a panic, is a parameter \<open>serve\<close>.
\<close>

datatype server_call = ListenAndServe string | ListenAndServeTLS string (certFile: string) (keyFile: string) | Shutdown string

datatype serve_error = ErrServerClosed | ServeError string | NoSupportedScheme string

datatype serve_result = Served "serve_error option" | ServePanics string

datatype log_line =
    StartServer string | StopServer string | ServerError serve_error | StoppedServer string | PanicLine string | CouldNotClose string

definition Server_ListenAndServe ::
    "(server_call \<Rightarrow> serve_error option) \<Rightarrow> 'a http_server \<Rightarrow> server_call list \<times> log_line list" where
  "Server_ListenAndServe serve srv =
     (let call = ListenAndServe (Addr srv)
      in ([call], StartServer (Addr srv) # (case serve call of None \<Rightarrow> [] | Some err \<Rightarrow> [ServerError err])))"

definition Server_ListenAndServeTLS ::
    "(server_call \<Rightarrow> serve_error option) \<Rightarrow> Metrics \<Rightarrow> 'a http_server \<Rightarrow> server_call list \<times> log_line list" where
  "Server_ListenAndServeTLS serve cfg srv =
     (let tlsKeyPath = Key (Tls_cfg cfg); tlsPemPath = Pem (Tls_cfg cfg);
          call = ListenAndServeTLS (Addr srv) tlsKeyPath tlsPemPath
      in ([call], case serve call of None \<Rightarrow> [] | Some err \<Rightarrow> [ServerError err]))"

text \<open>
  The goroutine of the server with the counter of the wait group it was started with. A panic is logged with
  \<^verbatim>\<open>Fatalf\<close>, which ends the process before the wait group is told.
\<close>

datatype goroutine_end = WaitGroupDone int | ProcessExits

definition startServer ::
    "(server_call \<Rightarrow> serve_result) \<Rightarrow> Metrics \<Rightarrow> 'a http_server \<Rightarrow> int \<Rightarrow> server_call list \<times> log_line list \<times> goroutine_end" where
  "startServer serve cfg srv wg =
     (let scheme = Scheme cfg;
          tlsKeyPath = Key (Tls_cfg cfg); tlsPemPath = Pem (Tls_cfg cfg);
          calls = (if scheme = ''http'' then [ListenAndServe (Addr srv)]
                   else if scheme = ''https'' then [ListenAndServeTLS (Addr srv) tlsKeyPath tlsPemPath]
                   else []);
          result = (case calls of [] \<Rightarrow> Served (Some (NoSupportedScheme scheme)) | call # _ \<Rightarrow> serve call)
      in case result of
           ServePanics p \<Rightarrow> (calls, [StartServer (Addr srv), PanicLine p], ProcessExits)
         | Served err \<Rightarrow>
             (calls,
              [StartServer (Addr srv)] @
              (case err of Some e \<Rightarrow> if e \<noteq> ErrServerClosed then [ServerError e] else [] | None \<Rightarrow> []) @
              [StoppedServer (Addr srv)],
              WaitGroupDone (wg - 1)))"

text \<open>\<^verbatim>\<open>Run\<close> adds to the wait group before it starts the goroutine.\<close>

definition Server_Run ::
    "(server_call \<Rightarrow> serve_result) \<Rightarrow> Metrics \<Rightarrow> 'a http_server \<Rightarrow> int \<Rightarrow>
      int \<times> (int \<Rightarrow> server_call list \<times> log_line list \<times> goroutine_end)" where
  "Server_Run serve cfg srv wg = (wg + 1, startServer serve cfg srv)"

definition Server_Stop :: "(server_call \<Rightarrow> string option) \<Rightarrow> 'a Server \<Rightarrow> server_call list \<times> log_line list" where
  "Server_Stop shutdown s =
     (case httpServer s of
        None \<Rightarrow> ([], [])
      | Some srv \<Rightarrow>
          ([Shutdown (Addr srv)],
           StopServer (Addr srv) # (case shutdown (Shutdown (Addr srv)) of None \<Rightarrow> [] | Some err \<Rightarrow> [CouldNotClose err])))"

text \<open>For \<^verbatim>\<open>https\<close> the key file is passed where the certificate is expected and the certificate as key.\<close>

lemma startServer_https:
  "Scheme cfg = ''https'' \<Longrightarrow>
     fst (startServer serve cfg srv wg) = [ListenAndServeTLS (Addr srv) (Key (Tls_cfg cfg)) (Pem (Tls_cfg cfg))]"
  by (simp add: startServer_def Let_def split: serve_result.splits)

text \<open>A server that was run and stops serving leaves the wait group as it found it, whatever the scheme.\<close>

lemma Server_Run_balanced:
  assumes "\<And>call p. serve call \<noteq> ServePanics p" "Server_Run serve cfg srv wg = (wg', go)"
  shows "\<exists>calls logs. go wg' = (calls, logs, WaitGroupDone wg)"
  using assms by (auto simp: Server_Run_def startServer_def Let_def split: serve_result.splits)

section \<open>Consistency\<close>

definition metrics_ok :: "metrics_state \<Rightarrow> bool" where
  "metrics_ok s \<longleftrightarrow> sbi_ok s \<and> nas_ok s \<and> ngap_ok s"

text \<open>The states of the package variables that initialisations lead to.\<close>

inductive metrics_reach :: "('k registry \<Rightarrow> labels \<times> 'k collector \<Rightarrow> bool) \<Rightarrow> metrics_state \<Rightarrow> bool"
  for conflict :: "'k registry \<Rightarrow> labels \<times> 'k collector \<Rightarrow> bool" where
  reach_initial: "metrics_reach conflict initial_metrics"
| reach_init: "metrics_reach conflict s \<Longrightarrow> Init conflict im s = Returns (reg, s') \<Longrightarrow> metrics_reach conflict s'"

lemma metrics_ok_initial: "metrics_ok initial_metrics"
  by (simp add: metrics_ok_def sbi_ok_def nas_ok_def ngap_ok_def initial_metrics_def)

lemma metrics_ok_business: "metrics_ok s \<Longrightarrow> metrics_ok (EnableBusinessMetrics s)"
  by (simp add: metrics_ok_def EnableBusinessMetrics_def)

lemma when_enabled_P:
  assumes "when_enabled im kind f x = Returns y" "P x" "f x = Returns y \<Longrightarrow> P x \<Longrightarrow> P y"
  shows "P y"
  using assms by (auto simp: when_enabled_def split: if_splits)

lemma metrics_ok_sbi:
  assumes "addSBIToRegistry conflict ls ns (reg, s) = Returns (reg', s')" "metrics_ok s"
  shows "metrics_ok s'"
proof -
  from assms(1) have s': "s' = EnableSbiMetrics (snd (GetSbiInboundMetrics ns (snd (GetSbiOutboundMetrics ns s))))"
    by (auto simp: addSBIToRegistry_def exec_bind_Returns_iff split: prod.splits)
  then have "sbi_ok s'" using sbi_ok_Get by blast
  moreover have "nas_ok s'" "ngap_ok s'"
    using assms(2) s'
    by (simp_all add: metrics_ok_def EnableSbiMetrics_def GetSbiInboundMetrics_def GetSbiOutboundMetrics_def Let_def)
  ultimately show ?thesis by (simp add: metrics_ok_def)
qed

lemma metrics_ok_nas:
  assumes "addNASToRegistry conflict ls ns (reg, s) = Returns (reg', s')" "metrics_ok s"
  shows "metrics_ok s'"
proof -
  from assms(1) have s': "s' = EnableNasMetrics (snd (GetNasHandlerMetrics ns s))"
    by (auto simp: addNASToRegistry_def exec_bind_Returns_iff split: prod.splits)
  have "nas_ok s'"
    using s' by (simp add: nas_ok_def EnableNasMetrics_def GetNasHandlerMetrics_def Let_def vec_ok_def)
  moreover have "sbi_ok s'" "ngap_ok s'"
    using assms(2) s' by (simp_all add: metrics_ok_def EnableNasMetrics_def GetNasHandlerMetrics_def Let_def)
  ultimately show ?thesis by (simp add: metrics_ok_def)
qed

lemma metrics_ok_ngap:
  assumes "addNGAPToRegistry conflict ls ns (reg, s) = Returns (reg', s')" "metrics_ok s"
  shows "metrics_ok s'"
proof -
  from assms(1) have s': "s' = EnableNgapMetrics (snd (GetNgapHandlerMetrics ns s))"
    by (auto simp: addNGAPToRegistry_def exec_bind_Returns_iff split: prod.splits)
  have "ngap_ok s'"
    using s' by (simp add: ngap_ok_def EnableNgapMetrics_def GetNgapHandlerMetrics_def Let_def vec_ok_def)
  moreover have "sbi_ok s'" "nas_ok s'"
    using assms(2) s' by (simp_all add: metrics_ok_def EnableNgapMetrics_def GetNgapHandlerMetrics_def Let_def)
  ultimately show ?thesis by (simp add: metrics_ok_def)
qed

lemma metrics_ok_Init:
  assumes "Init conflict im s = Returns (reg, s')" "metrics_ok s"
  shows "metrics_ok s'"
proof -
  let ?ls = "[(NF_TYPE_LABEL, GetNfName im)]" and ?ns = "Namespace_cfg (GetMetricsInfo im)"
  let ?s1 = "if GetCustomCollectors im \<noteq> [] then EnableBusinessMetrics s else s"
  from assms(1) obtain r a b where steps:
    "when_enabled im SBI (addSBIToRegistry conflict ?ls ?ns) (r, ?s1) = Returns a"
    "when_enabled im NAS (addNASToRegistry conflict ?ls ?ns) a = Returns b"
    "when_enabled im NGAP (addNGAPToRegistry conflict ?ls ?ns) b = Returns (reg, s')"
    unfolding Init_def Let_def exec_bind_Returns_iff by blast
  have "metrics_ok ?s1" using assms(2) metrics_ok_business by simp
  then have "metrics_ok (snd (r, ?s1))" by simp
  from when_enabled_P [where P = "\<lambda>x. metrics_ok (snd x)", OF steps(1) this] have "metrics_ok (snd a)"
    using metrics_ok_sbi by (metis prod.collapse)
  from when_enabled_P [where P = "\<lambda>x. metrics_ok (snd x)", OF steps(2) this] have "metrics_ok (snd b)"
    using metrics_ok_nas by (metis prod.collapse)
  from when_enabled_P [where P = "\<lambda>x. metrics_ok (snd x)", OF steps(3) this] have "metrics_ok (snd (reg, s'))"
    using metrics_ok_ngap by (metis prod.collapse)
  then show ?thesis by simp
qed

lemma reach_metrics_ok: "metrics_reach conflict s \<Longrightarrow> metrics_ok s"
  by (induction rule: metrics_reach.induct) (auto simp: metrics_ok_initial intro: metrics_ok_Init)

lemma inbound_calls_ok: "sbi_ok s \<Longrightarrow> calls_ok (InboundMetrics s ctx dur)"
  unfolding InboundMetrics_def Let_def by (intro calls_ok_seq sbi_calls_ok)

text \<open>The functions of a family that is not enabled make no call.\<close>

lemma sbi_disabled:
  assumes "\<not> sbiMetricsEnabled s"
  shows "SbiMetricHook s method service code dur = Returns []" "InboundMetrics s ctx dur = Returns []"
  using assms
  by (simp_all add: SbiMetricHook_def incrOutboundReqCounter_def incrOutboundReqDurationCounter_def InboundMetrics_def
      IncrInboundReqCounter_def IncrInboundReqDurationCounter_def IsSbiMetricsEnabled_def seq_calls_def)

lemma nas_disabled:
  assumes "\<not> nasMetricsEnabled s"
  shows "IncrMetricsRcvNasMsg T s msg ok causePtr = Returns []"
    "IncrMetricsSentNasMsgs T s msgType ok cause5GMM otherCause = Returns []"
  using assms by (simp_all add: IncrMetricsRcvNasMsg_def IncrMetricsSentNasMsgs_def IsNasMetricsEnabled_def)

lemma ngap_disabled:
  assumes "\<not> ngapMetricsEnabled s"
  shows "IncrMetricsRcvMsg C s msgType ok rcv_cause = Returns []"
    "IncrMetricsSentMsg C s msgType ok sent_cause otherCause = Returns []"
  using assms by (simp_all add: IncrMetricsRcvMsg_def IncrMetricsSentMsg_def IsNgapMetricsEnabled_def)

section \<open>Properties\<close>

text \<open>C10. The metrics packages are well typed at run time. In every state that initialisations lead to, whichever metric
  families were enabled, no counting function calls a vector that was never made: the middleware, the outbound hook and
  the NAS and NGAP counters (for messages and causes that carry what they announce) return, and each call they make on
  the client fits the kind of its vector and carries exactly the label names the vector was made with, each once.
  Before the SBI, NAS or NGAP family is enabled its functions return and make no call.\<close>

theorem metrics_calls_well_typed:
  assumes "metrics_reach conflict s"
    and "\<And>m. msg = Some (Some m) \<Longrightarrow> \<not> missing_cause m"
    and "\<And>c. rcv_cause = Some c \<Longrightarrow> cause_sound C c" and "cause_sound C sent_cause"
  shows "calls_ok (InboundMetrics s ctx dur) \<and> calls_ok (SbiMetricHook s method service code dur) \<and>
    calls_ok (IncrMetricsRcvNasMsg T s msg ok causePtr) \<and>
    calls_ok (IncrMetricsSentNasMsgs T s msgType ok cause5GMM otherCause) \<and>
    calls_ok (IncrMetricsRcvMsg C s msgType ok rcv_cause) \<and>
    calls_ok (IncrMetricsSentMsg C s msgType ok sent_cause otherCause) \<and>
    (\<not> sbiMetricsEnabled s \<longrightarrow>
       SbiMetricHook s method service code dur = Returns [] \<and> InboundMetrics s ctx dur = Returns []) \<and>
    (\<not> nasMetricsEnabled s \<longrightarrow>
       IncrMetricsRcvNasMsg T s msg ok causePtr = Returns [] \<and>
       IncrMetricsSentNasMsgs T s msgType ok cause5GMM otherCause = Returns []) \<and>
    (\<not> ngapMetricsEnabled s \<longrightarrow>
       IncrMetricsRcvMsg C s msgType ok rcv_cause = Returns [] \<and>
       IncrMetricsSentMsg C s msgType ok sent_cause otherCause = Returns [])"
proof -
  have ok: "sbi_ok s" "nas_ok s" "ngap_ok s"
    using reach_metrics_ok [OF assms(1)] by (simp_all add: metrics_ok_def)
  show ?thesis
    by (intro conjI impI, rule inbound_calls_ok [OF ok(1)], rule sbi_calls_ok(1) [OF ok(1)],
        rule nas_calls_ok(1) [OF ok(2)], use assms(2) in blast, rule nas_calls_ok(2) [OF ok(2)],
        rule ngap_calls_ok(1) [OF ok(3)], use assms(3) in blast, rule ngap_calls_ok(2) [OF ok(3) assms(4)],
        (erule sbi_disabled nas_disabled ngap_disabled)+)
qed

definition sample_config :: "nat InitMetrics" where
  "sample_config = NewInitMetrics
     \<lparr>Scheme = ''https'', BindingIPv4 = ''127.0.0.1'', Port = 9090, Tls_cfg = \<lparr>Pem = ''pem'', Key = ''key''\<rparr>,
      Namespace_cfg = ''free5gc''\<rparr> ''amf'' (\<lambda>k. Some (k \<noteq> NGAP)) [(''nas'', [1])]"

theorem metrics_calls_well_typed_witness:
  "\<exists>s. metrics_reach (\<lambda>(_ :: nat registry) _. False) s \<and> sbiMetricsEnabled s \<and> calls_ok (SbiMetricHook s ''GET'' ''nrf'' 200 (0 :: nat))"
proof -
  have neq: "SBI \<noteq> NGAP" "NAS \<noteq> NGAP" by (simp_all add: SBI_def NAS_def NGAP_def)
  obtain reg s where init: "Init (\<lambda>_ _. False) sample_config initial_metrics = Returns (reg, s)" "sbiMetricsEnabled s"
    by (simp add: Init_def sample_config_def NewInitMetrics_def GetMetricsInfo_def GetNfName_def GetMetricsEnabled_def
        GetCustomCollectors_def when_enabled_def neq addSBIToRegistry_def addNASToRegistry_def GetSbiOutboundMetrics_def
        GetSbiInboundMetrics_def GetNasHandlerMetrics_def EnableSbiMetrics_def EnableNasMetrics_def Let_def)
  have reach: "metrics_reach (\<lambda>(_ :: nat registry) _. False) s" using reach_init [OF reach_initial init(1)] .
  have sound: "cause_sound (\<lambda>n. 1) \<lparr>Present = 0, RadioNetwork = None, Transport = None, Nas = None, Protocol = None,
      Misc = None, ChoiceExtensions = None\<rparr>" by (simp add: cause_sound_def)
  have "calls_ok (SbiMetricHook s ''GET'' ''nrf'' 200 (0 :: nat))"
    by (rule metrics_calls_well_typed [where msg = None and rcv_cause = None, OF reach _ _ sound, THEN conjunct2, THEN conjunct1])
      simp_all
  with reach init(2) show ?thesis by blast
qed

end
