(* ===== verification/Logger.thy ===== *)
theory Logger
  imports GoOS
begin

text \<open>
  \<^verbatim>\<open>src/lib/util/logger/logger.go\<close>: the log file (its directory, its owner under \<^verbatim>\<open>sudo\<close>, its rotation), the hook that
  copies log entries into it, and the two middlewares that write the requests of the HTTP framework and its panics to
  the log.

  The logging library, the HTTP framework and the entry formatter are not part of the sources: the records
  \<open>logrus_api\<close> and \<open>gin_api\<close> hold the operations the code calls, and every operation here takes them as an argument.
\<close>

section \<open>Constants and data\<close>

definition RFC3339Nano :: string where "RFC3339Nano = ''2006-01-02T15:04:05.000000000Z07:00''"

definition FieldNF :: string where "FieldNF = ''NF''"
definition FieldCategory :: string where "FieldCategory = ''CAT''"
definition FieldListenAddr :: string where "FieldListenAddr = ''LAddr''"
definition FieldRemoteAddr :: string where "FieldRemoteAddr = ''RAddr''"
definition FieldRanAddr :: string where "FieldRanAddr = ''RanAddr''"
definition FieldRanID :: string where "FieldRanID = ''RanID''"
definition FieldRanType :: string where "FieldRanType = ''RanTP''"
definition FieldRanUeNgapID :: string where "FieldRanUeNgapID = ''RUID''"
definition FieldAmfUeNgapID :: string where "FieldAmfUeNgapID = ''AUID''"
definition FieldSuci :: string where "FieldSuci = ''SUCI''"
definition FieldSupi :: string where "FieldSupi = ''SUPI''"
definition FieldPDUSessionID :: string where "FieldPDUSessionID = ''PDUID''"
definition FieldControlPlaneNodeID :: string where "FieldControlPlaneNodeID = ''CPNodeID''"
definition FieldUserPlaneNodeID :: string where "FieldUserPlaneNodeID = ''UPNodeID''"
definition FieldPFCPTxTransaction :: string where "FieldPFCPTxTransaction = ''TXTR''"
definition FieldPFCPRxTransaction :: string where "FieldPFCPRxTransaction = ''RXTR''"
definition FieldControlPlaneSEID :: string where "FieldControlPlaneSEID = ''CPSEID''"
definition FieldUserPlaneSEID :: string where "FieldUserPlaneSEID = ''UPSEID''"
definition FieldApplicationID :: string where "FieldApplicationID = ''APPID''"

record Frame =
  Function :: string
  File :: string
  Line :: nat

record Formatter =
  FieldsOrder :: "string list"
  TimestampFormat :: string
  TrimMessages :: bool
  NoFieldsSpace :: bool
  HideKeys :: bool
  NoColors :: bool
  HidePartialKeys :: "string \<rightharpoonup> bool"
  CustomCallerFormatter :: "(Frame \<Rightarrow> string) option"

datatype logrus_formatter = NestedFormatter Formatter | OtherFormatter

datatype Level = PanicLevel | FatalLevel | ErrorLevel | WarnLevel | InfoLevel | DebugLevel | TraceLevel

record FileHook =
  hook_file :: string
  hook_flag :: "open_flag list"
  hook_chmod :: nat
  hook_formatter :: Formatter

datatype log_error =
    NilLogger
  | NoFilePath
  | MakeDirError file_error
  | ReadDirError file_error
  | RenameError file_error
  | DirChownError file_error
  | CannotOpen file_error
  | CannotClose
  | FileChownError file_error
  | FormatterError
  | WriteError file_error

text \<open>A step that touches the file system, the error it is reported as, and what is done when it succeeded.\<close>

definition os_then ::
    "file_system \<times> file_error option \<Rightarrow> (file_error \<Rightarrow> log_error) \<Rightarrow>
     (file_system \<Rightarrow> file_system \<times> (log_error + 'a)) \<Rightarrow> file_system \<times> (log_error + 'a)" where
  "os_then r e k = (case r of (fs, Some err) \<Rightarrow> (fs, Inl (e err)) | (fs, None) \<Rightarrow> k fs)"

section \<open>The log file\<close>

text \<open>\<^verbatim>\<open>os.Stat\<close> reports that the file does not exist, or else that the rotation goes on.\<close>

definition rotation_counter :: "string \<Rightarrow> (string \<times> bool) list \<Rightarrow> nat" where
  "rotation_counter fileName contents =
     foldl (\<lambda>counter content.
        if \<not> snd content then (if strings_Contains (fst content) (fileName @ ''.'') then counter + 1 else counter)
        else counter) 0 contents"

definition renameOldLogFile :: "string \<Rightarrow> file_system \<Rightarrow> file_system \<times> (log_error + unit)" where
  "renameOldLogFile file fs =
     (if file_at fs file = None then (fs, Inr ())
      else case filepath_Split file of (fileDir, fileName) \<Rightarrow>
        (case os_ReadDir fileDir fs of
           Inl err \<Rightarrow> (fs, Inl (ReadDirError err))
         | Inr contents \<Rightarrow>
             let newFile = fileDir @ fileName @ ''.'' @ Itoa (rotation_counter fileName contents + 1)
             in os_then (os_Rename file newFile fs) RenameError (\<lambda>fs. (fs, Inr ()))))"

definition createLogFile :: "string \<Rightarrow> bool \<Rightarrow> file_system \<Rightarrow> file_system \<times> (log_error + string)" where
  "createLogFile file0 rename fs0 =
     (case filepath_Split file0 of (dir0, fileName) \<Rightarrow>
        if fileName = [] then (fs0, Inl NoFilePath)
        else
          let dir = (if dir0 = [] then ''./log/'' else dir0);
              file = (if dir0 = [] then filepath_Join dir fileName else file0)
          in case (if rename then renameOldLogFile file fs0 else (fs0, Inr ())) of
               (fs1, Inl err) \<Rightarrow> (fs1, Inl err)
             | (fs1, Inr _) \<Rightarrow>
                 os_then (os_MkdirAll dir fs1) MakeDirError (\<lambda>fs2.
                   case (Atoi (env fs2 ''SUDO_UID''), Atoi (env fs2 ''SUDO_GID'')) of
                     (Inr sudoUID, Inr sudoGID) \<Rightarrow>
                       os_then (os_Chown dir sudoUID sudoGID fs2) DirChownError (\<lambda>fs3.
                       os_then (os_OpenFile (filepath_Clean file) [O_CREATE, O_APPEND, O_RDWR] fs3) CannotOpen (\<lambda>fs4.
                         if close_fails fs4 then (fs4, Inl CannotClose)
                         else os_then (os_Chown file sudoUID sudoGID fs4) FileChownError (\<lambda>fs5. (fs5, Inr file))))
                   | _ \<Rightarrow> (fs2, Inr file)))"

section \<open>The file hook\<close>

definition hidden_keys :: "string \<rightharpoonup> bool" where
  "hidden_keys = [FieldNF \<mapsto> True, FieldCategory \<mapsto> True, FieldRanID \<mapsto> True, FieldRanType \<mapsto> True,
     FieldSuci \<mapsto> True, FieldSupi \<mapsto> True]"

definition Levels :: "FileHook \<Rightarrow> Level list" where
  "Levels h = [PanicLevel, FatalLevel, ErrorLevel, WarnLevel, InfoLevel, DebugLevel, TraceLevel]"

text \<open>
  \<open>format\<close> is the formatter's \<^verbatim>\<open>Format\<close>. The hook's file is open with \<^verbatim>\<open>O_APPEND\<close>, as \<open>LogFileHook\<close> opens it.
\<close>

definition Fire ::
    "(Formatter \<Rightarrow> 'e \<Rightarrow> string option) \<Rightarrow> FileHook \<Rightarrow> 'e \<Rightarrow> file_system \<Rightarrow> file_system \<times> (log_error + unit)" where
  "Fire format h entry fs =
     (case format (hook_formatter h) entry of
        None \<Rightarrow> (fs, Inl FormatterError)
      | Some line \<Rightarrow> os_then (os_WriteString (hook_file h) line fs) WriteError (\<lambda>fs. (fs, Inr ())))"

definition NewFileHook ::
    "string \<Rightarrow> open_flag list \<Rightarrow> nat \<Rightarrow> string list \<Rightarrow> file_system \<Rightarrow> file_system \<times> (log_error + FileHook)" where
  "NewFileHook path flag chmod fieldsOrder fs =
     (let fileFormatter = \<lparr>FieldsOrder = fieldsOrder, TimestampFormat = RFC3339Nano, TrimMessages = True,
            NoFieldsSpace = True, HideKeys = False, NoColors = True, HidePartialKeys = hidden_keys,
            CustomCallerFormatter = None\<rparr>
      in os_then (os_OpenFile (filepath_Clean path) flag fs) CannotOpen (\<lambda>fs1.
           (fs1, Inr \<lparr>hook_file = filepath_Clean path, hook_flag = flag, hook_chmod = chmod, hook_formatter = fileFormatter\<rparr>)))"

text \<open>\<^verbatim>\<open>path.Base\<close>: the last element, without trailing slashes.\<close>

definition path_Base :: "string \<Rightarrow> string" where
  "path_Base p =
     (if p = [] then ''.''
      else
        let q = rev (dropWhile (\<lambda>c. c = CHR ''/'') (rev p)); b = snd (filepath_Split q)
        in if b = [] then ''/'' else b)"

definition caller_text :: "Frame \<Rightarrow> string" where
  "caller_text f =
     (let s = Split CHR ''.'' (Function f); funcName = s ! (length s - 1)
      in '' ['' @ path_Base (File f) @ '':'' @ Itoa (Line f) @ '']['' @ funcName @ ''()]'')"

record 'l logrus_api =
  logrus_New :: 'l
  SetReportCaller :: "'l \<Rightarrow> bool \<Rightarrow> 'l"
  SetFormatter :: "'l \<Rightarrow> logrus_formatter \<Rightarrow> 'l"
  GetFormatter :: "'l \<Rightarrow> logrus_formatter"
  AddHook :: "'l \<Rightarrow> FileHook \<Rightarrow> 'l"

definition New :: "'l logrus_api \<Rightarrow> string list \<Rightarrow> 'l" where
  "New api fieldsOrder =
     (let log = SetReportCaller api (logrus_New api) False
      in SetFormatter api log (NestedFormatter
           \<lparr>FieldsOrder = fieldsOrder, TimestampFormat = RFC3339Nano, TrimMessages = True, NoFieldsSpace = True,
            HideKeys = False, NoColors = False, HidePartialKeys = hidden_keys,
            CustomCallerFormatter = Some caller_text\<rparr>))"

definition LogFileHook ::
    "'l logrus_api \<Rightarrow> 'l option \<Rightarrow> string \<Rightarrow> file_system \<Rightarrow> file_system \<times> (log_error + 'l)" where
  "LogFileHook api logger logPath fs =
     (case logger of
        None \<Rightarrow> (fs, Inl NilLogger)
      | Some log \<Rightarrow>
          (case createLogFile logPath False fs of
             (fs1, Inl err) \<Rightarrow> (fs1, Inl err)
           | (fs1, Inr filePath) \<Rightarrow>
               let fieldsOrder = (case GetFormatter api log of NestedFormatter f \<Rightarrow> FieldsOrder f | _ \<Rightarrow> [])
               in case NewFileHook filePath [O_CREATE, O_APPEND, O_RDWR] 438 fieldsOrder fs1 of
                    (fs2, Inl err) \<Rightarrow> (fs2, Inl err)
                  | (fs2, Inr fhook) \<Rightarrow> (fs2, Inr (AddHook api log fhook))))"

section \<open>Rotation\<close>

abbreviation counted :: "string \<Rightarrow> string \<times> bool \<Rightarrow> bool" where
  "counted n e \<equiv> \<not> snd e \<and> strings_Contains (fst e) (n @ ''.'')"

definition rotated_name :: "string \<Rightarrow> nat \<Rightarrow> string" where
  "rotated_name n i = n @ ''.'' @ Itoa i"

text \<open>
  The state rotations keep: the directory lists the files it has, and the entries that look like rotated copies of the
  log file are the copies \<open>1, 2, ...\<close>, which hold the logs of \<open>hist\<close>, oldest first.
\<close>

definition rotated :: "string \<Rightarrow> string list \<Rightarrow> file_system \<Rightarrow> bool" where
  "rotated file hist fs \<longleftrightarrow>
     (case filepath_Split file of (d, n) \<Rightarrow>
        let es = entries fs (filepath_Clean d); copies = filter (counted n) es
        in distinct copies \<and> set copies = (\<lambda>i. (rotated_name n (Suc i), False)) ` {..<length hist} \<and>
           (\<forall>i<length hist. file_at fs (d @ rotated_name n (Suc i)) = Some (hist ! i)) \<and>
           (\<forall>m. proper_name m \<and> file_at fs (d @ m) \<noteq> None \<longrightarrow> (m, False) \<in> set es))"

lemma rotation_counter_filter: "rotation_counter n es = length (filter (counted n) es)"
proof -
  have "foldl (\<lambda>counter content. if \<not> snd content then (if strings_Contains (fst content) (n @ ''.'') then counter + 1
      else counter) else counter) k es = k + length (filter (counted n) es)" for k
    by (induction es arbitrary: k) auto
  then show ?thesis by (simp add: rotation_counter_def)
qed

lemma Contains_length: "strings_Contains s t \<Longrightarrow> length t \<le> length s"
  by (induction s) (auto simp: HasPrefix_iff dest: arg_cong [of _ _ length])

lemma Contains_prefix: "strings_Contains (t @ r) t"
  by (cases "t @ r") (simp_all flip: append_Cons, metis HasPrefix_append)

lemma Itoa_inject: "Itoa i = Itoa j \<longleftrightarrow> i = j"
  by (metis max.cobounded1 max.cobounded2 parse_uint_loop_Itoa sum.inject(2))

lemma rotated_name_facts:
  "rotated_name n i = rotated_name n j \<longleftrightarrow> i = j"
  "counted n (rotated_name n i, False)" "\<not> counted n (n, b)"
  "rotated_name n i \<noteq> n"
  using Contains_prefix [of "n @ ''.''" "Itoa i"] Contains_length [of n "n @ ''.''"]
  by (auto simp: rotated_name_def Itoa_inject)

lemma proper_rotated_name:
  assumes "proper_name n" shows "proper_name (rotated_name n i)"
proof -
  have "CHR ''/'' \<notin> set (Itoa i)" using Itoa_digits [of i] by (auto simp: is_digit_def)
  moreover have "length (rotated_name n i) > 2"
    using assms by (cases n; cases "Itoa i") (auto simp: rotated_name_def proper_name_def)
  then have "rotated_name n i \<noteq> ''.''" "rotated_name n i \<noteq> ''..''" by auto
  ultimately show ?thesis using assms by (auto simp: proper_name_def rotated_name_def)
qed

text \<open>What a rotation does to the files and to the entries of the directory.\<close>

lemma renameOldLogFile_result:
  assumes split: "filepath_Split file = (d, n)" and c: "file_at fs file = Some c" and d: "d \<noteq> []"
    and n: "proper_name n" and "rename_ok fs (filepath_Clean file)" "readdir_ok fs (filepath_Clean d)"
  defines "m \<equiv> rotated_name n (Suc (rotation_counter n (entries fs (filepath_Clean d))))"
  shows "\<exists>fs'. renameOldLogFile file fs = (fs', Inr ()) \<and>
    files fs' = (files fs)(filepath_Clean file := None, filepath_Clean (d @ m) \<mapsto> c) \<and>
    (let es = filter (\<lambda>e. e \<noteq> (n, False)) (entries fs (filepath_Clean d))
     in entries fs' (filepath_Clean d) = (if (m, False) \<in> set es then es else es @ [(m, False)]))"
proof -
  have m: "CHR ''/'' \<notin> set m" using proper_rotated_name [OF n] by (simp add: m_def proper_name_def)
  have dir: "d = [] \<or> last d = CHR ''/''" using filepath_Split_dir [of "file"] split by simp
  have split': "filepath_Split (d @ m) = (d, m)" by (rule filepath_Split_unique [OF m dir])
  have "n @ ''.'' @ Itoa (rotation_counter n (entries fs (filepath_Clean d)) + 1) = m"
    by (simp add: m_def rotated_name_def)
  then have "renameOldLogFile file fs = os_then (os_Rename file (d @ m) fs) RenameError (\<lambda>fs. (fs, Inr ()))"
    using assms(2,3,6) by (simp add: renameOldLogFile_def split os_ReadDir_def Let_def)
  with c assms(5) show ?thesis
    by (simp add: os_then_def os_Rename_def add_entry_def dir_of_def Let_def split split')
qed

section \<open>Properties\<close>

text \<open>C11. Rotating the log keeps every log. When the path of the log names a directory and a proper file name, the copies in the
  directory are numbered \<open>1 .. k\<close> and the operating system lists the directory and renames the log, the rotation gives
  the current log the number \<open>k + 1\<close>, a name no file had; the log file is gone from its old name, all older copies keep
  their contents and the directory is again in the state the next rotation expects.\<close>

theorem log_rotation_keeps_logs:
  assumes "rotated file hist fs" and "file_at fs file = Some c" and "filepath_Split file = (d, n)"
    and "proper_name n" and "d \<noteq> []" and "rename_ok fs (filepath_Clean file)" and "readdir_ok fs (filepath_Clean d)"
  shows "\<exists>fs'. renameOldLogFile file fs = (fs', Inr ()) \<and> rotated file (hist @ [c]) fs' \<and> file_at fs' file = None \<and>
    file_at fs (d @ rotated_name n (Suc (length hist))) = None \<and>
    file_at fs' (d @ rotated_name n (Suc (length hist))) = Some c"
proof -
  let ?es = "entries fs (filepath_Clean d)" and ?m = "rotated_name n (Suc (length hist))"
  have copies: "distinct (filter (counted n) ?es)"
      "set (filter (counted n) ?es) = (\<lambda>i. (rotated_name n (Suc i), False)) ` {..<length hist}"
    and old: "\<And>i. i < length hist \<Longrightarrow> file_at fs (d @ rotated_name n (Suc i)) = Some (hist ! i)"
    and listed: "\<And>m. proper_name m \<Longrightarrow> file_at fs (d @ m) \<noteq> None \<Longrightarrow> (m, False) \<in> set ?es"
    using assms(1) by (auto simp: rotated_def Let_def assms(3))
  have "inj_on (\<lambda>i. (rotated_name n (Suc i), False)) {..<length hist}"
    by (simp add: inj_on_def rotated_name_facts)
  with copies have count: "rotation_counter n ?es = length hist"
    by (simp add: rotation_counter_filter card_image flip: distinct_card)
  have new: "(?m, False) \<notin> set ?es"
  proof
    assume "(?m, False) \<in> set ?es"
    then have "(?m, False) \<in> set (filter (counted n) ?es)" using rotated_name_facts(2) by simp
    then show False unfolding copies by (auto simp: rotated_name_facts)
  qed
  have name: "file = d @ n" using filepath_Split_append [of "file"] assms(3) by simp
  have dir: "d = [] \<or> last d = CHR ''/''" using filepath_Split_dir [of "file"] assms(3) by simp
  note inject = filepath_Clean_inject [OF _ _ dir] and proper = proper_rotated_name [OF assms(4)]
  obtain fs' where run: "renameOldLogFile file fs = (fs', Inr ())"
    and files: "files fs' = (files fs)(filepath_Clean file := None, filepath_Clean (d @ ?m) \<mapsto> c)"
    and ents: "entries fs' (filepath_Clean d) = filter (\<lambda>e. e \<noteq> (n, False)) ?es @ [(?m, False)]"
    using renameOldLogFile_result [OF assms(3,2,5,4,6,7)] new by (auto simp: count Let_def)
  have "filter (counted n) (filter (\<lambda>e. e \<noteq> (n, False)) ?es) = filter (counted n) ?es"
    using rotated_name_facts(3) [of n False] by (auto intro!: filter_cong)
  then have copies': "filter (counted n) (entries fs' (filepath_Clean d)) = filter (counted n) ?es @ [(?m, False)]"
    using rotated_name_facts(2) [of n] by (simp add: ents)
  have files': "file_at fs' (d @ x) = (if x = ?m then Some c else if x = n then None else file_at fs (d @ x))"
    if "proper_name x" for x
    using inject [OF that proper] inject [OF that assms(4)] by (simp add: file_at_def files name)
  have "rotated file (hist @ [c]) fs'"
    unfolding rotated_def assms(3) Let_def prod.case copies'
  proof (intro conjI allI impI; (elim conjE)?)
    show "distinct (filter (counted n) ?es @ [(?m, False)])" using copies(1) new by simp
    show "set (filter (counted n) ?es @ [(?m, False)]) = (\<lambda>i. (rotated_name n (Suc i), False)) ` {..<length (hist @ [c])}"
      using copies(2) by (simp add: lessThan_Suc)
    show "file_at fs' (d @ rotated_name n (Suc i)) = Some ((hist @ [c]) ! i)" if "i < length (hist @ [c])" for i
      using that old files' [OF proper] rotated_name_facts(1,4) by (auto simp: nth_append less_Suc_eq)
    show "(x, False) \<in> set (entries fs' (filepath_Clean d))" if "proper_name x" "file_at fs' (d @ x) \<noteq> None" for x
      using that listed [OF that(1)] files' [OF that(1)] by (auto simp: ents split: if_splits)
  qed
  moreover have "file_at fs' file = None" using files' [OF assms(4)] rotated_name_facts(4) [of n] by (metis name)
  moreover have "file_at fs (d @ ?m) = None" using listed [OF proper] new by blast
  moreover have "file_at fs' (d @ ?m) = Some c" using files' [OF proper] by simp
  ultimately show ?thesis using run by blast
qed

definition sample_fs :: file_system where
  "sample_fs = \<lparr>creatable = (\<lambda>_. True), write_fails = False, close_fails = False,
     files = [''log/amf.log'' \<mapsto> ''new'', ''log/amf.log.1'' \<mapsto> ''old''],
     entries = (\<lambda>d. if d = ''log'' then [(''amf.log'', False), (''amf.log.1'', False), (''amf.log.d'', True)] else []),
     has_dir = (\<lambda>d. d = ''.''), mkdir_ok = (\<lambda>_. True), readdir_ok = (\<lambda>_. True), rename_ok = (\<lambda>_. True),
     chown_ok = (\<lambda>_. True), owner = (\<lambda>_. None), env = (\<lambda>v. if v = ''SUDO_UID'' \<or> v = ''SUDO_GID'' then ''1000'' else [])\<rparr>"

lemma sample_log_split:
  "filepath_Split ''log/amf.log'' = (''log/'', ''amf.log'')" "filepath_Clean ''log/'' = ''log''" "rotated_name ''amf.log'' 1 = ''amf.log.1''"
  "filepath_Clean ''log/amf.log'' = ''log/amf.log''" "filepath_Clean ''log/amf.log.1'' = ''log/amf.log.1''"
  by code_simp+

lemma sample_fs_rotated: "rotated ''log/amf.log'' [''old''] sample_fs"
proof -
  have counts: "strings_Contains ''amf.log'' ''amf.log.'' = False" "strings_Contains ''amf.log.1'' ''amf.log.'' = True"
    by code_simp+
  have "rooted ''log/'' = False" "clean_parts ''log/'' = [''log'']" by code_simp+
  then have at: "file_at sample_fs (''log/'' @ m) = (if m = ''amf.log'' then Some ''new'' else if m = ''amf.log.1'' then Some ''old'' else None)"
    if "proper_name m" for m
    using filepath_Clean_name [OF that, of "''log/''"] by (simp add: file_at_def sample_fs_def path_of_def)
  have proper: "proper_name ''amf.log.1''" by (simp add: proper_name_def)
  have es: "entries sample_fs ''log'' = [(''amf.log'', False), (''amf.log.1'', False), (''amf.log.d'', True)]"
    by (simp add: sample_fs_def)
  show ?thesis
    using at at [OF proper] counts sample_log_split(3)
    by (auto simp: rotated_def sample_log_split(1,2) es Let_def split: if_splits)
qed

theorem log_rotation_keeps_logs_witness:
  "\<exists>fs'. renameOldLogFile ''log/amf.log'' sample_fs = (fs', Inr ()) \<and> rotated ''log/amf.log'' [''old'', ''new''] fs'"
  using log_rotation_keeps_logs [OF sample_fs_rotated, of "''new''" "''log/''" "''amf.log''"]
  by (auto simp: sample_log_split file_at_def proper_name_def sample_fs_def)

text \<open>When a copy is missing the count is too low, and the rotation replaces the copy that has the next number.\<close>

lemma log_rotation_overwrites:
  assumes "filepath_Split file = (d, n)" "file_at fs file = Some c" "d \<noteq> []" "proper_name n"
    and "rename_ok fs (filepath_Clean file)" "readdir_ok fs (filepath_Clean d)"
    and "Suc (rotation_counter n (entries fs (filepath_Clean d))) = k" "file_at fs (d @ rotated_name n k) = Some old"
  shows "\<exists>fs'. renameOldLogFile file fs = (fs', Inr ()) \<and> file_at fs' (d @ rotated_name n k) = Some c"
  using renameOldLogFile_result [OF assms(1-6)] assms(7) by (auto simp: file_at_def)

section \<open>Attaching a log file\<close>

text \<open>The directory and the path of the log file, and the ids of the user who runs \<^verbatim>\<open>sudo\<close>.\<close>

definition log_path :: "string \<Rightarrow> string \<times> string" where
  "log_path p = (case filepath_Split p of (d, n) \<Rightarrow>
     if d = [] then (''./log/'', filepath_Join ''./log/'' n) else (d, p))"

definition sudo_ids :: "file_system \<Rightarrow> (int \<times> int) option" where
  "sudo_ids fs = (case (Atoi (env fs ''SUDO_UID''), Atoi (env fs ''SUDO_GID'')) of (Inr u, Inr g) \<Rightarrow> Some (u, g) | _ \<Rightarrow> None)"

definition contents :: "file_system \<Rightarrow> string \<Rightarrow> string" where
  "contents fs p = (case file_at fs p of None \<Rightarrow> [] | Some c \<Rightarrow> c)"

definition log_file_allowed :: "string \<Rightarrow> string \<Rightarrow> file_system \<Rightarrow> bool" where
  "log_file_allowed dir file fs \<longleftrightarrow> mkdir_ok fs (filepath_Clean dir) \<and> creatable fs (filepath_Clean file) \<and>
     (sudo_ids fs \<noteq> None \<longrightarrow> chown_ok fs (filepath_Clean dir) \<and> \<not> close_fails fs \<and> chown_ok fs (filepath_Clean file))"

lemma log_path_dir:
  assumes "log_path p = (dir, file)" "proper_name (snd (filepath_Split p))"
  shows "dir_of (filepath_Clean file) = filepath_Clean dir"
proof (cases "filepath_Split p")
  case (Pair d n)
  have p: "p = d @ n" and dir: "d = [] \<or> last d = CHR ''/''"
    using filepath_Split_append [of p] filepath_Split_dir [of p] Pair by simp_all
  show ?thesis
  proof (cases "d = []")
    case True
    have "filepath_Clean ''./log//'' = filepath_Clean ''./log/''" by code_simp
    with assms Pair True dir_of_Clean [of n "''./log//''"] show ?thesis
      by (auto simp: log_path_def filepath_Join_def)
  next
    case False
    with assms Pair p dir dir_of_Clean [of n d] show ?thesis by (auto simp: log_path_def)
  qed
qed

text \<open>What opening a file for appending does, and when it is possible.\<close>

lemma open_append:
  assumes "os_OpenFile (filepath_Clean p) [O_CREATE, O_APPEND, O_RDWR] fs = (fs', r)" and "has_dir fs (dir_of (filepath_Clean p))"
  shows "files fs \<subseteq>\<^sub>m files fs' \<and> contents fs' p = contents fs p \<and> has_dir fs' = has_dir fs \<and> owner fs' = owner fs \<and>
    creatable fs' = creatable fs \<and> chown_ok fs' = chown_ok fs \<and> close_fails fs' = close_fails fs \<and>
    (r = None \<longleftrightarrow> creatable fs (filepath_Clean p)) \<and> (r = None \<longrightarrow> file_at fs' p = Some (contents fs p))"
  using assms by (auto simp: os_OpenFile_def open_create_def can_create_def contents_def file_at_def map_le_def Let_def
      split: if_splits option.splits)

lemma createLogFile_result:
  assumes path: "log_path p = (dir, file)" "proper_name (snd (filepath_Split p))"
    and run: "createLogFile p False fs = (fs', r)"
  shows "files fs \<subseteq>\<^sub>m files fs' \<and> contents fs' file = contents fs file \<and> creatable fs' = creatable fs \<and>
    (case r of
       Inl _ \<Rightarrow> \<not> log_file_allowed dir file fs
     | Inr f \<Rightarrow> f = file \<and> has_dir fs' (filepath_Clean dir) \<and>
         (creatable fs (filepath_Clean file) \<longrightarrow> log_file_allowed dir file fs) \<and>
         (\<forall>ids. sudo_ids fs = Some ids \<longrightarrow> owner fs' (filepath_Clean dir) = Some ids \<and> owner fs' (filepath_Clean file) = Some ids))"
proof -
  obtain d n where split: "filepath_Split p = (d, n)" by (cases "filepath_Split p") auto
  with path have n: "n \<noteq> []" and dirs: "(if d = [] then ''./log/'' else d) = dir"
      "(if d = [] then filepath_Join dir n else p) = file"
    by (auto simp: log_path_def proper_name_def split: if_splits)
  let ?fs1 = "fs\<lparr>has_dir := (\<lambda>q. q \<in> set (dirs_above dir) \<or> has_dir fs q)\<rparr>"
  have here: "has_dir ?fs1 (filepath_Clean dir)" using dirs_above_self by simp
  show ?thesis
  proof (cases "mkdir_ok fs (filepath_Clean dir)")
    case False
    with run n show ?thesis
      by (auto simp: createLogFile_def split dirs Let_def os_then_def os_MkdirAll_def log_file_allowed_def contents_def)
  next
    case ok: True
    show ?thesis
    proof (cases "sudo_ids fs")
      case None
      have "createLogFile p False fs = (?fs1, Inr file)"
        using ok n None dirs(2)
        by (auto simp: createLogFile_def split dirs(1) Let_def os_then_def os_MkdirAll_def sudo_ids_def split: sum.splits if_splits)
      with run have "fs' = ?fs1" "r = Inr file" by simp_all
      with here None ok show ?thesis by (simp add: log_file_allowed_def contents_def file_at_def)
    next
      case (Some ids)
      then obtain u g where ids: "Atoi (env fs ''SUDO_UID'') = Inr u" "Atoi (env fs ''SUDO_GID'') = Inr g" "ids = (u, g)"
        by (auto simp: sudo_ids_def split: sum.splits)
      let ?fs2 = "?fs1\<lparr>owner := (owner fs)(filepath_Clean dir \<mapsto> (u, g))\<rparr>"
      obtain fs3 e where opened: "os_OpenFile (filepath_Clean file) [O_CREATE, O_APPEND, O_RDWR] ?fs2 = (fs3, e)"
        by (cases "os_OpenFile (filepath_Clean file) [O_CREATE, O_APPEND, O_RDWR] ?fs2") auto
      have "has_dir ?fs2 (dir_of (filepath_Clean file))" using here log_path_dir [OF path] by simp
      note op = open_append [OF opened this]
      have eq: "createLogFile p False fs =
          (if \<not> chown_ok fs (filepath_Clean dir) then (?fs1, Inl (DirChownError ChownFailed))
           else case e of
             Some x \<Rightarrow> (fs3, Inl (CannotOpen x))
           | None \<Rightarrow>
               if close_fails fs3 then (fs3, Inl CannotClose)
               else if \<not> chown_ok fs3 (filepath_Clean file) then (fs3, Inl (FileChownError ChownFailed))
               else (fs3\<lparr>owner := (owner fs3)(filepath_Clean file \<mapsto> (u, g))\<rparr>, Inr file))"
        using n ok ids(1,2) dirs(2) opened split
        by (cases "d = []") (simp_all add: createLogFile_def dirs(1) [symmetric] Let_def os_then_def os_MkdirAll_def
            os_Chown_def split: option.splits)
      have same: "contents ?fs2 file = contents fs file" "contents ?fs1 file = contents fs file" "files ?fs2 = files fs"
        "contents (fs3\<lparr>owner := x\<rparr>) file = contents fs3 file" for x
        by (simp_all add: contents_def file_at_def)
      show ?thesis
      proof (cases "chown_ok fs (filepath_Clean dir)")
        case False
        with eq run same(2) Some show ?thesis by (auto simp: log_file_allowed_def)
      next
        case dir: True
        show ?thesis
        proof (cases e)
          case (Some x)
          with eq run dir op same show ?thesis by (auto simp: log_file_allowed_def)
        next
          case None
          with eq run dir op same ids(3) ok here \<open>sudo_ids fs = Some ids\<close> show ?thesis
            by (cases "close_fails fs3"; cases "chown_ok fs3 (filepath_Clean file)") (auto simp: log_file_allowed_def)
        qed
      qed
    qed
  qed
qed

text \<open>C29. Attaching a log file to a logger, for a path that ends in a proper file name (not empty, \<^verbatim>\<open>.\<close> or \<^verbatim>\<open>..\<close>).
  It succeeds exactly when the operating system allows every step, and then the logger gets one hook for the cleaned
  path of the log file; the directory and the file exist, the file has the text it had, and under \<^verbatim>\<open>sudo\<close> both belong to
  the user who ran it. Whether it succeeds or not, no file loses its contents.\<close>

theorem log_file_hook:
  assumes "log_path path = (dir, file)" and "proper_name (snd (filepath_Split path))"
    and "LogFileHook api (Some log) path fs = (fs', r)"
  shows "files fs \<subseteq>\<^sub>m files fs' \<and>
    (case r of
       Inl _ \<Rightarrow> \<not> log_file_allowed dir file fs
     | Inr log' \<Rightarrow> log_file_allowed dir file fs \<and>
         (\<exists>h. log' = AddHook api log h \<and> hook_file h = filepath_Clean file) \<and>
         file_at fs' file = Some (contents fs file) \<and> has_dir fs' (filepath_Clean dir) \<and>
         (\<forall>ids. sudo_ids fs = Some ids \<longrightarrow>
            owner fs' (filepath_Clean dir) = Some ids \<and> owner fs' (filepath_Clean file) = Some ids))"
proof (cases "createLogFile path False fs")
  case (Pair fs1 r1)
  note created = createLogFile_result [OF assms(1,2) Pair]
  show ?thesis
  proof (cases r1)
    case (Inl e)
    with created assms(3) Pair show ?thesis by (auto simp: LogFileHook_def)
  next
    case (Inr f)
    with created have f: "f = file" and here: "has_dir fs1 (dir_of (filepath_Clean file))"
      using log_path_dir [OF assms(1,2)] by simp_all
    obtain fs2 e where opened: "os_OpenFile (filepath_Clean file) [O_CREATE, O_APPEND, O_RDWR] fs1 = (fs2, e)"
      by (cases "os_OpenFile (filepath_Clean file) [O_CREATE, O_APPEND, O_RDWR] fs1") auto
    note op = open_append [OF opened here]
    have fs': "fs' = fs2" and result: "\<And>log'. r = Inr log' \<Longrightarrow> e = None \<and> (\<exists>h. log' = AddHook api log h \<and> hook_file h = filepath_Clean file)"
      "\<And>x. r = Inl x \<Longrightarrow> e \<noteq> None"
      using assms(3) Pair Inr f opened by (auto simp: LogFileHook_def NewFileHook_def os_then_def Let_def split: option.splits)
    have keeps: "files fs \<subseteq>\<^sub>m files fs'" using created op fs' map_le_trans by blast
    show ?thesis
    proof (cases r)
      case (Inl x)
      with result(2) op created keeps show ?thesis by (auto simp: log_file_allowed_def)
    next
      case r: (Inr log')
      with result(1) op created keeps fs' Inr f show ?thesis by auto
    qed
  qed
qed

definition sample_logrus :: "FileHook list logrus_api" where
  "sample_logrus = \<lparr>logrus_New = [], SetReportCaller = (\<lambda>l _. l), SetFormatter = (\<lambda>l _. l),
     GetFormatter = (\<lambda>_. OtherFormatter), AddHook = (\<lambda>l h. l @ [h])\<rparr>"

theorem log_file_hook_witness:
  "\<exists>fs' h. LogFileHook sample_logrus (Some []) ''amf.log'' sample_fs = (fs', Inr [h]) \<and> hook_file h = ''log/amf.log'' \<and>
     file_at fs' ''log/amf.log'' = Some ''new'' \<and> owner fs' ''log'' = Some (1000, 1000)"
proof -
  have path: "log_path ''amf.log'' = (''./log/'', ''log/amf.log'')" "snd (filepath_Split ''amf.log'') = ''amf.log''"
    "filepath_Clean ''./log/'' = ''log''" by code_simp+
  have num: "Atoi ''1000'' = Inr 1000" by (simp add: Atoi_def ParseUint_def is_digit_def digit_val_def)
  have name: "proper_name (snd (filepath_Split ''amf.log''))" by (simp add: path(2) proper_name_def)
  have ids: "sudo_ids sample_fs = Some (1000, 1000)" by (simp add: sudo_ids_def sample_fs_def num)
  have allowed: "log_file_allowed ''./log/'' ''log/amf.log'' sample_fs" by (simp add: log_file_allowed_def sample_fs_def)
  have old: "contents sample_fs ''log/amf.log'' = ''new''"
    by (simp add: contents_def file_at_def sample_log_split) (simp add: sample_fs_def)
  obtain fs' r where run: "LogFileHook sample_logrus (Some []) ''amf.log'' sample_fs = (fs', r)"
    by (cases "LogFileHook sample_logrus (Some []) ''amf.log'' sample_fs") auto
  have "AddHook sample_logrus [] h = [h]" for h by (simp add: sample_logrus_def)
  with log_file_hook [OF path(1) name run] allowed ids run show ?thesis
    by (cases r) (auto simp: old path(3) sample_log_split(4))
qed

end
