(* ===== verification/GinLogger.thy ===== *)
theory GinLogger
  imports GoStrings
begin

text \<open>
  The middlewares of \<^verbatim>\<open>src/lib/util/logger/logger.go\<close>: \<open>ginToLogrus\<close> writes a line for every request, \<open>ginRecover\<close>
  turns a panic of a handler into an error reply and a log entry.

  The context of a request is a type of its own, reached through the operations of \<open>gin_api\<close>: those of the HTTP
  framework and of the request it holds. A handler runs on the context and the lines logged so far and finishes or
  panics; either way the context and the log it leaves behind are there for the handlers around it.
\<close>

section \<open>Data\<close>

definition JWT_USR_KEY :: string where "JWT_USR_KEY = ''email''"

datatype op_error = SyscallError string | OtherOpError

datatype panic_value = OpError op_error | RuntimePanic go_panic | OtherPanic string

datatype claim_value = StringClaim string | OtherClaim

datatype claims_value = MapClaims "string \<rightharpoonup> claim_value" | OtherClaims

datatype log_level = Info | Error

type_synonym 'c gin_state = "'c \<times> (log_level \<times> string) list"

datatype 'c outcome = Finished "'c gin_state" | Panicked panic_value "'c gin_state"

type_synonym 'c handler = "'c gin_state \<Rightarrow> 'c outcome"

record 'c gin_api =
  URL_Path :: "'c \<Rightarrow> string"
  RawQuery :: "'c \<Rightarrow> string"
  Method :: "'c \<Rightarrow> string"
  ClientIP :: "'c \<Rightarrow> string"
  Writer_Status :: "'c \<Rightarrow> nat"
  PrivateErrors :: "'c \<Rightarrow> string"
  Get_claims :: "'c \<Rightarrow> claims_value option"
  DumpRequest :: "'c \<Rightarrow> string + string"
  Abort :: "'c \<Rightarrow> 'c"
  AbortWithStatus :: "'c \<Rightarrow> nat \<Rightarrow> 'c"
  c_Error :: "'c \<Rightarrow> panic_value \<Rightarrow> 'c"
  IsDebugging :: bool
  PanicText :: "panic_value \<Rightarrow> string"
  Stack :: string

section \<open>The request log\<close>

text \<open>The directives \<^verbatim>\<open>%3d\<close>, \<^verbatim>\<open>%15s\<close> and \<^verbatim>\<open>%-7s\<close> of \<^verbatim>\<open>fmt\<close>.\<close>

definition pad_left :: "nat \<Rightarrow> string \<Rightarrow> string" where
  "pad_left w s = replicate (w - length s) (CHR '' '') @ s"

definition pad_right :: "nat \<Rightarrow> string \<Rightarrow> string" where
  "pad_right w s = s @ replicate (w - length s) (CHR '' '')"

definition request_line :: "nat \<Rightarrow> string \<Rightarrow> string \<Rightarrow> string \<Rightarrow> string \<Rightarrow> string \<Rightarrow> string" where
  "request_line statusCode clientIP method path user errorMessage =
     ''| '' @ pad_left 3 (Itoa statusCode) @ '' | '' @ pad_left 15 clientIP @ '' | '' @ pad_right 7 method @ '' | '' @
     path @ '' | '' @ user @ '' | '' @ errorMessage"

text \<open>
  The user of the request: the type assertion on the claim has no second result, so a claim that is missing or is not a
  string panics.
\<close>

definition jwt_user :: "claims_value option \<Rightarrow> string exec" where
  "jwt_user claims =
     (case claims of
        Some (MapClaims jwtClaims) \<Rightarrow>
          (case jwtClaims JWT_USR_KEY of Some (StringClaim s) \<Rightarrow> Returns s | _ \<Rightarrow> Panics TypeAssertionFailed)
      | _ \<Rightarrow> Returns [])"

definition ginToLogrus :: "'c gin_api \<Rightarrow> bool \<Rightarrow> 'c handler \<Rightarrow> 'c handler" where
  "ginToLogrus api logNil Next st =
     (let path = URL_Path api (fst st); raw = RawQuery api (fst st)
      in case Next st of
           Panicked p st1 \<Rightarrow> Panicked p st1
         | Finished (c, log) \<Rightarrow>
             let clientIP = ClientIP api c; method = Method api c; statusCode = Writer_Status api c;
                 errorMessage = PrivateErrors api c
             in case jwt_user (Get_claims api c) of
                  Panics p \<Rightarrow> Panicked (RuntimePanic p) (c, log)
                | Returns user \<Rightarrow>
                    let path = (if raw \<noteq> [] then path @ ''?'' @ raw else path)
                    in if logNil then Panicked (RuntimePanic NilDereference) (c, log)
                       else Finished (c, log @ [(Info, request_line statusCode clientIP method path user errorMessage)]))"

section \<open>Recovery from panics\<close>

text \<open>\<^verbatim>\<open>strings.Split\<close> and \<^verbatim>\<open>strings.Join\<close> with the line separator of HTTP.\<close>

definition crlf :: string where "crlf = [CHR 0x0D, CHR 0x0A]"

fun split_crlf :: "string \<Rightarrow> string list" where
  "split_crlf [] = [[]]"
| "split_crlf [c] = [[c]]"
| "split_crlf (c # d # s) =
     (if c = CHR 0x0D \<and> d = CHR 0x0A then [] # split_crlf s
      else case split_crlf (d # s) of [] \<Rightarrow> [[c]] | w # ws \<Rightarrow> (c # w) # ws)"

definition redact_header :: "string \<Rightarrow> string" where
  "redact_header header =
     (let current = Split CHR '':'' header
      in if hd current = ''Authorization'' then hd current @ '': *'' else header)"

definition broken_pipe :: "panic_value \<Rightarrow> bool" where
  "broken_pipe p =
     (case p of
        OpError (SyscallError se) \<Rightarrow>
          strings_Contains (ToLower se) ''broken pipe'' \<or> strings_Contains (ToLower se) ''connection reset by peer''
      | _ \<Rightarrow> False)"

definition recover_text :: "'c gin_api \<Rightarrow> panic_value \<Rightarrow> 'c \<Rightarrow> string" where
  "recover_text api p c =
     (case DumpRequest api c of
        Inl err \<Rightarrow> ''Dump http request error: '' @ err @ [CHR 0x0A]
      | Inr httpRequest \<Rightarrow>
          let headers = map redact_header (split_crlf httpRequest)
          in if broken_pipe p then PanicText api p @ [CHR 0x0A] @ httpRequest
             else if IsDebugging api then
               ''[Debugging] panic:'' @ [CHR 0x0A] @ Join headers crlf @ [CHR 0x0A] @ PanicText api p @ [CHR 0x0A] @ Stack api
             else ''panic: '' @ PanicText api p @ [CHR 0x0A] @ Stack api)"

definition ginRecover :: "'c gin_api \<Rightarrow> bool \<Rightarrow> 'c handler \<Rightarrow> 'c handler" where
  "ginRecover api logNil Next st =
     (case Next st of
        Finished st1 \<Rightarrow> Finished st1
      | Panicked p (c, log) \<Rightarrow>
          let log = (if \<not> logNil then log @ [(Error, recover_text api p c)] else log)
          in if broken_pipe p then Finished (Abort api (c_Error api c p), log)
             else Finished (AbortWithStatus api c 500, log))"

text \<open>The handlers an engine runs, outermost first.\<close>

definition NewGinWithLogrus ::
    "'c gin_api \<Rightarrow> bool \<Rightarrow> ('c handler \<Rightarrow> 'c handler) list \<Rightarrow> ('c handler \<Rightarrow> 'c handler) list" where
  "NewGinWithLogrus api logNil middleware = middleware @ [ginToLogrus api logNil, ginRecover api logNil]"

text \<open>A request runs through the handlers that each call \<^verbatim>\<open>c.Next()\<close> and ends in the route's own handler.\<close>

definition serve :: "('c handler \<Rightarrow> 'c handler) list \<Rightarrow> 'c handler \<Rightarrow> 'c handler" where
  "serve handlers route = foldr (\<lambda>h Next. h Next) handlers route"

section \<open>Lemmas\<close>

lemma split_crlf_not_Nil [simp]: "split_crlf s \<noteq> []"
  by (induction s rule: split_crlf.induct) (auto split: list.splits)

lemma split_crlf_Cons:
  "\<not> (c = CHR 0x0D \<and> s \<noteq> [] \<and> hd s = CHR 0x0A) \<Longrightarrow> split_crlf (c # s) = (c # hd (split_crlf s)) # tl (split_crlf s)"
  by (cases s) (auto split: list.splits)

lemma Join_split_crlf: "Join (split_crlf s) crlf = s"
proof (induction s rule: split_crlf.induct)
  case (3 c d s)
  show ?case
  proof (cases "c = CHR 0x0D \<and> d = CHR 0x0A")
    case True
    with 3 show ?thesis by (simp add: Join_Cons crlf_def)
  next
    case False
    then have "split_crlf (c # d # s) = (c # hd (split_crlf (d # s))) # tl (split_crlf (d # s))"
      by (intro split_crlf_Cons) auto
    moreover have "Join ((c # w) # ws) sep = c # Join (w # ws) sep" for w ws sep by (cases ws) simp_all
    ultimately show ?thesis using 3(2) False by auto
  qed
qed simp_all

lemma split_crlf_single_append:
  assumes "split_crlf w = [w]" shows "split_crlf (w @ crlf @ s) = w # split_crlf s"
  using assms
proof (induction w)
  case (Cons c w)
  then have no: "\<not> (c = CHR 0x0D \<and> w \<noteq> [] \<and> hd w = CHR 0x0A)" by (cases w) auto
  then have "split_crlf w = [w]" using Cons.prems split_crlf_Cons [OF no] by (cases "split_crlf w") auto
  moreover have next_char: "\<not> (c = CHR 0x0D \<and> w @ crlf @ s \<noteq> [] \<and> hd (w @ crlf @ s) = CHR 0x0A)"
    using no by (cases w) (auto simp: crlf_def)
  ultimately show ?case using Cons.IH split_crlf_Cons [OF next_char] by simp
qed (simp add: crlf_def)

lemma split_crlf_Join:
  assumes "ws \<noteq> []" "\<And>w. w \<in> set ws \<Longrightarrow> split_crlf w = [w]" shows "split_crlf (Join ws crlf) = ws"
  using assms
proof (induction ws)
  case (Cons w ws)
  then show ?case by (cases "ws = []") (simp_all add: Join_Cons split_crlf_single_append)
qed simp

lemma split_crlf_lines: "w \<in> set (split_crlf s) \<Longrightarrow> split_crlf w = [w]"
proof (induction s arbitrary: w rule: split_crlf.induct)
  case (3 c d s)
  show ?case
  proof (cases "c = CHR 0x0D \<and> d = CHR 0x0A")
    case True
    with 3 show ?thesis by auto
  next
    case False
    then have eq: "split_crlf (c # d # s) = (c # hd (split_crlf (d # s))) # tl (split_crlf (d # s))"
      by (intro split_crlf_Cons) auto
    show ?thesis
    proof (cases "w \<in> set (tl (split_crlf (d # s)))")
      case True
      then show ?thesis using 3(2) [OF False] by (meson list.set_sel(2) split_crlf_not_Nil)
    next
      case w: False
      let ?h = "hd (split_crlf (d # s))"
      have "split_crlf ?h = [?h]" using 3(2) [OF False] by simp
      moreover have "?h = [] \<or> hd ?h = d" by (cases s; cases "split_crlf s") (auto split: list.splits if_splits)
      ultimately show ?thesis using w 3(3) False eq split_crlf_Cons [of c ?h] by auto
    qed
  qed
qed simp_all

definition header_name :: "string \<Rightarrow> string" where
  "header_name line = takeWhile (\<lambda>c. c \<noteq> CHR '':'') line"

lemma hd_Split: "hd (Split sep s) = takeWhile (\<lambda>c. c \<noteq> sep) s"
  by (induction s) (auto split: list.splits)

lemma redact_header_eq:
  "redact_header line = (if header_name line = ''Authorization'' then ''Authorization: *'' else line)"
  by (simp add: redact_header_def header_name_def hd_Split)

lemma split_crlf_redacted: "split_crlf (Join (map redact_header (split_crlf s)) crlf) = map redact_header (split_crlf s)"
proof (rule split_crlf_Join)
  show "split_crlf w = [w]" if w: "w \<in> set (map redact_header (split_crlf s))" for w
  proof -
    obtain line where "w = redact_header line" "line \<in> set (split_crlf s)" using w by auto
    then show ?thesis by (auto simp: redact_header_eq split_crlf_lines)
  qed
qed simp

section \<open>Properties\<close>

text \<open>C12. A panic that is not a broken connection does not leak credentials. What is logged does not depend on the
  values of the \<^verbatim>\<open>Authorization\<close> headers: two requests whose dumps differ in those lines only are logged with the same
  text. In debug mode the text shows the dump line by line, with the value of every such header replaced by a star and
  all other lines as they were.\<close>

theorem recover_redacts:
  assumes "\<not> broken_pipe p" and "DumpRequest api c = Inr dump" and "DumpRequest api c' = Inr dump'"
    and "list_all2 (\<lambda>a b. a = b \<or> header_name a = ''Authorization'' \<and> header_name b = ''Authorization'')
      (split_crlf dump) (split_crlf dump')"
  shows "recover_text api p c = recover_text api p c' \<and>
    (IsDebugging api \<longrightarrow>
       (\<exists>shown rest. recover_text api p c = ''[Debugging] panic:'' @ [CHR 0x0A] @ shown @ [CHR 0x0A] @ rest \<and>
          split_crlf shown =
            map (\<lambda>line. if header_name line = ''Authorization'' then ''Authorization: *'' else line) (split_crlf dump)))"
proof (intro conjI impI)
  have "map redact_header (split_crlf dump) = map redact_header (split_crlf dump')"
    using assms(4) by (induction rule: list_all2_induct) (auto simp: redact_header_eq)
  then show "recover_text api p c = recover_text api p c'"
    using assms(1-3) by (simp add: recover_text_def Let_def)
next
  let ?shown = "Join (map redact_header (split_crlf dump)) crlf" and ?rest = "PanicText api p @ [CHR 0x0A] @ Stack api"
  assume "IsDebugging api"
  then have "recover_text api p c = ''[Debugging] panic:'' @ [CHR 0x0A] @ ?shown @ [CHR 0x0A] @ ?rest"
    using assms(1,2) by (simp add: recover_text_def Let_def)
  moreover have "split_crlf ?shown =
      map (\<lambda>line. if header_name line = ''Authorization'' then ''Authorization: *'' else line) (split_crlf dump)"
    by (simp add: split_crlf_redacted redact_header_eq)
  ultimately show "\<exists>shown rest. recover_text api p c = ''[Debugging] panic:'' @ [CHR 0x0A] @ shown @ [CHR 0x0A] @ rest \<and>
      split_crlf shown =
        map (\<lambda>line. if header_name line = ''Authorization'' then ''Authorization: *'' else line) (split_crlf dump)"
    by (intro exI conjI)
qed

text \<open>The reset of a connection is logged with the request as it came.\<close>

lemma recover_broken_pipe_leaks:
  assumes "broken_pipe p" "DumpRequest api c = Inr dump"
  shows "recover_text api p c = PanicText api p @ [CHR 0x0A] @ dump"
  using assms by (simp add: recover_text_def)

definition sample_gin :: "string gin_api" where
  "sample_gin = \<lparr>URL_Path = (\<lambda>_. ''/nausf''), RawQuery = (\<lambda>_. []), Method = (\<lambda>_. ''GET''), ClientIP = (\<lambda>_. ''127.0.0.1''),
     Writer_Status = (\<lambda>_. 200), PrivateErrors = (\<lambda>_. []), Get_claims = (\<lambda>_. None),
     DumpRequest = (\<lambda>secret. Inr (''GET /nausf HTTP/2.0'' @ crlf @ ''Authorization: Bearer '' @ secret @ crlf @ crlf)),
     Abort = id, AbortWithStatus = (\<lambda>c _. c), c_Error = (\<lambda>c _. c), IsDebugging = True,
     PanicText = (\<lambda>_. ''boom''), Stack = ''goroutine 1''\<rparr>"

theorem recover_redacts_witness:
  "recover_text sample_gin (OtherPanic ''boom'') ''abc'' = recover_text sample_gin (OtherPanic ''boom'') ''xyz''"
proof (rule conjunct1 [OF recover_redacts])
  show "\<not> broken_pipe (OtherPanic ''boom'')" by (simp add: broken_pipe_def)
  show "DumpRequest sample_gin ''abc'' = Inr (''GET /nausf HTTP/2.0'' @ crlf @ ''Authorization: Bearer abc'' @ crlf @ crlf)"
    "DumpRequest sample_gin ''xyz'' = Inr (''GET /nausf HTTP/2.0'' @ crlf @ ''Authorization: Bearer xyz'' @ crlf @ crlf)"
    by (simp_all add: sample_gin_def)
  show "list_all2 (\<lambda>a b. a = b \<or> header_name a = ''Authorization'' \<and> header_name b = ''Authorization'')
     (split_crlf (''GET /nausf HTTP/2.0'' @ crlf @ ''Authorization: Bearer abc'' @ crlf @ crlf))
     (split_crlf (''GET /nausf HTTP/2.0'' @ crlf @ ''Authorization: Bearer xyz'' @ crlf @ crlf))"
    by code_simp
qed

text \<open>What the handlers of an engine promise: when a connection counts as gone, the context after the recovery, the user
  a request is logged with, and the line of the request.\<close>

definition connection_gone :: "panic_value \<Rightarrow> bool" where
  "connection_gone p \<longleftrightarrow> (\<exists>err a t b. p = OpError (SyscallError err) \<and> ToLower err = a @ t @ b \<and>
     t \<in> {''broken pipe'', ''connection reset by peer''})"

fun recovered :: "'c gin_api \<Rightarrow> 'c outcome \<Rightarrow> 'c" where
  "recovered api (Finished (c, log)) = c"
| "recovered api (Panicked p (c, log)) =
     (if connection_gone p then Abort api (c_Error api c p) else AbortWithStatus api c 500)"

fun logged :: "'c outcome \<Rightarrow> (log_level \<times> string) list" where
  "logged (Finished (c, log)) = log"
| "logged (Panicked p (c, log)) = log"

fun panicked :: "'c outcome \<Rightarrow> bool" where
  "panicked (Finished st) = False"
| "panicked (Panicked p st) = True"

fun claimed_user :: "claims_value option \<Rightarrow> string option" where
  "claimed_user (Some (MapClaims m)) = (case m ''email'' of Some (StringClaim s) \<Rightarrow> Some s | _ \<Rightarrow> None)"
| "claimed_user _ = Some []"

definition right_aligned :: "nat \<Rightarrow> string \<Rightarrow> string \<Rightarrow> bool" where
  "right_aligned w s t \<longleftrightarrow> length t = max w (length s) \<and> (\<exists>blanks. set blanks \<subseteq> {CHR '' ''} \<and> t = blanks @ s)"

definition left_aligned :: "nat \<Rightarrow> string \<Rightarrow> string \<Rightarrow> bool" where
  "left_aligned w s t \<longleftrightarrow> length t = max w (length s) \<and> (\<exists>blanks. set blanks \<subseteq> {CHR '' ''} \<and> t = s @ blanks)"

definition request_logged :: "'c gin_api \<Rightarrow> 'c \<Rightarrow> 'c \<Rightarrow> string \<Rightarrow> string \<Rightarrow> bool" where
  "request_logged api c0 c user line \<longleftrightarrow>
     (\<exists>status ip method. right_aligned 3 (Itoa (Writer_Status api c)) status \<and> right_aligned 15 (ClientIP api c) ip \<and>
        left_aligned 7 (Method api c) method \<and>
        line = ''| '' @ Join [status, ip, method,
          URL_Path api c0 @ (if RawQuery api c0 = [] then [] else ''?'' @ RawQuery api c0), user, PrivateErrors api c] '' | '')"

lemma Contains_iff: "strings_Contains s t \<longleftrightarrow> (\<exists>a b. s = a @ t @ b)"
proof (induction s)
  case (Cons c s)
  have "(\<exists>a b. c # s = a @ t @ b) \<longleftrightarrow> (\<exists>b. c # s = t @ b) \<or> (\<exists>a b. s = a @ t @ b)"
    by (metis append_Cons append_Nil list.exhaust list.inject)
  moreover have "HasPrefix (c # s) t \<longleftrightarrow> (\<exists>b. c # s = t @ b)"
    unfolding HasPrefix_def by (metis append_eq_conv_conj append_take_drop_id)
  ultimately show ?case using Cons by simp
qed simp

lemma broken_pipe_iff: "broken_pipe p \<longleftrightarrow> connection_gone p"
proof -
  have "connection_gone p \<longleftrightarrow> (\<exists>err. p = OpError (SyscallError err) \<and>
      (strings_Contains (ToLower err) ''broken pipe'' \<or> strings_Contains (ToLower err) ''connection reset by peer''))"
    unfolding connection_gone_def Contains_iff by blast
  then show ?thesis by (auto simp: broken_pipe_def split: panic_value.split op_error.split)
qed

lemma jwt_user_eq:
  "jwt_user claims = (case claimed_user claims of None \<Rightarrow> Panics TypeAssertionFailed | Some s \<Rightarrow> Returns s)"
  by (cases claims rule: claimed_user.cases) (auto simp: jwt_user_def JWT_USR_KEY_def split: option.split claim_value.split)

lemma ginRecover_eq:
  "ginRecover api logNil route st =
     Finished (recovered api (route st),
       logged (route st) @ (case route st of
         Panicked p (c, log) \<Rightarrow> if logNil then [] else [(Error, recover_text api p c)] | _ \<Rightarrow> []))"
  by (cases "route st") (auto simp: ginRecover_def Let_def broken_pipe_iff)

lemma aligned_pad: "right_aligned w s (pad_left w s)" "left_aligned w s (pad_right w s)"
  by (auto simp: right_aligned_def left_aligned_def pad_left_def pad_right_def)

lemma request_line_logged:
  "request_logged api c0 c user (request_line (Writer_Status api c) (ClientIP api c) (Method api c)
     (URL_Path api c0 @ (if RawQuery api c0 = [] then [] else ''?'' @ RawQuery api c0)) user (PrivateErrors api c))"
  unfolding request_logged_def request_line_def
  by (rule exI [of _ "pad_left 3 (Itoa (Writer_Status api c))"], rule exI [of _ "pad_left 15 (ClientIP api c)"],
      rule exI [of _ "pad_right 7 (Method api c)"]) (simp add: aligned_pad)

text \<open>C28. The engine's own handlers, under any middleware given to \<^verbatim>\<open>NewGinWithLogrus\<close>. Whatever the route's handler
  does, its panic goes no further: it is logged as one error, unless there is no logger, and the request is aborted, with
  status 500 unless the connection is gone; the context of a handler that finishes is kept. Then the request is logged in one
  line with the final status, client, method, path, user and errors, the numbers and short texts padded to their column. A
  request leaves these handlers with a panic exactly when there is no logger or its token claims are a claims map
  without a string under \<^verbatim>\<open>email\<close>; then the request line is missing.\<close>

theorem engine_recovers_and_logs:
  "\<exists>inner. (\<forall>middleware. serve (NewGinWithLogrus api logNil middleware) route = serve middleware inner) \<and>
    (\<exists>errs. map fst errs = (if panicked (route st) \<and> \<not> logNil then [Error] else []) \<and>
      (case inner st of
         Finished (c, log) \<Rightarrow> c = recovered api (route st) \<and> \<not> logNil \<and>
           (\<exists>user line. claimed_user (Get_claims api c) = Some user \<and> log = logged (route st) @ errs @ [(Info, line)] \<and>
              request_logged api (fst st) c user line)
       | Panicked q (c, log) \<Rightarrow> c = recovered api (route st) \<and> log = logged (route st) @ errs \<and>
           (if claimed_user (Get_claims api c) = None then q = RuntimePanic TypeAssertionFailed
            else logNil \<and> q = RuntimePanic NilDereference)))"
proof (intro exI conjI allI)
  let ?inner = "ginToLogrus api logNil (ginRecover api logNil route)"
  let ?errs = "case route st of
      Panicked p (c, log) \<Rightarrow> if logNil then [] else [(Error, recover_text api p c)] | _ \<Rightarrow> []"
  show "serve (NewGinWithLogrus api logNil middleware) route = serve middleware ?inner" for middleware
    by (simp add: serve_def NewGinWithLogrus_def)
  show "map fst ?errs = (if panicked (route st) \<and> \<not> logNil then [Error] else [])"
    by (cases "route st") (auto split: prod.split)
  have path: "(if raw \<noteq> [] then path @ ''?'' @ raw else path) = path @ (if raw = [] then [] else ''?'' @ raw)" for raw path :: string
    by simp
  show "case ?inner st of
         Finished (c, log) \<Rightarrow> c = recovered api (route st) \<and> \<not> logNil \<and>
           (\<exists>user line. claimed_user (Get_claims api c) = Some user \<and> log = logged (route st) @ ?errs @ [(Info, line)] \<and>
              request_logged api (fst st) c user line)
       | Panicked q (c, log) \<Rightarrow> c = recovered api (route st) \<and> log = logged (route st) @ ?errs \<and>
           (if claimed_user (Get_claims api c) = None then q = RuntimePanic TypeAssertionFailed
            else logNil \<and> q = RuntimePanic NilDereference)"
    unfolding ginToLogrus_def ginRecover_eq Let_def path jwt_user_eq outcome.case prod.case
    using request_line_logged [of api "fst st" "recovered api (route st)"]
    by (cases "claimed_user (Get_claims api (recovered api (route st)))"; cases logNil) auto
qed

end
