(* ===== verification/Mongo.thy ===== *)
theory Mongo
  imports Prelude
begin

text \<open>
  \<^verbatim>\<open>src/lib/util/mongoapi/mongoapi.go\<close>: the operations on the document database that the network functions share.

  The database driver, the JSON encoding of the driver's values and the JSON patch library are not part of the sources:
  the record \<open>mongo_driver\<close> holds the calls the code makes, and every operation takes it as an argument. The state of the
  database is a type \<open>'w\<close> of its own, passed from call to call; a call that changes it returns it together with the
  result, also when it panics.
\<close>

section \<open>Data\<close>

text \<open>A Go map \<^verbatim>\<open>map[string]interface{}\<close>; \<open>None\<close> is the nil map. \<^verbatim>\<open>bson.M\<close> is such a map.\<close>

type_synonym 'v document = "string \<rightharpoonup> 'v"
type_synonym 'v gomap = "'v document option"

datatype go_arg = IntArg int | OtherArg

record Collation =
  Locale :: string
  Strength :: int

definition COLLATION_STRENGTH_IGNORE_DIACRITICS_AND_CASE :: int where "COLLATION_STRENGTH_IGNORE_DIACRITICS_AND_CASE = 1"
definition COLLATION_STRENGTH_IGNORE_CASE :: int where "COLLATION_STRENGTH_IGNORE_CASE = 2"
definition COLLATION_STRENGTH_DEFAULT :: int where "COLLATION_STRENGTH_DEFAULT = 3"

datatype 'v update = Set_fields "'v gomap" | Pull_fields "'v gomap"

datatype 'e find_error = ErrNoDocuments | DriverError 'e

text \<open>An error of the package: the text it is wrapped in, and the error of the call that failed.\<close>

datatype 'e api_error = ApiErr string 'e

type_synonym 'c collection = "'c \<times> string \<times> string"

text \<open>A cursor: what each \<^verbatim>\<open>Next\<close>/\<^verbatim>\<open>Decode\<close> gives, and \<^verbatim>\<open>Err\<close> after the last one.\<close>

type_synonym ('e, 'v) cursor = "('e + 'v document) list \<times> 'e option"

record ('c, 'w, 'e, 'v, 'j, 'b, 'p) mongo_driver =
  Connect :: "string \<Rightarrow> 'e + 'c"
  FindOne :: "'c collection \<Rightarrow> 'v gomap \<Rightarrow> Collation option \<Rightarrow> 'w \<Rightarrow> 'e find_error + 'v document"
  Find :: "'c collection \<Rightarrow> 'v gomap \<Rightarrow> Collation option \<Rightarrow> 'w \<Rightarrow> 'e + ('e, 'v) cursor"
  UpdateOne :: "'c collection \<Rightarrow> 'v gomap \<Rightarrow> 'v update \<Rightarrow> Collation option \<Rightarrow> 'w \<Rightarrow> 'w \<times> 'e option"
  InsertOne :: "'c collection \<Rightarrow> 'v gomap \<Rightarrow> 'w \<Rightarrow> 'w \<times> 'e option"
  InsertMany :: "'c collection \<Rightarrow> 'v list \<Rightarrow> 'w \<Rightarrow> 'w \<times> 'e option"
  DeleteOne :: "'c collection \<Rightarrow> 'v gomap \<Rightarrow> Collation option \<Rightarrow> 'w \<Rightarrow> 'w \<times> 'e option"
  DeleteMany :: "'c collection \<Rightarrow> 'v gomap \<Rightarrow> Collation option \<Rightarrow> 'w \<Rightarrow> 'w \<times> 'e option"
  CountDocuments :: "'c collection \<Rightarrow> 'v gomap \<Rightarrow> 'w \<Rightarrow> 'e + int"
  Collection_Drop :: "'c collection \<Rightarrow> 'w \<Rightarrow> 'w \<times> 'e option"
  Marshal_map :: "'v gomap \<Rightarrow> 'e + 'j"
  Marshal_value :: "'v option \<Rightarrow> 'e + 'j"
  Unmarshal :: "'j \<Rightarrow> 'e + 'v gomap"
  jsonpatch_MergePatch :: "'j \<Rightarrow> 'j \<Rightarrow> 'e + 'j"
  DecodePatch :: "'b \<Rightarrow> 'e + 'p"
  Patch_Apply :: "'p \<Rightarrow> 'j \<Rightarrow> 'e + 'j"

text \<open>The variables of the package.\<close>

record 'c mongo_vars =
  Client :: "'c option"
  dbName :: string

definition initial_vars :: "'c mongo_vars" where
  "initial_vars = \<lparr>Client = None, dbName = []\<rparr>"

definition SetMongoDB ::
    "('c, 'w, 'e, 'v, 'j, 'b, 'p) mongo_driver \<Rightarrow> string \<Rightarrow> string \<Rightarrow> 'c mongo_vars \<Rightarrow> 'c mongo_vars \<times> 'e api_error option" where
  "SetMongoDB drv setdbName url vars =
     (if Client vars \<noteq> None then (vars, None)
      else case Connect drv url of
        Inl err \<Rightarrow> (vars, Some (ApiErr ''SetMongoDB err'' err))
      | Inr client \<Rightarrow> (vars\<lparr>Client := Some client, dbName := setdbName\<rparr>, None))"

definition getCollation :: "go_arg list \<Rightarrow> Collation option" where
  "getCollation argOpt =
     (case argOpt of
        [] \<Rightarrow> None
      | OtherArg # _ \<Rightarrow> None
      | IntArg strength # _ \<Rightarrow> Some \<lparr>Locale = ''en_US'', Strength = strength\<rparr>)"

text \<open>Every operation first takes the collection from the client; on a nil client this panics.\<close>

definition with_collection ::
    "'c mongo_vars \<Rightarrow> string \<Rightarrow> 'w \<Rightarrow> ('c collection \<Rightarrow> 'w \<times> 'a exec) \<Rightarrow> 'w \<times> 'a exec" where
  "with_collection vars collName w k =
     (case Client vars of None \<Rightarrow> (w, Panics NilDereference) | Some c \<Rightarrow> k (c, dbName vars, collName))"

text \<open>The result of the last call of an operation that returns only an error.\<close>

definition ret_err :: "string \<Rightarrow> 'w \<times> 'e option \<Rightarrow> 'w \<times> ('e api_error + unit) exec" where
  "ret_err prefix r = (case r of (w, Some err) \<Rightarrow> (w, Returns (Inl (ApiErr prefix err))) | (w, None) \<Rightarrow> (w, Returns (Inr ())))"

section \<open>Reading\<close>

definition findOneAndDecode ::
    "('c, 'w, 'e, 'v, 'j, 'b, 'p) mongo_driver \<Rightarrow> 'c collection \<Rightarrow> 'v gomap \<Rightarrow> go_arg list \<Rightarrow> 'w \<Rightarrow> 'e + 'v gomap" where
  "findOneAndDecode drv col filt argOpt w =
     (case FindOne drv col filt (getCollation argOpt) w of
        Inl ErrNoDocuments \<Rightarrow> Inr None
      | Inl (DriverError err) \<Rightarrow> Inl err
      | Inr result \<Rightarrow> Inr (Some result))"

definition getOrigData ::
    "('c, 'w, 'e, 'v, 'j, 'b, 'p) mongo_driver \<Rightarrow> 'c collection \<Rightarrow> 'v gomap \<Rightarrow> go_arg list \<Rightarrow> 'w \<Rightarrow> 'e + 'v gomap" where
  "getOrigData drv col filt argOpt w =
     (case findOneAndDecode drv col filt argOpt w of
        Inl err \<Rightarrow> Inl err
      | Inr None \<Rightarrow> Inr None
      | Inr (Some result) \<Rightarrow> Inr (Some (result(''_id'' := None))))"

definition checkDataExisted ::
    "('c, 'w, 'e, 'v, 'j, 'b, 'p) mongo_driver \<Rightarrow> 'c collection \<Rightarrow> 'v gomap \<Rightarrow> go_arg list \<Rightarrow> 'w \<Rightarrow> 'e + bool" where
  "checkDataExisted drv col filt argOpt w =
     (case findOneAndDecode drv col filt argOpt w of
        Inl err \<Rightarrow> Inl err
      | Inr None \<Rightarrow> Inr False
      | Inr (Some _) \<Rightarrow> Inr True)"

definition RestfulAPIGetOne ::
    "('c, 'w, 'e, 'v, 'j, 'b, 'p) mongo_driver \<Rightarrow> 'c mongo_vars \<Rightarrow> string \<Rightarrow> 'v gomap \<Rightarrow> go_arg list \<Rightarrow> 'w \<Rightarrow>
     'w \<times> ('e api_error + 'v gomap) exec" where
  "RestfulAPIGetOne drv vars collName filt argOpt w =
     with_collection vars collName w (\<lambda>col.
       case getOrigData drv col filt argOpt w of
         Inl err \<Rightarrow> (w, Returns (Inl (ApiErr ''RestfulAPIGetOne err'' err)))
       | Inr result \<Rightarrow> (w, Returns (Inr result)))"

fun read_cursor :: "('e + 'v document) list \<Rightarrow> 'v document list \<Rightarrow> 'e + 'v document list" where
  "read_cursor [] resultArray = Inr resultArray"
| "read_cursor (Inl err # _) resultArray = Inl err"
| "read_cursor (Inr result # rest) resultArray = read_cursor rest (resultArray @ [result(''_id'' := None)])"

definition RestfulAPIGetMany ::
    "('c, 'w, 'e, 'v, 'j, 'b, 'p) mongo_driver \<Rightarrow> 'c mongo_vars \<Rightarrow> string \<Rightarrow> 'v gomap \<Rightarrow> go_arg list \<Rightarrow> 'w \<Rightarrow>
     'w \<times> ('e api_error + 'v document list) exec" where
  "RestfulAPIGetMany drv vars collName filt argOpt w =
     with_collection vars collName w (\<lambda>col.
       (w, Returns (
         case Find drv col filt (getCollation argOpt) w of
           Inl err \<Rightarrow> Inl (ApiErr ''RestfulAPIGetMany err'' err)
         | Inr (steps, cur_Err) \<Rightarrow>
             (case read_cursor steps [] of
                Inl err \<Rightarrow> Inl (ApiErr ''RestfulAPIGetMany err'' err)
              | Inr resultArray \<Rightarrow>
                  (case cur_Err of
                     Some err \<Rightarrow> Inl (ApiErr ''RestfulAPIGetMany err'' err)
                   | None \<Rightarrow> Inr resultArray)))))"

definition RestfulAPICount ::
    "('c, 'w, 'e, 'v, 'j, 'b, 'p) mongo_driver \<Rightarrow> 'c mongo_vars \<Rightarrow> string \<Rightarrow> 'v gomap \<Rightarrow> 'w \<Rightarrow> 'w \<times> ('e api_error + int) exec" where
  "RestfulAPICount drv vars collName filt w =
     with_collection vars collName w (\<lambda>col.
       (w, Returns (case CountDocuments drv col filt w of
          Inl err \<Rightarrow> Inl (ApiErr ''RestfulAPICount err'' err)
        | Inr result \<Rightarrow> Inr result)))"

section \<open>Writing\<close>

definition RestfulAPIPutOne ::
    "('c, 'w, 'e, 'v, 'j, 'b, 'p) mongo_driver \<Rightarrow> 'c mongo_vars \<Rightarrow> string \<Rightarrow> 'v gomap \<Rightarrow> 'v gomap \<Rightarrow> go_arg list \<Rightarrow> 'w \<Rightarrow>
     'w \<times> ('e api_error + bool) exec" where
  "RestfulAPIPutOne drv vars collName filt putData argOpt w =
     with_collection vars collName w (\<lambda>col.
       case checkDataExisted drv col filt argOpt w of
         Inl err \<Rightarrow> (w, Returns (Inl (ApiErr ''RestfulAPIPutOne err'' err)))
       | Inr existed \<Rightarrow>
           if existed then
             (case UpdateOne drv col filt (Set_fields putData) (getCollation argOpt) w of
                (w1, Some err) \<Rightarrow> (w1, Returns (Inl (ApiErr ''RestfulAPIPutOne UpdateOne err'' err)))
              | (w1, None) \<Rightarrow> (w1, Returns (Inr True)))
           else
             (case InsertOne drv col putData w of
                (w1, Some err) \<Rightarrow> (w1, Returns (Inl (ApiErr ''RestfulAPIPutOne InsertOne err'' err)))
              | (w1, None) \<Rightarrow> (w1, Returns (Inr False))))"

definition RestfulAPIPullOne ::
    "('c, 'w, 'e, 'v, 'j, 'b, 'p) mongo_driver \<Rightarrow> 'c mongo_vars \<Rightarrow> string \<Rightarrow> 'v gomap \<Rightarrow> 'v gomap \<Rightarrow> go_arg list \<Rightarrow> 'w \<Rightarrow>
     'w \<times> ('e api_error + unit) exec" where
  "RestfulAPIPullOne drv vars collName filt putData argOpt w =
     with_collection vars collName w (\<lambda>col.
       ret_err ''RestfulAPIPullOne err'' (UpdateOne drv col filt (Pull_fields putData) (getCollation argOpt) w))"

definition RestfulAPIPutOneNotUpdate ::
    "('c, 'w, 'e, 'v, 'j, 'b, 'p) mongo_driver \<Rightarrow> 'c mongo_vars \<Rightarrow> string \<Rightarrow> 'v gomap \<Rightarrow> 'v gomap \<Rightarrow> go_arg list \<Rightarrow> 'w \<Rightarrow>
     'w \<times> ('e api_error + bool) exec" where
  "RestfulAPIPutOneNotUpdate drv vars collName filt putData argOpt w =
     with_collection vars collName w (\<lambda>col.
       case checkDataExisted drv col filt argOpt w of
         Inl err \<Rightarrow> (w, Returns (Inl (ApiErr ''RestfulAPIPutOneNotUpdate err'' err)))
       | Inr existed \<Rightarrow>
           if existed then (w, Returns (Inr True))
           else
             (case InsertOne drv col putData w of
                (w1, Some err) \<Rightarrow> (w1, Returns (Inl (ApiErr ''RestfulAPIPutOneNotUpdate InsertOne err'' err)))
              | (w1, None) \<Rightarrow> (w1, Returns (Inr False))))"

text \<open>The loop reads the filter of each element by its index, and stops at the first error.\<close>

fun put_many ::
    "('c, 'w, 'e, 'v, 'j, 'b, 'p) mongo_driver \<Rightarrow> 'c collection \<Rightarrow> 'v gomap list \<Rightarrow> nat \<Rightarrow> 'v gomap list \<Rightarrow> go_arg list \<Rightarrow>
     'w \<Rightarrow> 'w \<times> ('e api_error + unit) exec" where
  "put_many drv col filterArray i [] argOpt w = (w, Returns (Inr ()))"
| "put_many drv col filterArray i (putData # rest) argOpt w =
     (if length filterArray \<le> i then (w, Panics IndexOutOfRange)
      else
        let filt = filterArray ! i
        in case checkDataExisted drv col filt argOpt w of
             Inl err \<Rightarrow> (w, Returns (Inl (ApiErr ''RestfulAPIPutMany err'' err)))
           | Inr existed \<Rightarrow>
               if existed then
                 (case UpdateOne drv col filt (Set_fields putData) None w of
                    (w1, Some err) \<Rightarrow> (w1, Returns (Inl (ApiErr ''RestfulAPIPutMany UpdateOne err'' err)))
                  | (w1, None) \<Rightarrow> put_many drv col filterArray (Suc i) rest argOpt w1)
               else
                 (case InsertOne drv col putData w of
                    (w1, Some err) \<Rightarrow> (w1, Returns (Inl (ApiErr ''RestfulAPIPutMany InsertOne err'' err)))
                  | (w1, None) \<Rightarrow> put_many drv col filterArray (Suc i) rest argOpt w1))"

definition RestfulAPIPutMany ::
    "('c, 'w, 'e, 'v, 'j, 'b, 'p) mongo_driver \<Rightarrow> 'c mongo_vars \<Rightarrow> string \<Rightarrow> 'v gomap list \<Rightarrow> 'v gomap list \<Rightarrow> go_arg list \<Rightarrow>
     'w \<Rightarrow> 'w \<times> ('e api_error + unit) exec" where
  "RestfulAPIPutMany drv vars collName filterArray putDataArray argOpt w =
     with_collection vars collName w (\<lambda>col. put_many drv col filterArray 0 putDataArray argOpt w)"

definition RestfulAPIDeleteOne ::
    "('c, 'w, 'e, 'v, 'j, 'b, 'p) mongo_driver \<Rightarrow> 'c mongo_vars \<Rightarrow> string \<Rightarrow> 'v gomap \<Rightarrow> go_arg list \<Rightarrow> 'w \<Rightarrow>
     'w \<times> ('e api_error + unit) exec" where
  "RestfulAPIDeleteOne drv vars collName filt argOpt w =
     with_collection vars collName w (\<lambda>col.
       ret_err ''RestfulAPIDeleteOne err'' (DeleteOne drv col filt (getCollation argOpt) w))"

definition RestfulAPIDeleteMany ::
    "('c, 'w, 'e, 'v, 'j, 'b, 'p) mongo_driver \<Rightarrow> 'c mongo_vars \<Rightarrow> string \<Rightarrow> 'v gomap \<Rightarrow> go_arg list \<Rightarrow> 'w \<Rightarrow>
     'w \<times> ('e api_error + unit) exec" where
  "RestfulAPIDeleteMany drv vars collName filt argOpt w =
     with_collection vars collName w (\<lambda>col.
       ret_err ''RestfulAPIDeleteMany err'' (DeleteMany drv col filt (getCollation argOpt) w))"

section \<open>Patching\<close>

text \<open>A step of an operation: on an error the operation returns it, wrapped, and leaves the database as it is.\<close>

definition or_fail :: "'w \<Rightarrow> string \<Rightarrow> 'e + 'a \<Rightarrow> ('a \<Rightarrow> 'w \<times> ('e api_error + 'b) exec) \<Rightarrow> 'w \<times> ('e api_error + 'b) exec" where
  "or_fail w prefix r k = (case r of Inl err \<Rightarrow> (w, Returns (Inl (ApiErr prefix err))) | Inr x \<Rightarrow> k x)"

definition RestfulAPIMergePatch ::
    "('c, 'w, 'e, 'v, 'j, 'b, 'p) mongo_driver \<Rightarrow> 'c mongo_vars \<Rightarrow> string \<Rightarrow> 'v gomap \<Rightarrow> 'v gomap \<Rightarrow> go_arg list \<Rightarrow> 'w \<Rightarrow>
     'w \<times> ('e api_error + unit) exec" where
  "RestfulAPIMergePatch drv vars collName filt patchData argOpt w =
     with_collection vars collName w (\<lambda>col.
       or_fail w ''RestfulAPIMergePatch getOrigData err'' (getOrigData drv col filt argOpt w) (\<lambda>originalData.
       or_fail w ''RestfulAPIMergePatch Marshal err'' (Marshal_map drv originalData) (\<lambda>original.
       or_fail w ''RestfulAPIMergePatch Marshal err'' (Marshal_map drv patchData) (\<lambda>patchDataByte.
       or_fail w ''RestfulAPIMergePatch MergePatch err'' (jsonpatch_MergePatch drv original patchDataByte) (\<lambda>modifiedAlternative.
       or_fail w ''RestfulAPIMergePatch Unmarshal err'' (Unmarshal drv modifiedAlternative) (\<lambda>modifiedData.
       ret_err ''RestfulAPIMergePatch UpdateOne err''
         (UpdateOne drv col filt (Set_fields modifiedData) (getCollation argOpt) w)))))))"

definition RestfulAPIJSONPatch ::
    "('c, 'w, 'e, 'v, 'j, 'b, 'p) mongo_driver \<Rightarrow> 'c mongo_vars \<Rightarrow> string \<Rightarrow> 'v gomap \<Rightarrow> 'b \<Rightarrow> go_arg list \<Rightarrow> 'w \<Rightarrow>
     'w \<times> ('e api_error + unit) exec" where
  "RestfulAPIJSONPatch drv vars collName filt patchJSON argOpt w =
     with_collection vars collName w (\<lambda>col.
       or_fail w ''RestfulAPIJSONPatch getOrigData err'' (getOrigData drv col filt argOpt w) (\<lambda>originalData.
       or_fail w ''RestfulAPIJSONPatch Marshal err'' (Marshal_map drv originalData) (\<lambda>original.
       or_fail w ''RestfulAPIJSONPatch DecodePatch err'' (DecodePatch drv patchJSON) (\<lambda>patch.
       or_fail w ''RestfulAPIJSONPatch Apply err'' (Patch_Apply drv patch original) (\<lambda>modified.
       or_fail w ''RestfulAPIJSONPatch Unmarshal err'' (Unmarshal drv modified) (\<lambda>modifiedData.
       ret_err ''RestfulAPIJSONPatch UpdateOne err''
         (UpdateOne drv col filt (Set_fields modifiedData) (getCollation argOpt) w)))))))"

definition RestfulAPIJSONPatchExtend ::
    "('c, 'w, 'e, 'v, 'j, 'b, 'p) mongo_driver \<Rightarrow> 'c mongo_vars \<Rightarrow> string \<Rightarrow> 'v gomap \<Rightarrow> 'b \<Rightarrow> string \<Rightarrow> go_arg list \<Rightarrow> 'w \<Rightarrow>
     'w \<times> ('e api_error + unit) exec" where
  "RestfulAPIJSONPatchExtend drv vars collName filt patchJSON dataName argOpt w =
     with_collection vars collName w (\<lambda>col.
       or_fail w ''RestfulAPIJSONPatchExtend getOrigData err'' (getOrigData drv col filt argOpt w) (\<lambda>originalDataCover.
       let originalData = (case originalDataCover of None \<Rightarrow> None | Some m \<Rightarrow> m dataName) in
       or_fail w ''RestfulAPIJSONPatchExtend Marshal err'' (Marshal_value drv originalData) (\<lambda>original.
       or_fail w ''RestfulAPIJSONPatchExtend DecodePatch err'' (DecodePatch drv patchJSON) (\<lambda>patch.
       or_fail w ''RestfulAPIJSONPatchExtend Apply err'' (Patch_Apply drv patch original) (\<lambda>modified.
       or_fail w ''RestfulAPIJSONPatchExtend Unmarshal err'' (Unmarshal drv modified) (\<lambda>modifiedData.
       ret_err ''RestfulAPIJSONPatchExtend UpdateOne err''
         (UpdateOne drv col filt (Set_fields modifiedData) (getCollation argOpt) w)))))))"

section \<open>Posting and dropping\<close>

definition RestfulAPIPost ::
    "('c, 'w, 'e, 'v, 'j, 'b, 'p) mongo_driver \<Rightarrow> 'c mongo_vars \<Rightarrow> string \<Rightarrow> 'v gomap \<Rightarrow> 'v gomap \<Rightarrow> go_arg list \<Rightarrow> 'w \<Rightarrow>
     'w \<times> ('e api_error + bool) exec" where
  "RestfulAPIPost drv vars collName filt postData argOpt w = RestfulAPIPutOne drv vars collName filt postData argOpt w"

definition RestfulAPIPostMany ::
    "('c, 'w, 'e, 'v, 'j, 'b, 'p) mongo_driver \<Rightarrow> 'c mongo_vars \<Rightarrow> string \<Rightarrow> 'v gomap \<Rightarrow> 'v list \<Rightarrow> 'w \<Rightarrow>
     'w \<times> ('e api_error + unit) exec" where
  "RestfulAPIPostMany drv vars collName filt postDataArray w =
     with_collection vars collName w (\<lambda>col. ret_err ''RestfulAPIPostMany err'' (InsertMany drv col postDataArray w))"

definition Drop :: "('c, 'w, 'e, 'v, 'j, 'b, 'p) mongo_driver \<Rightarrow> 'c mongo_vars \<Rightarrow> string \<Rightarrow> 'w \<Rightarrow> 'w \<times> 'e option exec" where
  "Drop drv vars collName w =
     with_collection vars collName w (\<lambda>col. case Collection_Drop drv col w of (w1, r) \<Rightarrow> (w1, Returns r))"

section \<open>The server\<close>

text \<open>
  What the operations rely on from the server, for one collection: \<open>docs\<close> are its documents in natural order and
  \<open>matches\<close> says which documents a filter selects under a collation. \<^verbatim>\<open>FindOne\<close> returns the first match; a successful
  \<^verbatim>\<open>$set\<close> overrides the named fields of the first match and refuses a null argument; a successful insert appends the
  document, with an \<^verbatim>\<open>_id\<close> of its own if it had none. Nothing is said of a call that fails.
\<close>

fun update_first :: "('a \<Rightarrow> bool) \<Rightarrow> ('a \<Rightarrow> 'a) \<Rightarrow> 'a list \<Rightarrow> 'a list" where
  "update_first P f [] = []"
| "update_first P f (x # xs) = (if P x then f x # xs else x # update_first P f xs)"

definition plain_fields :: "'v document \<Rightarrow> bool" where
  "plain_fields m \<longleftrightarrow> (\<forall>k\<in>dom m. CHR ''.'' \<notin> set k \<and> CHR ''$'' \<notin> set k)"

definition inserted_as :: "'v document \<Rightarrow> 'v document \<Rightarrow> bool" where
  "inserted_as m d \<longleftrightarrow> m \<subseteq>\<^sub>m d \<and> dom d = insert ''_id'' (dom m)"

definition server_laws ::
    "('c, 'w, 'e, 'v, 'j, 'b, 'p) mongo_driver \<Rightarrow> ('c collection \<Rightarrow> 'w \<Rightarrow> 'v document list) \<Rightarrow>
     (Collation option \<Rightarrow> 'v gomap \<Rightarrow> 'v document \<Rightarrow> bool) \<Rightarrow> bool" where
  "server_laws drv docs matches \<longleftrightarrow>
     (\<forall>col f c w. FindOne drv col f c w = Inl ErrNoDocuments \<longrightarrow> List.find (matches c f) (docs col w) = None) \<and>
     (\<forall>col f c w d. FindOne drv col f c w = Inr d \<longrightarrow> List.find (matches c f) (docs col w) = Some d) \<and>
     (\<forall>col f m c w w'. plain_fields m \<and> UpdateOne drv col f (Set_fields (Some m)) c w = (w', None) \<longrightarrow>
        docs col w' = update_first (matches c f) (\<lambda>d. d ++ m) (docs col w)) \<and>
     (\<forall>col f c w w'. UpdateOne drv col f (Set_fields None) c w \<noteq> (w', None)) \<and>
     (\<forall>col m w w'. InsertOne drv col (Some m) w = (w', None) \<longrightarrow>
        (\<exists>d. inserted_as m d \<and> docs col w' = docs col w @ [d]))"

lemma server_lawsD:
  assumes "server_laws drv docs matches"
  shows "FindOne drv col f c w = Inl ErrNoDocuments \<Longrightarrow> List.find (matches c f) (docs col w) = None"
    and "FindOne drv col f c w = Inr d \<Longrightarrow> List.find (matches c f) (docs col w) = Some d"
    and "plain_fields m \<Longrightarrow> UpdateOne drv col f (Set_fields (Some m)) c w = (w', None) \<Longrightarrow>
      docs col w' = update_first (matches c f) (\<lambda>d. d ++ m) (docs col w)"
    and "UpdateOne drv col f (Set_fields None) c w \<noteq> (w', None)"
    and "InsertOne drv col (Some m) w = (w', None) \<Longrightarrow> \<exists>d. inserted_as m d \<and> docs col w' = docs col w @ [d]"
  using assms unfolding server_laws_def by (simp_all del: split_paired_All)

lemma find_update_first:
  assumes "List.find P xs = Some d" "P (f d)" shows "List.find P (update_first P f xs) = Some (f d)"
  using assms by (induction xs) (auto split: if_splits)

lemma find_append: "List.find P (xs @ ys) = (case List.find P xs of None \<Rightarrow> List.find P ys | Some d \<Rightarrow> Some d)"
  by (induction xs) auto

lemma find_Some: "List.find P xs = Some d \<Longrightarrow> d \<in> set xs \<and> P d"
  by (induction xs) (auto split: if_splits)

lemma find_None: "List.find P xs = None \<longleftrightarrow> \<not> list_ex P xs"
  by (induction xs) auto

lemma update_first_none: "\<not> list_ex P xs \<Longrightarrow> update_first P f xs = xs"
  by (induction xs) auto

lemma list_all2_update_first: "(\<And>x. R x (f x)) \<Longrightarrow> (\<And>x. R x x) \<Longrightarrow> list_all2 R xs (update_first P f xs)"
  by (induction xs) (auto simp: list_all2_refl)

text \<open>What a successful put did.\<close>

lemma put_one_cases:
  assumes laws: "server_laws drv docs matches" and client: "Client vars = Some c" and plain: "plain_fields m"
    and run: "RestfulAPIPutOne drv vars coll filt (Some m) argOpt w = (w', Returns (Inr existed))"
  defines "col \<equiv> (c, dbName vars, coll)" and "P \<equiv> matches (getCollation argOpt) filt"
  obtains d where "existed" "List.find P (docs col w) = Some d" "docs col w' = update_first P (\<lambda>d. d ++ m) (docs col w)"
  | d where "\<not> existed" "List.find P (docs col w) = None" "inserted_as m d" "docs col w' = docs col w @ [d]"
proof -
  let ?find = "FindOne drv col filt (getCollation argOpt) w"
  consider (none) "?find = Inl ErrNoDocuments" | (err) e where "?find = Inl (DriverError e)" | (some) d where "?find = Inr d"
    by (cases ?find) (metis find_error.exhaust, blast)
  then show thesis
  proof cases
    case none
    then have "\<not> existed" "InsertOne drv col (Some m) w = (w', None)"
      using run client
      by (auto simp: RestfulAPIPutOne_def with_collection_def checkDataExisted_def findOneAndDecode_def col_def
          split: prod.splits option.splits)
    with server_lawsD(1,5) [OF laws] none that(2) show thesis unfolding P_def by blast
  next
    case err
    with run client show thesis
      by (simp add: RestfulAPIPutOne_def with_collection_def checkDataExisted_def findOneAndDecode_def col_def)
  next
    case (some d)
    then have "existed" "UpdateOne drv col filt (Set_fields (Some m)) (getCollation argOpt) w = (w', None)"
      using run client
      by (auto simp: RestfulAPIPutOne_def with_collection_def checkDataExisted_def findOneAndDecode_def col_def
          split: prod.splits option.splits)
    with server_lawsD(2,3) [OF laws] some plain that(1) show thesis unfolding P_def by blast
  qed
qed

section \<open>Properties\<close>

text \<open>C9. A put is read back. When the data put under a filter has plain field names (no dots and dollar signs) and is
  itself selected by the filter, and no other client writes between the calls of the operation, a put that succeeds
  returns whether a document was there before; it overrides the named fields of that document, or adds one document with
  those fields, and touches no other. A read with the same filter then finds a document with all the fields put (the
  \<^verbatim>\<open>_id\<close> apart, which reads leave out), unless the driver itself fails.\<close>

theorem put_then_get:
  assumes "server_laws drv docs matches" and "Client vars = Some c" and "plain_fields m"
    and "RestfulAPIPutOne drv vars coll filt (Some m) argOpt w = (w', Returns (Inr existed))"
    and "\<And>d. matches (getCollation argOpt) filt d \<Longrightarrow> matches (getCollation argOpt) filt (d ++ m)"
    and "\<And>d. inserted_as m d \<Longrightarrow> matches (getCollation argOpt) filt d"
  shows "let P = matches (getCollation argOpt) filt; before = docs (c, dbName vars, coll) w; after = docs (c, dbName vars, coll) w'
    in (existed \<longleftrightarrow> list_ex P before) \<and>
       (if existed then after = update_first P (\<lambda>d. d ++ m) before else (\<exists>d. inserted_as m d \<and> after = before @ [d])) \<and>
       (case RestfulAPIGetOne drv vars coll filt argOpt w' of
          (w'', Returns (Inr (Some d))) \<Rightarrow> w'' = w' \<and> m(''_id'' := None) \<subseteq>\<^sub>m d
        | (w'', Returns (Inl (ApiErr _ e))) \<Rightarrow>
            FindOne drv (c, dbName vars, coll) filt (getCollation argOpt) w' = Inl (DriverError e)
        | _ \<Rightarrow> False)"
proof -
  let ?P = "matches (getCollation argOpt) filt" and ?col = "(c, dbName vars, coll)"
  have read: "case RestfulAPIGetOne drv vars coll filt argOpt w' of
      (w'', Returns (Inr (Some d))) \<Rightarrow> w'' = w' \<and> m(''_id'' := None) \<subseteq>\<^sub>m d
    | (w'', Returns (Inl (ApiErr _ e))) \<Rightarrow> FindOne drv ?col filt (getCollation argOpt) w' = Inl (DriverError e)
    | _ \<Rightarrow> False" if found: "List.find ?P (docs ?col w') = Some d" "m \<subseteq>\<^sub>m d" for d
  proof -
    have "m(''_id'' := None) \<subseteq>\<^sub>m d(''_id'' := None)" using found(2) by (auto simp: map_le_def)
    then show ?thesis
      using server_lawsD(1,2) [OF assms(1), of ?col filt "getCollation argOpt" w'] found(1) assms(2)
      by (auto simp: RestfulAPIGetOne_def with_collection_def getOrigData_def findOneAndDecode_def
          split: sum.splits find_error.splits)
  qed
  show ?thesis
  proof (cases rule: put_one_cases [OF assms(1-4)])
    case (1 d)
    then have "list_ex ?P (docs ?col w)" using find_None [of ?P "docs ?col w"] by simp
    moreover have "List.find ?P (docs ?col w') = Some (d ++ m)"
      using 1 find_update_first [OF 1(2)] find_Some [OF 1(2)] assms(5) by simp
    ultimately show ?thesis using 1(1,3) read [of "d ++ m"] by (simp add: Let_def map_le_map_add)
  next
    case (2 d)
    then have "\<not> list_ex ?P (docs ?col w)" using find_None [of ?P] by simp
    moreover have "List.find ?P (docs ?col w') = Some d" using 2 assms(6) by (simp add: find_append)
    ultimately show ?thesis using 2(1,3,4) read [of d] by (auto simp: Let_def inserted_as_def)
  qed
qed

text \<open>The three patch operations, and the document each one makes from the document it read.\<close>

datatype ('v, 'b) patch_op = MergeOp "'v gomap" | JSONOp 'b | JSONExtendOp 'b string

definition run_patch ::
    "('c, 'w, 'e, 'v, 'j, 'b, 'p) mongo_driver \<Rightarrow> 'c mongo_vars \<Rightarrow> string \<Rightarrow> 'v gomap \<Rightarrow> ('v, 'b) patch_op \<Rightarrow> go_arg list \<Rightarrow> 'w \<Rightarrow>
     'w \<times> ('e api_error + unit) exec" where
  "run_patch drv vars coll filt op argOpt w =
     (case op of
        MergeOp patchData \<Rightarrow> RestfulAPIMergePatch drv vars coll filt patchData argOpt w
      | JSONOp patchJSON \<Rightarrow> RestfulAPIJSONPatch drv vars coll filt patchJSON argOpt w
      | JSONExtendOp patchJSON dataName \<Rightarrow> RestfulAPIJSONPatchExtend drv vars coll filt patchJSON dataName argOpt w)"

definition and_then :: "'e + 'a \<Rightarrow> ('a \<Rightarrow> 'e + 'b) \<Rightarrow> 'e + 'b" where
  "and_then r k = (case r of Inl e \<Rightarrow> Inl e | Inr x \<Rightarrow> k x)"

definition patched ::
    "('c, 'w, 'e, 'v, 'j, 'b, 'p) mongo_driver \<Rightarrow> ('v, 'b) patch_op \<Rightarrow> 'v gomap \<Rightarrow> 'e + 'v gomap" where
  "patched drv op orig =
     (case op of
        MergeOp patchData \<Rightarrow>
          and_then (Marshal_map drv orig) (\<lambda>a. and_then (Marshal_map drv patchData) (\<lambda>b.
          and_then (jsonpatch_MergePatch drv a b) (Unmarshal drv)))
      | JSONOp patchJSON \<Rightarrow>
          and_then (Marshal_map drv orig) (\<lambda>a. and_then (DecodePatch drv patchJSON) (\<lambda>p.
          and_then (Patch_Apply drv p a) (Unmarshal drv)))
      | JSONExtendOp patchJSON dataName \<Rightarrow>
          and_then (Marshal_value drv (Option.bind orig (\<lambda>m. m dataName))) (\<lambda>a.
          and_then (DecodePatch drv patchJSON) (\<lambda>p. and_then (Patch_Apply drv p a) (Unmarshal drv))))"

text \<open>Every patch reads, computes, and ends in one update that sets the fields of the patched document.\<close>

definition cause :: "('e api_error + 'a) exec \<Rightarrow> ('e + 'a) exec" where
  "cause r = (case r of Panics p \<Rightarrow> Panics p | Returns (Inl (ApiErr _ err)) \<Rightarrow> Returns (Inl err) | Returns (Inr x) \<Rightarrow> Returns (Inr x))"

lemma cause_or_fail:
  "map_prod id cause (or_fail w prefix r k) =
     (case r of Inl err \<Rightarrow> (w, Returns (Inl err)) | Inr x \<Rightarrow> map_prod id cause (k x))"
  by (simp add: or_fail_def cause_def split: sum.split)

lemma cause_ret_err:
  "map_prod id cause (ret_err prefix r) = (case r of (w, Some err) \<Rightarrow> (w, Returns (Inl err)) | (w, None) \<Rightarrow> (w, Returns (Inr ())))"
  by (simp add: ret_err_def cause_def split: prod.split option.split)

lemma patch_is_update:
  assumes "Client vars = Some c"
  shows "map_prod id cause (run_patch drv vars coll filt op argOpt w) =
    (case and_then (getOrigData drv (c, dbName vars, coll) filt argOpt w) (patched drv op) of
       Inl err \<Rightarrow> (w, Returns (Inl err))
     | Inr modified \<Rightarrow>
         (case UpdateOne drv (c, dbName vars, coll) filt (Set_fields modified) (getCollation argOpt) w of
            (w1, Some err) \<Rightarrow> (w1, Returns (Inl err))
          | (w1, None) \<Rightarrow> (w1, Returns (Inr ()))))"
proof (cases op)
  case (MergeOp patchData)
  then show ?thesis using assms
    by (simp add: run_patch_def RestfulAPIMergePatch_def with_collection_def cause_or_fail cause_ret_err patched_def
        and_then_def split: sum.split)
next
  case (JSONOp patchJSON)
  then show ?thesis using assms
    by (simp add: run_patch_def RestfulAPIJSONPatch_def with_collection_def cause_or_fail cause_ret_err patched_def
        and_then_def split: sum.split)
next
  case (JSONExtendOp patchJSON dataName)
  have "(case orig of None \<Rightarrow> None | Some m \<Rightarrow> m dataName) = Option.bind orig (\<lambda>m. m dataName)" for orig :: "'d gomap"
    by (cases orig) simp_all
  with JSONExtendOp show ?thesis using assms
    by (simp add: run_patch_def RestfulAPIJSONPatchExtend_def with_collection_def cause_or_fail cause_ret_err patched_def
        and_then_def Let_def split: sum.split)
qed


text \<open>Putting pairs of filters and data one after the other, until the first error.\<close>

fun put_each ::
    "('c, 'w, 'e, 'v, 'j, 'b, 'p) mongo_driver \<Rightarrow> 'c mongo_vars \<Rightarrow> string \<Rightarrow> go_arg list \<Rightarrow> ('v gomap \<times> 'v gomap) list \<Rightarrow> 'w \<Rightarrow>
     'w \<times> ('e + unit) exec" where
  "put_each drv vars coll argOpt [] w = (w, Returns (Inr ()))"
| "put_each drv vars coll argOpt ((filt, putData) # rest) w =
     (case RestfulAPIPutOne drv vars coll filt putData argOpt w of
        (w1, Panics p) \<Rightarrow> (w1, Panics p)
      | (w1, Returns (Inl (ApiErr _ err))) \<Rightarrow> (w1, Returns (Inl err))
      | (w1, Returns (Inr _)) \<Rightarrow> put_each drv vars coll argOpt rest w1)"

text \<open>The driver with updates that take no notice of a collation.\<close>

definition plain_updates ::
    "('c, 'w, 'e, 'v, 'j, 'b, 'p) mongo_driver \<Rightarrow> ('c, 'w, 'e, 'v, 'j, 'b, 'p) mongo_driver" where
  "plain_updates drv = drv\<lparr>UpdateOne := \<lambda>col filt upd _. UpdateOne drv col filt upd None\<rparr>"

lemma plain_updates_simps [simp]:
  "checkDataExisted (plain_updates drv) = checkDataExisted drv" "InsertOne (plain_updates drv) = InsertOne drv"
  "UpdateOne (plain_updates drv) col filt upd c w = UpdateOne drv col filt upd None w"
  by (simp_all add: plain_updates_def checkDataExisted_def findOneAndDecode_def fun_eq_iff)

lemma put_many_put_each:
  assumes "Client vars = Some c" "i \<le> length filterArray"
  shows "map_prod id cause (put_many drv (c, dbName vars, coll) filterArray i putDataArray argOpt w) =
    (case put_each (plain_updates drv) vars coll argOpt (zip (drop i filterArray) putDataArray) w of
       (w', Returns (Inr _)) \<Rightarrow>
         (w', if length filterArray < i + length putDataArray then Panics IndexOutOfRange else Returns (Inr ()))
     | r \<Rightarrow> r)"
  using assms(2)
proof (induction putDataArray arbitrary: i w)
  case (Cons putData rest)
  show ?case
  proof (cases "length filterArray \<le> i")
    case True
    then show ?thesis using Cons.prems by (simp add: cause_def)
  next
    case False
    from False have "drop i filterArray = filterArray ! i # drop (Suc i) filterArray" by (simp add: Cons_nth_drop_Suc)
    with False Cons.IH [of "Suc i"] assms(1) show ?thesis
      by (simp add: RestfulAPIPutOne_def with_collection_def cause_def Let_def
          split: sum.splits option.splits prod.splits)
  qed
qed (simp add: cause_def)

lemma put_each_plain_updates:
  assumes "getCollation argOpt = None"
  shows "put_each (plain_updates drv) vars coll argOpt pairs w = put_each drv vars coll argOpt pairs w"
proof -
  have "RestfulAPIPutOne (plain_updates drv) vars coll filt putData argOpt w =
      RestfulAPIPutOne drv vars coll filt putData argOpt w" for filt putData w
    using assms by (simp only: RestfulAPIPutOne_def plain_updates_simps)
  then show ?thesis
    by (induction pairs arbitrary: w) (auto split: prod.split exec.split sum.split api_error.split)
qed

text \<open>C27. Putting many documents is putting them one after the other, each seeing what the earlier ones stored, until
  the first error, with one difference: the existence test honours the collation that is asked for and the update does not,
  so the operation is the sequence of single puts over a driver whose updates take no notice of the collation. Without a
  collation it is the sequence of single puts over the driver itself. When there are fewer filters than documents, the
  pairs there are have been stored before the operation panics on the missing filter.\<close>

theorem put_many_sequence:
  assumes "Client vars = Some c"
  shows "map_prod id cause (RestfulAPIPutMany drv vars coll filterArray putDataArray argOpt w) =
      (case put_each (plain_updates drv) vars coll argOpt (zip filterArray putDataArray) w of
         (w', Returns (Inr _)) \<Rightarrow>
           (w', if length filterArray < length putDataArray then Panics IndexOutOfRange else Returns (Inr ()))
       | r \<Rightarrow> r) \<and>
    (getCollation argOpt = None \<longrightarrow>
      put_each (plain_updates drv) vars coll argOpt (zip filterArray putDataArray) w =
      put_each drv vars coll argOpt (zip filterArray putDataArray) w)"
  using put_many_put_each [OF assms, of 0 filterArray drv coll putDataArray argOpt w] assms
    put_each_plain_updates [of argOpt drv vars coll]
  by (simp add: RestfulAPIPutMany_def with_collection_def split del: if_split)

section \<open>Further facts\<close>

text \<open>The client is set once: later calls change neither the client nor the database.\<close>

lemma SetMongoDB_once:
  assumes "SetMongoDB drv db url vars = (vars', None)"
  shows "Client vars' \<noteq> None" "SetMongoDB drv db2 url2 vars' = (vars', None)"
  using assms by (auto simp: SetMongoDB_def split: if_splits sum.splits)

text \<open>Before the client is set, every operation panics and leaves the database as it is.\<close>

lemma nil_client_panics:
  assumes "Client vars = None"
  shows "RestfulAPIGetOne drv vars coll filt argOpt w = (w, Panics NilDereference)"
    "RestfulAPIPutOne drv vars coll filt putData argOpt w = (w, Panics NilDereference)"
    "RestfulAPIPutMany drv vars coll filts putDataArray argOpt w = (w, Panics NilDereference)"
    "RestfulAPIMergePatch drv vars coll filt putData argOpt w = (w, Panics NilDereference)"
    "RestfulAPIDeleteMany drv vars coll filt argOpt w = (w, Panics NilDereference)"
    "Drop drv vars coll w = (w, Panics NilDereference)"
  using assms by (simp_all add: RestfulAPIGetOne_def RestfulAPIPutOne_def RestfulAPIPutMany_def RestfulAPIMergePatch_def
      RestfulAPIDeleteMany_def Drop_def with_collection_def)

text \<open>Reading a cursor to its end gives every document without its \<^verbatim>\<open>_id\<close>; the first document that cannot be decoded
  ends it with an error.\<close>

lemma read_cursor_result:
  "read_cursor (map Inr ds) acc = Inr (acc @ map (\<lambda>d. d(''_id'' := None)) ds)"
  "read_cursor (map Inr ds @ Inl e # rest) acc = Inl e"
  by (induction ds arbitrary: acc) (simp_all add: fun_upd_def)

text \<open>Putting without update never changes a document that is there.\<close>

lemma put_not_update_keeps:
  assumes "server_laws drv docs matches" "Client vars = Some c"
    and "RestfulAPIPutOneNotUpdate drv vars coll filt (Some m) argOpt w = (w', Returns (Inr existed))"
  shows "docs (c, dbName vars, coll) w' = docs (c, dbName vars, coll) w \<and> existed \<or>
    (\<exists>d. inserted_as m d \<and> docs (c, dbName vars, coll) w' = docs (c, dbName vars, coll) w @ [d]) \<and> \<not> existed"
  using assms(2,3) server_lawsD(5) [OF assms(1)]
  by (auto simp: RestfulAPIPutOneNotUpdate_def with_collection_def checkDataExisted_def findOneAndDecode_def
      split: sum.splits find_error.splits prod.splits option.splits if_splits)

section \<open>A database in memory\<close>

definition mem_matches :: "Collation option \<Rightarrow> int gomap \<Rightarrow> int document \<Rightarrow> bool" where
  "mem_matches c f d = (case f of None \<Rightarrow> True | Some m \<Rightarrow> m ''ueId'' = d ''ueId'')"

definition mem_driver :: "(unit, int document list, unit, int, int gomap, string list, string list) mongo_driver" where
  "mem_driver = \<lparr>Connect = (\<lambda>_. Inr ()),
     FindOne = (\<lambda>_ f c w. case List.find (mem_matches c f) w of None \<Rightarrow> Inl ErrNoDocuments | Some d \<Rightarrow> Inr d),
     Find = (\<lambda>_ f c w. Inr (map Inr (filter (mem_matches c f) w), None)),
     UpdateOne = (\<lambda>_ f u c w. case u of
        Set_fields (Some m) \<Rightarrow> (update_first (mem_matches c f) (\<lambda>d. d ++ m) w, None) | _ \<Rightarrow> (w, Some ())),
     InsertOne = (\<lambda>_ m w. case m of
        None \<Rightarrow> (w, Some ())
      | Some m \<Rightarrow> (w @ [if m ''_id'' = None then m(''_id'' \<mapsto> int (length w)) else m], None)),
     InsertMany = (\<lambda>_ _ w. (w, Some ())),
     DeleteOne = (\<lambda>_ _ _ w. (w, Some ())),
     DeleteMany = (\<lambda>_ f c w. (filter (\<lambda>d. \<not> mem_matches c f d) w, None)),
     CountDocuments = (\<lambda>_ f w. Inr (int (length (filter (mem_matches None f) w)))),
     Collection_Drop = (\<lambda>_ _. ([], None)),
     Marshal_map = Inr, Marshal_value = (\<lambda>_. Inl ()),
     Unmarshal = Inr,
     jsonpatch_MergePatch = (\<lambda>a b. Inr (case (a, b) of (Some d, Some m) \<Rightarrow> Some (d ++ m) | _ \<Rightarrow> b)), DecodePatch = Inr,
     Patch_Apply = (\<lambda>ks j. Inr (case j of None \<Rightarrow> None | Some m \<Rightarrow> Some (m |` (- set ks))))\<rparr>"

definition mem_vars :: "unit mongo_vars" where
  "mem_vars = \<lparr>Client = Some (), dbName = ''free5gc''\<rparr>"

lemma mem_server_laws: "server_laws mem_driver (\<lambda>_ w. w) mem_matches"
  by (auto simp: server_laws_def mem_driver_def inserted_as_def map_le_def split: option.splits if_splits)

theorem put_then_get_witness:
  "\<exists>w' d. RestfulAPIPutOne mem_driver mem_vars ''subs'' (Some [''ueId'' \<mapsto> 1]) (Some [''ueId'' \<mapsto> 1]) [] [] =
     (w', Returns (Inr False)) \<and> inserted_as [''ueId'' \<mapsto> 1] d \<and> w' = [d]"
proof -
  let ?m = "[''ueId'' \<mapsto> 1] :: int document"
  obtain w' where run: "RestfulAPIPutOne mem_driver mem_vars ''subs'' (Some ?m) (Some ?m) [] [] = (w', Returns (Inr False))"
    by (auto simp: RestfulAPIPutOne_def with_collection_def checkDataExisted_def findOneAndDecode_def mem_driver_def mem_vars_def)
  have "mem_matches (getCollation []) (Some ?m) (d ++ ?m)" for d by (simp add: mem_matches_def)
  moreover have "mem_matches (getCollation []) (Some ?m) d" if "inserted_as ?m d" for d
    using that by (auto simp: mem_matches_def inserted_as_def map_le_def)
  moreover have "plain_fields ?m" "Client mem_vars = Some ()" by (simp_all add: plain_fields_def mem_vars_def)
  ultimately show ?thesis
    using put_then_get [OF mem_server_laws _ _ run, of "()"] run by (auto simp: Let_def)
qed


theorem put_many_sequence_witness:
  "\<exists>w'. map_prod id cause (RestfulAPIPutMany mem_driver mem_vars ''subs'' [Some [''ueId'' \<mapsto> 1]]
     [Some [''ueId'' \<mapsto> 1], Some [''ueId'' \<mapsto> 2]] [] []) = (w', Panics IndexOutOfRange) \<and> length w' = 1"
proof -
  have "Client mem_vars = Some ()" by (simp add: mem_vars_def)
  note c = put_many_sequence [OF this, THEN conjunct1]
  show ?thesis
    unfolding c by (auto simp: mem_vars_def getCollation_def RestfulAPIPutOne_def with_collection_def checkDataExisted_def
      findOneAndDecode_def mem_driver_def plain_updates_def)
qed

end
