(* ===== verification/Spec2Isabelle.thy ===== *)
theory Spec2Isabelle
  imports Prelude Allocator IdGenerator LazyReusePool NetIP IPPool Pfcp FSM SafeChannel GoRegex Validator FlowDesc
    Aes Milenage Sha256 UEAuth GoOS MetricsBase NgapMetrics NasMetrics HttpWrapper Metrics Logger GinLogger Mongo
begin

text \<open>
  Verification of the free5GC utility library, the Go packages under \<^verbatim>\<open>src/lib/util\<close> that the network
  functions (AMF, SMF, UPF, AUSF, UDM) link against. The network functions themselves are git submodules and are
  not part of the tree; what the tree holds beside the library is integration tests, scripts, configuration and
  certificates.

  \<^bold>\<open>The program.\<close> The library has five groups of packages.

  \<^item> Pools. \<^verbatim>\<open>idgenerator\<close> numbers sessions, tunnels and rules; \<^verbatim>\<open>ippool\<close> assigns UE addresses: an
    \<^verbatim>\<open>IPPool\<close> turns addresses into integers and keeps the free ones in a \<^verbatim>\<open>LazyReusePool\<close>. What every
    client relies on is that nothing is handed out twice and nothing is lost.
  \<^item> Security. \<^verbatim>\<open>milenage\<close> computes and checks authentication tokens, \<^verbatim>\<open>ueauth\<close> derives keys from them.
  \<^item> Formats. \<^verbatim>\<open>flowdesc\<close> prints and parses packet filters, \<^verbatim>\<open>pfcp\<close> parses the Outer Header
    Creation element, \<^verbatim>\<open>validator\<close> checks subscriber, equipment and network identifiers.
  \<^item> Control. \<^verbatim>\<open>fsm\<close> runs the state machines of UE contexts, \<^verbatim>\<open>safe_channel\<close> is a channel that
    may be closed while others send.
  \<^item> Services. \<^verbatim>\<open>mongoapi\<close> stores subscriber data, \<^verbatim>\<open>logger\<close> keeps log files and the request log,
    \<^verbatim>\<open>metrics\<close> counts messages, \<^verbatim>\<open>httpwrapper\<close> and \<^verbatim>\<open>version\<close> serve the others. They sit on external
    libraries; each is modelled up to the calls it makes on them.

  \<^bold>\<open>Conventions\<close> (theory \<open>Prelude\<close>). A function that may panic has result type \<open>'a exec\<close>; a result
  \<^verbatim>\<open>(T, error)\<close> is a sum with the error on the left; error texts are constructors with the values that were
  formatted into them. Go's \<^verbatim>\<open>int64\<close> and \<^verbatim>\<open>int\<close> are \<open>int\<close> with the wrap-around \<open>i64\<close> written
  out where it can happen; \<^verbatim>\<open>uint8\<close>, \<^verbatim>\<open>uint16\<close> and \<^verbatim>\<open>uint32\<close> are words of that width. Methods that hold
  a lock from beginning to end are one step of a history; where the interleaving matters (\<open>SafeChannel\<close>) the
  lock operations are steps themselves.

  \<^bold>\<open>Theories and sources.\<close>

  \<^item> \<open>Allocator\<close>: the contract \<open>value_pool\<close> of everything that hands out values: the values in stock, their
    count, the laws of allocation and release. Its lemmas are proved once: in every history whose clients return only
    what they hold, what is handed out is held by nobody, allocation fails exactly when all is held, and the count is
    exact. The locale \<open>managed_pool\<close> extends it by requests of a given value and by the withdrawal of values; there
    every value is free, held or withdrawn.
  \<^item> \<open>IdGenerator\<close> models \<^verbatim>\<open>idgenerator/idgenerator.go\<close>: the record \<open>IDGenerator\<close>, \<open>NewGenerator\<close>,
    \<open>IDGenerator_Allocate\<close>, \<open>IDGenerator_FreeID\<close>. The loop of \<^verbatim>\<open>Allocate\<close> is a partial function in the
    option type, so that a loop that never ends is a value of its own, and the theory proves that it always returns.
    It shows uniqueness, round-robin order, delayed reuse, and what the first \<^verbatim>\<open>Allocate\<close> does for every pair of bounds.
  \<^item> \<open>LazyReusePool\<close> models \<^verbatim>\<open>ippool/lazyReusePool.go\<close>: the linked segments are a list of \<open>segment\<close>
    records, each loop over the links is a recursive function on it. It interprets \<open>managed_pool\<close> and gives each
    operation's effect on the list of values. The relation \<open>lrp_history\<close> has a step for each call of
    \<^verbatim>\<open>Allocate\<close>, \<^verbatim>\<open>Use\<close>, \<^verbatim>\<open>Free\<close> and \<^verbatim>\<open>Reserve\<close>, failing calls included; uniqueness holds in all of them. One theorem
    says which duplicated frees are detected.
  \<^item> \<open>GoStrings\<close> and \<open>NetIP\<close> model what the packages use of \<^verbatim>\<open>strings\<close>, \<^verbatim>\<open>strconv\<close>,
    \<^verbatim>\<open>encoding/hex\<close> and \<^verbatim>\<open>net\<close> (parsing and printing of addresses and prefixes), with the round trips the
    format theorems rest on.
  \<^item> \<open>IPPool\<close> models \<^verbatim>\<open>ippool/ip_pool.go\<close> over the two: construction, allocation, requests, release,
    exclusion, printing. It interprets \<open>managed_pool\<close> again, for addresses; \<open>ippool_history\<close> has the steps of every operation that
    changes a pool.
  \<^item> \<open>Pfcp\<close> models \<^verbatim>\<open>pfcp/outer_header.go\<close>: the parser accepts exactly the encodings of the TS 29.244 layout,
    which is given by a table of flag bits of its own.
  \<^item> \<open>FSM\<close> models \<^verbatim>\<open>fsm/state.go\<close> and \<^verbatim>\<open>fsm/fsm.go\<close>. Callbacks are arbitrary functions on the state
    object and on a world of any type. The machine refines the labelled transition system of its table; the order of
    callbacks and the panics on missing ones are theorems.
  \<^item> \<open>SafeChannel\<close> models \<^verbatim>\<open>safe_channel/safe_channel.go\<close> as a step relation over any number of
    goroutines; invariants by rule induction give the absence of panics and the order of values.
  \<^item> \<open>GoRegex\<close> is a derivative matcher for the subset of \<^verbatim>\<open>regexp\<close> the library uses, with its
    languages; \<open>Validator\<close> models \<^verbatim>\<open>validator/*.go\<close> on it and says which strings are accepted.
  \<^item> \<open>FlowDesc\<close> models \<^verbatim>\<open>flowdesc/ip_filter_rule.go\<close>: encoder and decoder are inverse to each other.
  \<^item> \<open>Aes\<close> is the cipher of \<^verbatim>\<open>crypto/aes\<close> with the contract \<open>block_cipher\<close>; \<open>Milenage\<close> models
    \<^verbatim>\<open>milenage/milenage.go\<close>: the code computes TS 35.206, and a checking function accepts exactly what the
    generating function of the other side makes.
  \<^item> \<open>Sha256\<close> is HMAC-SHA-256; \<open>UEAuth\<close> models \<^verbatim>\<open>ueauth/ueauth.go\<close>: the hashed string is the one of
    TS 33.220, with big-endian lengths, and the lengths make it unambiguous.
  \<^item> \<open>GoOS\<close> models what the packages use of \<^verbatim>\<open>os\<close> and \<^verbatim>\<open>path/filepath\<close>: path cleaning, and a file system
    whose operations fail where its state says so.
  \<^item> \<open>Logger\<close> and \<open>GinLogger\<close> model \<^verbatim>\<open>logger/logger.go\<close>: rotation keeps every log as long as the copies are
    numbered without a gap, attaching a log file loses no contents and succeeds exactly when the system lets it, a
    panic of a handler is recovered and logged without credentials unless the connection is gone.
  \<^item> \<open>MetricsBase\<close>, \<open>NgapMetrics\<close>, \<open>NasMetrics\<close> and \<open>Metrics\<close> model \<^verbatim>\<open>metrics\<close> and its subpackages: the
    variables of the packages, the vectors made for them, the calls every counting function makes and the label texts.
    Every call fits its vector; every NGAP cause has a text of its own.
  \<^item> \<open>HttpWrapper\<close> models \<^verbatim>\<open>httpwrapper/httpwrapper.go\<close> and \<^verbatim>\<open>version/version.go\<close>.
  \<^item> \<open>Mongo\<close> models \<^verbatim>\<open>mongoapi/mongoapi.go\<close> over a record of driver calls. The predicate \<open>server_laws\<close> says what the
    properties use of the server; a database in memory satisfies it. A put is read back, a patch removes no field, many
    puts are puts one after the other up to the collation of the update. Each operation runs without other clients
    of the database between its calls.

  \<^bold>\<open>Bounds and termination.\<close> There is no fuel in the development: loops are structural recursions, functions with
  a measure, or the one partial function of \<open>IdGenerator\<close>, for which returning is proved. AES and SHA-256 were
  transcribed from FIPS 197 and FIPS 180-4; only their sizes enter the proofs.

  \<^bold>\<open>External code.\<close> The Prometheus client, gin, logrus with its formatter, the MongoDB driver, the JSON patch library
  and the free5GC message packages are not in the tree. Where the code calls them the definitions take the calls as
  arguments (\<open>gin_api\<close>, \<open>logrus_api\<close>, \<open>mongo_driver\<close>, the constants of the message packages) or return the calls they
  make (\<open>metric_call\<close>, \<open>server_call\<close>).

  \<^bold>\<open>Not modelled.\<close> \<^verbatim>\<open>mapstruct\<close>: one hook for a reflection library, which does the decoding. Contexts, timeouts
  and the text of wrapped errors beyond its prefix. Log output of the packages other than \<^verbatim>\<open>logger\<close>. Slices are values: the one place where sharing of a backing array could be seen,
  \<^verbatim>\<open>append(amf, mac...)\<close> in \<^verbatim>\<open>generateAKAParameters\<close>, is outside the model, and the slice expressions of the
  unexported functions take a slice's capacity to be its length. Addresses with zones, and the byte offsets of
  non-ASCII text, are outside the model of \<^verbatim>\<open>net\<close> and \<^verbatim>\<open>strings\<close>.
\<close>

end
